(* ===== verification/C_Prelude.thy ===== *)
theory C_Prelude
  imports Main "HOL-Library.Word" "HOL-Library.Monad_Syntax"
begin

text \<open>
  What the theories of this development share: the C integer types at their width, the conversions
  between \<open>int\<close> and \<open>size_t\<close> that the code performs implicitly, byte buffers with checked reads,
  and the little-endian view of multi-byte struct fields.

  Conventions. A C object in memory is its list of bytes. A computation that may have undefined
  behaviour returns an option: \<^term>\<open>None\<close> is an access outside the object, \<^term>\<open>Some x\<close> is a
  defined result. Return codes are integers, as the C code returns them. The host is little-endian
  with a 32-bit \<open>int\<close> and a 64-bit \<open>size_t\<close> (the x86-64 and AArch64 Linux ABIs).
\<close>

unbundle bit_operations_syntax

type_synonym u8 = "8 word"
type_synonym u16 = "16 word"
type_synonym u32 = "32 word"
type_synonym u64 = "64 word"
type_synonym i32 = "32 word"
type_synonym bytes = "8 word list"

named_theorems c_int_simps \<open>conversions between int and size_t on small values\<close>
named_theorems rd_simps \<open>checked reads of byte buffers\<close>
named_theorems wire_simps \<open>layout of the packed structs\<close>


section \<open>Exit codes and errno values\<close>

definition EXIT_SUCCESS :: int where
  "EXIT_SUCCESS = 0"

definition EXIT_FAILURE :: int where
  "EXIT_FAILURE = 1"

definition EINVAL :: int where
  "EINVAL = 22"

definition ENOMEM :: int where
  "ENOMEM = 12"

definition EFAULT :: int where
  "EFAULT = 14"

lemmas exit_code_defs = EXIT_SUCCESS_def EXIT_FAILURE_def EINVAL_def ENOMEM_def EFAULT_def


section \<open>Outcomes\<close>

text \<open>
  A step of a program continues with a result, ends the process with an exit status, or has undefined
  behaviour.
\<close>

datatype 'a outcome = Continue 'a | Exit int | Fault

fun and_then :: "'a outcome \<Rightarrow> ('a \<Rightarrow> 'b outcome) \<Rightarrow> 'b outcome" where
  "and_then (Continue x) f = f x"
| "and_then (Exit code) f = Exit code"
| "and_then Fault f = Fault"

fun defined :: "'a option \<Rightarrow> 'a outcome" where
  "defined None = Fault"
| "defined (Some x) = Continue x"

lemma and_then_eq_Continue [simp]:
  "and_then m f = Continue y \<longleftrightarrow> (\<exists>x. m = Continue x \<and> f x = Continue y)"
  by (cases m) simp_all

lemma and_then_eq_Fault [simp]:
  "and_then m f = Fault \<longleftrightarrow> m = Fault \<or> (\<exists>x. m = Continue x \<and> f x = Fault)"
  by (cases m) simp_all

lemma defined_eq [simp]:
  "defined x = Continue y \<longleftrightarrow> x = Some y" "defined x = Fault \<longleftrightarrow> x = None" "defined x \<noteq> Exit code"
  by (cases x; simp)+


text \<open>
  \<open>ensures a P m\<close>: if \<open>m\<close> continues, its result satisfies \<open>P\<close>, and it faults only under \<open>a\<close>. The rules follow
  the structure of a step.
\<close>

definition ensures :: "bool \<Rightarrow> ('a \<Rightarrow> bool) \<Rightarrow> 'a outcome \<Rightarrow> bool" where
  "ensures a P m \<longleftrightarrow> (case m of Continue x \<Rightarrow> P x | Exit code \<Rightarrow> True | Fault \<Rightarrow> a)"

named_theorems ensures_rules \<open>structural rules for ensures\<close>

lemma ensures_Continue [ensures_rules]: "P x \<Longrightarrow> ensures a P (Continue x)"
  by (simp add: ensures_def)

lemma ensures_Exit [ensures_rules]: "ensures a P (Exit code)"
  by (simp add: ensures_def)

lemma ensures_Fault [ensures_rules]: "a \<Longrightarrow> ensures a P Fault"
  by (simp add: ensures_def)

lemma ensures_if [ensures_rules]:
  "(b \<Longrightarrow> ensures a P m) \<Longrightarrow> (\<not> b \<Longrightarrow> ensures a P m') \<Longrightarrow> ensures a P (if b then m else m')"
  by simp

lemma ensures_option [ensures_rules]:
  "(x = None \<Longrightarrow> ensures a P m) \<Longrightarrow> (\<And>y. x = Some y \<Longrightarrow> ensures a P (f y))
    \<Longrightarrow> ensures a P (case x of None \<Rightarrow> m | Some y \<Rightarrow> f y)"
  by (cases x) simp_all

lemma ensures_prod [ensures_rules]:
  "ensures a P (f (fst x) (snd x)) \<Longrightarrow> ensures a P (case x of (y, z) \<Rightarrow> f y z)"
  by (cases x) simp

lemma ensures_and_then [ensures_rules]:
  "ensures a Q m \<Longrightarrow> (\<And>x. Q x \<Longrightarrow> ensures a P (f x)) \<Longrightarrow> ensures a P (and_then m f)"
  by (cases m) (simp_all add: ensures_def)

lemma ensures_weaken: "ensures a P m \<Longrightarrow> (\<And>x. P x \<Longrightarrow> Q x) \<Longrightarrow> ensures a Q m"
  by (cases m) (simp_all add: ensures_def)

lemma ensuresD: "ensures a P m \<Longrightarrow> m = Continue x \<Longrightarrow> P x"
  by (simp add: ensures_def)

lemma ensures_not_Fault: "ensures a P m \<Longrightarrow> \<not> a \<Longrightarrow> m \<noteq> Fault"
  by (auto simp: ensures_def)


section \<open>int and size_t\<close>

text \<open>
  \<open>int x = s\<close> for a \<open>size_t\<close> \<open>s\<close> keeps the low 32 bits; \<open>i < s\<close> with \<open>i\<close> an \<open>int\<close> converts \<open>i\<close> to
  \<open>size_t\<close>, which extends the sign; \<open>i -= s\<close> is computed at the width of \<open>size_t\<close> and converted back.
\<close>

definition int_of_size :: "u64 \<Rightarrow> i32" where
  "int_of_size s = ucast s"

definition size_of_int :: "i32 \<Rightarrow> u64" where
  "size_of_int i = scast i"

definition int_less_size :: "i32 \<Rightarrow> u64 \<Rightarrow> bool" where
  "int_less_size i s \<longleftrightarrow> size_of_int i < s"

definition int_less_int :: "i32 \<Rightarrow> int \<Rightarrow> bool" where
  "int_less_int i n \<longleftrightarrow> sint i < n"

definition int_minus_size :: "i32 \<Rightarrow> u64 \<Rightarrow> i32" where
  "int_minus_size i s = int_of_size (size_of_int i - s)"

lemma sint_of_nat_i32 [c_int_simps]:
  "m < 2 ^ 31 \<Longrightarrow> sint (of_nat m :: i32) = int m"
  by (simp add: sint_uint unat_of_nat signed_take_bit_int_eq_self uint_nat take_bit_nat_eq_self)

lemma size_of_int_of_nat [c_int_simps]:
  assumes "m < 2 ^ 31"
  shows "size_of_int (of_nat m) = of_nat m"
proof -
  have "sint (of_nat m :: i32) = int m"
    using assms by (rule sint_of_nat_i32)
  then show ?thesis
    by (simp add: size_of_int_def scast_eq)
qed

lemma int_of_size_of_nat [c_int_simps]:
  "int_of_size (of_nat m) = of_nat m"
  unfolding int_of_size_def by (rule bit_word_eqI) (simp add: bit_simps)

lemma int_less_int_of_nat [c_int_simps]:
  "m < 2 ^ 31 \<Longrightarrow> int_less_int (of_nat m) n \<longleftrightarrow> int m < n"
  by (simp add: int_less_int_def sint_of_nat_i32)

lemma int_less_size_of_nat [c_int_simps]:
  assumes "m < 2 ^ 31" and "n < 2 ^ 64"
  shows "int_less_size (of_nat m) (of_nat n) \<longleftrightarrow> m < n"
  using assms by (simp add: int_less_size_def size_of_int_of_nat word_less_nat_alt unat_of_nat
      take_bit_nat_eq_self)

lemma int_minus_size_of_nat [c_int_simps]:
  assumes "m < 2 ^ 31" and "n \<le> m"
  shows "int_minus_size (of_nat m) (of_nat n) = of_nat (m - n)"
  using assms by (simp add: int_minus_size_def size_of_int_of_nat int_of_size_of_nat flip: of_nat_diff)


lemma of_nat_u32_mod: "of_nat (n mod 2 ^ 32) = (of_nat n :: u32)"
  by (rule word_unat_eq_iff [THEN iffD2]) (simp add: unat_of_nat take_bit_eq_mod)

lemma int_of_size_unat: "int_of_size s = of_nat (unat s mod 2 ^ 32)"
proof -
  have "int_of_size s = int_of_size (of_nat (unat s))" by simp
  also have "\<dots> = of_nat (unat s)" by (rule int_of_size_of_nat)
  also have "\<dots> = of_nat (unat s mod 2 ^ 32)"
    by (rule of_nat_u32_mod [symmetric])
  finally show ?thesis .
qed

lemma sint_of_nat_i32_neg:
  assumes "2 ^ 31 \<le> m" "m < 2 ^ 32"
  shows "sint (of_nat m :: i32) < 0"
proof -
  have "m div 2 ^ 31 = 1" using assms by (simp add: div_nat_eqI)
  then have "bit m 31" by (simp add: bit_iff_odd)
  then have "bit (of_nat m :: i32) (LENGTH(32) - Suc 0)"
    by (simp add: bit_simps)
  then show ?thesis by (simp only: bit_last_iff)
qed

text \<open>
  A counter \<open>int n = s\<close> either counts no more than \<open>s\<close>, and exactly \<open>s\<close> below two gigabytes, or it is
  negative.
\<close>

lemma int_of_size_cases:
  obtains (nonneg) m where "int_of_size s = of_nat m" "m < 2 ^ 31" "m \<le> unat s"
      "unat s < 2 ^ 31 \<longrightarrow> m = unat s"
    | (negative) "sint (int_of_size s) < 0" "2 ^ 31 \<le> unat s"
proof (cases "unat s mod 2 ^ 32 < 2 ^ 31")
  case True
  then show ?thesis
    by (intro nonneg [of "unat s mod 2 ^ 32"]) (auto simp: int_of_size_unat)
next
  case False
  moreover have "unat s mod 2 ^ 32 \<le> unat s" "unat s mod 2 ^ 32 < 2 ^ 32" by simp_all
  ultimately show ?thesis
    by (intro negative) (simp_all only: int_of_size_unat sint_of_nat_i32_neg not_less)
qed
lemma i32_decrement [c_int_simps]:
  "0 < m \<Longrightarrow> (of_nat m :: i32) - 1 = of_nat (m - 1)"
  by (cases m) simp_all


section \<open>Byte buffers\<close>

text \<open>
  Reading \<open>n\<close> bytes at offset \<open>off\<close> of an object is defined when the object has them.
\<close>

definition rd :: "bytes \<Rightarrow> nat \<Rightarrow> nat \<Rightarrow> bytes option" where
  "rd buf off n = (if off + n \<le> length buf then Some (take n (drop off buf)) else None)"

definition rd8 :: "bytes \<Rightarrow> nat \<Rightarrow> u8 option" where
  "rd8 buf off = (if off < length buf then Some (buf ! off) else None)"

lemma rd_eq_Some_iff [rd_simps]:
  "rd buf off n = Some bs \<longleftrightarrow> off + n \<le> length buf \<and> bs = take n (drop off buf)"
  by (auto simp: rd_def)

lemma rd_ok [rd_simps]:
  "off + n \<le> length buf \<Longrightarrow> rd buf off n = Some (take n (drop off buf))"
  by (simp add: rd_def)

lemma rd8_ok [rd_simps]:
  "off < length buf \<Longrightarrow> rd8 buf off = Some (buf ! off)"
  by (simp add: rd8_def)

lemma length_rd: "rd buf off n = Some bs \<Longrightarrow> length bs = n"
  by (auto simp: rd_eq_Some_iff)

lemma rd_append_left [rd_simps]:
  "off + n \<le> length xs \<Longrightarrow> rd (xs @ ys) off n = rd xs off n"
  by (simp add: rd_def)


section \<open>Multi-byte fields\<close>

text \<open>
  A \<open>uint16_t\<close> or \<open>uint32_t\<close> field of a packed struct is read from the bytes at its address in the
  host's order, here least significant byte first. \<open>ntohs\<close> and \<open>htons\<close> swap the two bytes.
\<close>

definition le16 :: "u8 \<Rightarrow> u8 \<Rightarrow> u16" where
  "le16 b0 b1 = ucast b0 OR push_bit 8 (ucast b1)"

definition le16_bytes :: "u16 \<Rightarrow> bytes" where
  "le16_bytes w = [ucast w, ucast (drop_bit 8 w)]"

definition le32 :: "u8 \<Rightarrow> u8 \<Rightarrow> u8 \<Rightarrow> u8 \<Rightarrow> u32" where
  "le32 b0 b1 b2 b3 = ucast b0 OR push_bit 8 (ucast b1) OR push_bit 16 (ucast b2) OR push_bit 24 (ucast b3)"

definition le32_bytes :: "u32 \<Rightarrow> bytes" where
  "le32_bytes w = [ucast w, ucast (drop_bit 8 w), ucast (drop_bit 16 w), ucast (drop_bit 24 w)]"

definition htons :: "u16 \<Rightarrow> u16" where
  "htons w = push_bit 8 w OR drop_bit 8 w"

definition ntohs :: "u16 \<Rightarrow> u16" where
  "ntohs w = push_bit 8 w OR drop_bit 8 w"

definition u16_at :: "bytes \<Rightarrow> nat \<Rightarrow> u16" where
  "u16_at bs i = le16 (bs ! i) (bs ! (i + 1))"

definition u32_at :: "bytes \<Rightarrow> nat \<Rightarrow> u32" where
  "u32_at bs i = le32 (bs ! i) (bs ! (i + 1)) (bs ! (i + 2)) (bs ! (i + 3))"

lemma length_le16_bytes [simp]: "length (le16_bytes w) = 2"
  by (simp add: le16_bytes_def)

lemma length_le32_bytes [simp]: "length (le32_bytes w) = 4"
  by (simp add: le32_bytes_def)

lemma ntohs_htons [simp]: "ntohs (htons w) = w"
  unfolding ntohs_def htons_def
  by (rule bit_word_eqI) (auto simp: bit_simps)

lemma le16_of_bytes [simp]: "le16 (ucast w) (ucast (drop_bit 8 w)) = w"
  unfolding le16_def by (rule bit_word_eqI) (auto simp: bit_simps)

lemma bit_u8_high:
  "\<not> bit (b :: u8) (8 + n)" "\<not> bit (b :: u8) (16 + n)" "\<not> bit (b :: u8) (24 + n)"
  using bit_imp_le_length [of b "8 + n"] bit_imp_le_length [of b "16 + n"]
    bit_imp_le_length [of b "24 + n"] by auto

lemma le16_bytes_of [simp]: "le16_bytes (le16 b0 b1) = [b0, b1]"
  unfolding le16_bytes_def le16_def
  by (auto intro!: bit_word_eqI simp: bit_simps bit_u8_high)

lemma le32_of_bytes [simp]:
  "le32 (ucast w) (ucast (drop_bit 8 w)) (ucast (drop_bit 16 w)) (ucast (drop_bit 24 w)) = w"
proof (rule bit_word_eqI)
  fix n
  assume "n < LENGTH(32)"
  then consider "n < 8" | "8 \<le> n" "n < 16" | "16 \<le> n" "n < 24" | "24 \<le> n" "n < 32"
    by fastforce
  then show "bit (le32 (ucast w) (ucast (drop_bit 8 w)) (ucast (drop_bit 16 w))
      (ucast (drop_bit 24 w))) n = bit w n"
    unfolding le32_def by cases (auto simp: bit_simps)
qed

lemma le32_bytes_of [simp]: "le32_bytes (le32 b0 b1 b2 b3) = [b0, b1, b2, b3]"
  unfolding le32_bytes_def le32_def
  by (auto intro!: bit_word_eqI simp: bit_simps bit_u8_high)

lemma ntohs_le16: "ntohs (le16 a b) = le16 b a"
proof (rule bit_word_eqI)
  fix n
  assume "n < LENGTH(16)"
  then consider "n < 8" | "8 \<le> n" "n < 16" by fastforce
  then show "bit (ntohs (le16 a b)) n = bit (le16 b a) n"
    unfolding ntohs_def le16_def by cases (auto simp: bit_simps bit_u8_high dest: bit_imp_le_length)
qed

lemma unat_u8_less: "unat (b :: u8) < 256"
proof -
  have "(unat b :: nat) < 2 ^ LENGTH(8)" by (rule unsigned_less)
  then show ?thesis by simp
qed

lemma unat_le16: "unat (le16 lo hi) = unat lo + 256 * unat hi"
proof -
  have "le16 lo hi = ucast lo + push_bit 8 (ucast hi)"
    unfolding le16_def by (rule disjunctive_add [symmetric]) (auto simp: bit_simps dest: bit_imp_le_length)
  also have "\<dots> = of_nat (unat lo + 256 * unat hi)"
    by (simp add: push_bit_eq_mult)
  finally have "unat (le16 lo hi) = unat (of_nat (unat lo + 256 * unat hi) :: u16)" by simp
  also have "\<dots> = unat lo + 256 * unat hi"
    using unat_u8_less [of lo] unat_u8_less [of hi] by (simp add: unat_of_nat take_bit_nat_eq_self del: of_nat_add of_nat_mult)
  finally show ?thesis .
qed
lemma le16_inject [simp]: "le16 a b = le16 c d \<longleftrightarrow> a = c \<and> b = d"
  by (metis le16_bytes_of list.inject)

lemma unat_word_less_2:
  assumes "unat (w :: u64) < 2"
  shows "w = 0 \<or> w = 1"
  using assms word_unat_eq_iff [of w 0] word_unat_eq_iff [of w 1] less_2_cases [of "unat w"] 
  by (simp only: unsigned_0 unsigned_1 One_nat_def) 


lemma u16_less_4:
  assumes "(w :: u16) < 4"
  shows "w = 0 \<or> w = 1 \<or> w = 2 \<or> w = 3"
proof -
  have "unat w < 4"
    using assms by (simp add: word_less_nat_alt)
  then have "unat w \<in> {0, 1, 2, 3}" by auto
  then have "(of_nat (unat w) :: u16) \<in> of_nat ` {0, 1, 2, 3}" by (rule imageI)
  then show ?thesis by simp
qed

end
