(* ===== verification/C_Text.thy ===== *)
theory C_Text
  imports C_Prelude
begin

text \<open>
  The parts of the C library that the programs use on text: POSIX extended regular expressions as far as
  the two patterns of \<^verbatim>\<open>src/helper.c\<close> need them (bracket expressions, concatenation, \<open>{n}\<close>, both
  anchors), \<open>sscanf\<close> with \<open>%x\<close>, \<open>%d\<close> and literal characters, \<open>strtoul\<close>, \<open>strncpy\<close>, and the \<open>printf\<close>
  conversions \<open>%02x\<close>, \<open>%u\<close>, \<open>%d\<close> and \<open>%lu\<close>. A C string is the list of its characters before the
  terminating null.
\<close>

section \<open>Regular expressions\<close>

datatype ere = Bracket "(char \<times> char) list" | Concat ere ere | Repeat ere nat

abbreviation char_code :: "char \<Rightarrow> nat" where
  "char_code c \<equiv> of_char c"

definition in_range :: "char \<Rightarrow> char \<times> char \<Rightarrow> bool" where
  "in_range c r \<longleftrightarrow> char_code (fst r) \<le> char_code c \<and> char_code c \<le> char_code (snd r)"

text \<open>All remainders after a match at the start of the string.\<close>

primrec ere_match :: "ere \<Rightarrow> string \<Rightarrow> string list" where
  "ere_match (Bracket rs) s =
     (case s of [] \<Rightarrow> [] | c # s' \<Rightarrow> if list_ex (in_range c) rs then [s'] else [])"
| "ere_match (Concat a b) s = concat (map (ere_match b) (ere_match a s))"
| "ere_match (Repeat a n) s = ((\<lambda>ss. concat (map (ere_match a) ss)) ^^ n) [s]"

text \<open>\<open>regexec\<close> on a pattern \<open>^r$\<close>: the whole string matches.\<close>

definition regexec_anchored :: "ere \<Rightarrow> string \<Rightarrow> bool" where
  "regexec_anchored r s \<longleftrightarrow> [] \<in> set (ere_match r s)"

text \<open>The language of an expression, and the correctness of the matcher.\<close>

inductive ere_lang :: "ere \<Rightarrow> string \<Rightarrow> bool" where
  lang_bracket: "r \<in> set rs \<Longrightarrow> in_range c r \<Longrightarrow> ere_lang (Bracket rs) [c]"
| lang_concat: "ere_lang a s \<Longrightarrow> ere_lang b t \<Longrightarrow> ere_lang (Concat a b) (s @ t)"
| lang_repeat_0: "ere_lang (Repeat a 0) []"
| lang_repeat_Suc: "ere_lang a s \<Longrightarrow> ere_lang (Repeat a n) t \<Longrightarrow> ere_lang (Repeat a (Suc n)) (s @ t)"

inductive_cases lang_bracketE: "ere_lang (Bracket rs) s"
inductive_cases lang_concatE: "ere_lang (Concat a b) s"
inductive_cases lang_repeat_0E: "ere_lang (Repeat a 0) s"
inductive_cases lang_repeat_SucE: "ere_lang (Repeat a (Suc n)) s"

lemma concat_map_funpow:
  fixes f :: "'a \<Rightarrow> 'a list"
  defines "F \<equiv> \<lambda>n. (\<lambda>ss. concat (map f ss)) ^^ n"
  shows "F n ss = concat (map (\<lambda>t. F n [t]) ss)"
proof -
  have nil: "F n [] = []" for n
    by (induction n) (simp_all add: F_def)
  have append: "F n (ss @ ts) = F n ss @ F n ts" for n ss ts
    by (induction n) (simp_all add: F_def)
  show ?thesis
  proof (induction ss)
    case Nil
    then show ?case by (simp add: nil)
  next
    case (Cons t ss)
    then show ?case using append [of n "[t]" ss] by simp
  qed
qed

lemma ere_match_repeat_Suc:
  "ere_match (Repeat a (Suc n)) s = concat (map (ere_match (Repeat a n)) (ere_match a s))"
proof -
  have "ere_match (Repeat a n) = (\<lambda>t. ((\<lambda>ss. concat (map (ere_match a) ss)) ^^ n) [t])"
    by (rule ext) simp
  then show ?thesis
    using concat_map_funpow [of n "ere_match a" "ere_match a s"]
    by (simp add: funpow_Suc_right del: funpow.simps)
qed

declare ere_match.simps(3) [simp del]

lemma ere_match_repeat_0 [simp]: "ere_match (Repeat a 0) s = [s]"
  by (simp add: ere_match.simps(3))

lemma ere_match_correct: "rest \<in> set (ere_match r s) \<longleftrightarrow> (\<exists>p. ere_lang r p \<and> s = p @ rest)"
proof (induction r arbitrary: s rest)
  case (Bracket rs)
  then show ?case
    by (auto simp: list_ex_iff split: list.splits if_splits elim!: lang_bracketE)
      (auto intro: lang_bracket)
next
  case (Concat a b)
  then show ?case
    by (auto elim!: lang_concatE) (metis append_assoc lang_concat)+
next
  case (Repeat a n)
  show ?case
  proof (induction n arbitrary: s rest)
    case 0
    then show ?case by (auto elim: lang_repeat_0E intro: lang_repeat_0)
  next
    case (Suc n)
    show ?case
      by (auto simp: ere_match_repeat_Suc Repeat Suc elim!: lang_repeat_SucE)
        (metis append_assoc lang_repeat_Suc)+
  qed
qed

lemma regexec_anchored_correct: "regexec_anchored r s \<longleftrightarrow> ere_lang r s"
  by (simp add: regexec_anchored_def ere_match_correct)


section \<open>Digits\<close>

definition is_hex_digit :: "char \<Rightarrow> bool" where
  "is_hex_digit c \<longleftrightarrow> in_range c (CHR ''0'', CHR ''9'') \<or> in_range c (CHR ''A'', CHR ''F'')
     \<or> in_range c (CHR ''a'', CHR ''f'')"

definition digit_val :: "char \<Rightarrow> nat" where
  "digit_val c =
    (if in_range c (CHR ''0'', CHR ''9'') then char_code c - char_code CHR ''0''
     else if in_range c (CHR ''A'', CHR ''F'') then char_code c - char_code CHR ''A'' + 10
     else char_code c - char_code CHR ''a'' + 10)"

definition is_digit :: "nat \<Rightarrow> char \<Rightarrow> bool" where
  "is_digit base c \<longleftrightarrow> is_hex_digit c \<and> digit_val c < base"

definition number :: "nat \<Rightarrow> string \<Rightarrow> nat" where
  "number base ds = foldl (\<lambda>v c. base * v + digit_val c) 0 ds"

definition hex_digit_char :: "nat \<Rightarrow> char" where
  "hex_digit_char n = ''0123456789abcdef'' ! n"

lemma digit_val_less: "is_hex_digit c \<Longrightarrow> digit_val c < 16"
  by (auto simp: is_hex_digit_def digit_val_def in_range_def)

lemma less_16_cases:
  "n < (16::nat) \<Longrightarrow> n \<in> {0, 1, 2, 3, 4, 5, 6, 7, 8, 9, 10, 11, 12, 13, 14, 15}"
  unfolding insert_iff empty_iff by arith

lemma hex_digit_char:
  assumes "n < 16"
  shows "is_hex_digit (hex_digit_char n)" and "digit_val (hex_digit_char n) = n"
  using less_16_cases [OF assms]
  by (auto simp: hex_digit_char_def is_hex_digit_def digit_val_def in_range_def)

lemma is_digit_16 [simp]: "is_digit 16 = is_hex_digit"
  by (rule ext) (auto simp: is_digit_def digit_val_less)


section \<open>sscanf and strtoul\<close>

definition is_space :: "char \<Rightarrow> bool" where
  "is_space c \<longleftrightarrow> c = CHR '' '' \<or> in_range c (CHR 0x09, CHR 0x0D)"

definition take_sign :: "string \<Rightarrow> bool \<times> string" where
  "take_sign s = (case s of [] \<Rightarrow> (False, [])
     | c # s' \<Rightarrow> if c = CHR ''-'' then (True, s') else if c = CHR ''+'' then (False, s') else (False, s))"

definition skip_0x :: "string \<Rightarrow> string" where
  "skip_0x s = (case s of z # x # d # s' \<Rightarrow>
       if z = CHR ''0'' \<and> (x = CHR ''x'' \<or> x = CHR ''X'') \<and> is_hex_digit d then d # s' else s
     | _ \<Rightarrow> s)"

text \<open>
  The text of a number: white space, a sign, the prefix \<open>0x\<close> for base 16, digits. The result is the sign,
  the magnitude and the rest of the input; \<^term>\<open>None\<close> is a matching failure.
\<close>

definition scan_number :: "nat \<Rightarrow> string \<Rightarrow> (bool \<times> nat \<times> string) option" where
  "scan_number base s =
    (let (neg, s) = take_sign (dropWhile is_space s);
         s = (if base = 16 then skip_0x s else s);
         ds = takeWhile (is_digit base) s
     in if ds = [] then None else Some (neg, number base ds, dropWhile (is_digit base) s))"

text \<open>
  The values are those of \<open>strtoul\<close> and \<open>strtol\<close>, which saturate at the bounds of \<open>long\<close>, stored to an
  \<open>unsigned int\<close> or an \<open>int\<close>.
\<close>

definition unsigned_value :: "bool \<Rightarrow> nat \<Rightarrow> u64" where
  "unsigned_value neg n =
    (if 2 ^ 64 \<le> n then - 1 else if neg then - of_nat n else of_nat n)"

definition signed_value :: "bool \<Rightarrow> nat \<Rightarrow> int" where
  "signed_value neg n = (if neg then max (- (2 ^ 63)) (- int n) else min (2 ^ 63 - 1) (int n))"

definition scan_x :: "string \<Rightarrow> (u32 \<times> string) option" where
  "scan_x s = map_option (\<lambda>(neg, n, rest). (ucast (unsigned_value neg n), rest)) (scan_number 16 s)"

definition scan_d :: "string \<Rightarrow> (i32 \<times> string) option" where
  "scan_d s = map_option (\<lambda>(neg, n, rest). (word_of_int (signed_value neg n), rest)) (scan_number 10 s)"

text \<open>Whether \<open>%d\<close> leaves \<open>errno\<close> at \<open>ERANGE\<close>, as \<open>strtol\<close> does on a value out of range.\<close>

definition scan_d_range :: "string \<Rightarrow> bool" where
  "scan_d_range s =
    (case scan_number 10 s of None \<Rightarrow> False
     | Some (neg, n, rest) \<Rightarrow> if neg then 2 ^ 63 < n else 2 ^ 63 \<le> n)"

datatype scanf_item = Scan_x | Scan_char char

text \<open>The values converted by \<open>sscanf\<close> up to the first failure; their number is its return value.\<close>

fun sscanf :: "scanf_item list \<Rightarrow> string \<Rightarrow> u32 list" where
  "sscanf [] s = []"
| "sscanf (Scan_x # fmt) s = (case scan_x s of None \<Rightarrow> [] | Some (v, rest) \<Rightarrow> v # sscanf fmt rest)"
| "sscanf (Scan_char c # fmt) s =
     (case s of [] \<Rightarrow> [] | c' # rest \<Rightarrow> if c' = c then sscanf fmt rest else [])"

text \<open>\<open>strtoul(s, &end, base)\<close>: the value, the text at \<open>end\<close> and whether \<open>errno\<close> is set to \<open>ERANGE\<close>.\<close>

definition strtoul :: "nat \<Rightarrow> string \<Rightarrow> u64 \<times> string \<times> bool" where
  "strtoul base s =
    (case scan_number base s of None \<Rightarrow> (0, s, False)
     | Some (neg, n, rest) \<Rightarrow> (unsigned_value neg n, rest, 2 ^ 64 \<le> n))"


section \<open>printf\<close>

definition print_02x :: "u8 \<Rightarrow> string" where
  "print_02x b = [hex_digit_char (unat b div 16), hex_digit_char (unat b mod 16)]"

fun print_dec :: "nat \<Rightarrow> string" where
  "print_dec n = (if n < 10 then [hex_digit_char n]
     else print_dec (n div 10) @ [hex_digit_char (n mod 10)])"

declare print_dec.simps [simp del]

definition join_colon :: "string list \<Rightarrow> string" where
  "join_colon ss = (case ss of [] \<Rightarrow> [] | s # ss \<Rightarrow> s @ concat (map ((#) CHR '':'') ss))"

text \<open>\<open>"%02x:%02x: ... :%02x"\<close> on the bytes of an address or network identifier.\<close>

definition print_address :: "bytes \<Rightarrow> string" where
  "print_address bs = join_colon (map print_02x bs)"

lemma number_snoc: "number base (ds @ [c]) = base * number base ds + digit_val c"
  by (simp add: number_def)

lemma number_print_dec: "number 10 (print_dec n) = n"
proof (induction n rule: print_dec.induct)
  case (1 n)
  then show ?case
    by (subst print_dec.simps) (auto simp: number_snoc number_def hex_digit_char)
qed

lemma print_dec_digits: "list_all (is_digit 10) (print_dec n) \<and> print_dec n \<noteq> []"
proof (induction n rule: print_dec.induct)
  case (1 n)
  then show ?case
    by (cases "n < 10") (auto simp: print_dec.simps [of n] is_digit_def hex_digit_char
        simp del: is_digit_16)
qed


section \<open>strncpy\<close>

text \<open>
  \<open>strncpy(dst, src, n)\<close> with \<open>dst\<close> an array of \<open>n\<close> characters: at most \<open>n\<close> characters are copied, the rest
  is filled with null characters.
\<close>

definition strncpy :: "string \<Rightarrow> nat \<Rightarrow> string" where
  "strncpy src n = take n src @ replicate (n - length src) (CHR 0x00)"

lemma length_strncpy [simp]: "length (strncpy src n) = n"
  by (simp add: strncpy_def)

end
