(* ===== verification/Helper.thy ===== *)
theory Helper
  imports C_Text
begin

text \<open>
  \<^verbatim>\<open>src/helper.c\<close>: reading a MAC address and a network identifier from text. Both functions check the text
  with a regular expression and then convert it with \<open>sscanf\<close>. \<open>regcomp\<close> can fail for lack of memory, so
  its success is an argument; the destination array is given and returned.

  The locale \<open>address_parser\<close> is what the option parsers of the programs rely on; it is interpreted on
  \<open>hpav_parse_mac\<close> and \<open>hpav_parse_nid\<close>.
\<close>

section \<open>The functions\<close>

definition ere_hex :: ere where
  "ere_hex = Bracket [(CHR ''0'', CHR ''9''), (CHR ''A'', CHR ''F''), (CHR ''a'', CHR ''f'')]"

definition ere_colon :: ere where
  "ere_colon = Bracket [(CHR '':'', CHR '':'')]"

text \<open>\<open>^([0-9A-Fa-f]{2}[:]{1}){5}[0-9A-Fa-f]{2}$\<close>\<close>

definition mac_pattern :: ere where
  "mac_pattern = Concat (Repeat (Concat (Repeat ere_hex 2) (Repeat ere_colon 1)) 5) (Repeat ere_hex 2)"

text \<open>\<open>^([0-9A-Fa-f]{2}[:]{1}){6}[0-9A-Fa-f]{2}$\<close>\<close>

definition nid_pattern :: ere where
  "nid_pattern = Concat (Repeat (Concat (Repeat ere_hex 2) (Repeat ere_colon 1)) 6) (Repeat ere_hex 2)"

text \<open>\<open>"%x:%x:%x:%x:%x:%x"\<close> and \<open>"%x:%x:%x:%x:%x:%x:%x"\<close>\<close>

definition mac_format :: "scanf_item list" where
  "mac_format = [Scan_x, Scan_char CHR '':'', Scan_x, Scan_char CHR '':'', Scan_x, Scan_char CHR '':'',
     Scan_x, Scan_char CHR '':'', Scan_x, Scan_char CHR '':'', Scan_x]"

definition nid_format :: "scanf_item list" where
  "nid_format = [Scan_x, Scan_char CHR '':'', Scan_x, Scan_char CHR '':'', Scan_x, Scan_char CHR '':'',
     Scan_x, Scan_char CHR '':'', Scan_x, Scan_char CHR '':'', Scan_x, Scan_char CHR '':'', Scan_x]"

definition hpav_parse_mac :: "bool \<Rightarrow> bytes \<Rightarrow> string option \<Rightarrow> int \<times> bytes" where
  "hpav_parse_mac regcomp_ok dst mac_str =
    (case mac_str of
       None \<Rightarrow> (EXIT_FAILURE, dst)
     | Some mac_str \<Rightarrow>
         if \<not> regcomp_ok then (- EINVAL, dst)
         else if \<not> regexec_anchored mac_pattern mac_str then (- EINVAL, dst)
         else
           let ins = sscanf mac_format mac_str
           in if length ins \<noteq> 6 then (EXIT_FAILURE, dst)
              else (EXIT_SUCCESS, dst[0 := ucast (ins ! 0), 1 := ucast (ins ! 1), 2 := ucast (ins ! 2),
                      3 := ucast (ins ! 3), 4 := ucast (ins ! 4), 5 := ucast (ins ! 5)]))"

definition hpav_parse_nid :: "bool \<Rightarrow> bytes \<Rightarrow> string option \<Rightarrow> int \<times> bytes" where
  "hpav_parse_nid regcomp_ok nid nid_str =
    (case nid_str of
       None \<Rightarrow> (EXIT_FAILURE, nid)
     | Some nid_str \<Rightarrow>
         if \<not> regcomp_ok then (- EINVAL, nid)
         else if \<not> regexec_anchored nid_pattern nid_str then (- EINVAL, nid)
         else
           let ins = sscanf nid_format nid_str
           in if length ins \<noteq> 7 then (EXIT_FAILURE, nid)
              else (EXIT_SUCCESS, nid[0 := ucast (ins ! 0), 1 := ucast (ins ! 1), 2 := ucast (ins ! 2),
                      3 := ucast (ins ! 3), 4 := ucast (ins ! 4), 5 := ucast (ins ! 5),
                      6 := ucast (ins ! 6)]))"


section \<open>What an address looks like\<close>

text \<open>The bytes spelled by \<open>n + 1\<close> groups of two hexadecimal digits with a colon between them.\<close>

definition hex_pair :: "char \<Rightarrow> char \<Rightarrow> u8" where
  "hex_pair h l = of_nat (16 * digit_val h + digit_val l)"

fun spelled :: "nat \<Rightarrow> string \<Rightarrow> bytes option" where
  "spelled 0 s = (case s of [h, l] \<Rightarrow>
       if is_hex_digit h \<and> is_hex_digit l then Some [hex_pair h l] else None | _ \<Rightarrow> None)"
| "spelled (Suc n) s = (case s of h # l # c # s' \<Rightarrow>
       if is_hex_digit h \<and> is_hex_digit l \<and> c = CHR '':''
       then map_option ((#) (hex_pair h l)) (spelled n s') else None
     | _ \<Rightarrow> None)"

fun group_format :: "nat \<Rightarrow> scanf_item list" where
  "group_format 0 = [Scan_x]"
| "group_format (Suc n) = Scan_x # Scan_char CHR '':'' # group_format n"

definition ere_group :: ere where
  "ere_group = Concat (Repeat ere_hex 2) (Repeat ere_colon 1)"

definition group_pattern :: "nat \<Rightarrow> ere" where
  "group_pattern n = Concat (Repeat ere_group n) (Repeat ere_hex 2)"

lemma formats: "mac_format = group_format 5" "nid_format = group_format 6"
  by (simp_all add: mac_format_def nid_format_def eval_nat_numeral)

lemma patterns: "mac_pattern = group_pattern 5" "nid_pattern = group_pattern 6"
  by (simp_all add: mac_pattern_def nid_pattern_def group_pattern_def ere_group_def)

lemma length_spelled: "spelled n s = Some bs \<Longrightarrow> length bs = Suc n"
  by (induction n arbitrary: s bs) (auto split: list.splits if_splits)

lemma list_ex_hex: "list_ex (in_range c) [(CHR ''0'', CHR ''9''), (CHR ''A'', CHR ''F''),
    (CHR ''a'', CHR ''f'')] = is_hex_digit c"
  by (simp add: is_hex_digit_def)

lemma ere_hex_match:
  "ere_match ere_hex s = (case s of [] \<Rightarrow> [] | c # s' \<Rightarrow> if is_hex_digit c then [s'] else [])"
  by (simp add: ere_hex_def is_hex_digit_def split: list.split)

lemma ere_hex2_match:
  "ere_match (Repeat ere_hex 2) s =
    (case s of h # l # s' \<Rightarrow> if is_hex_digit h \<and> is_hex_digit l then [s'] else [] | _ \<Rightarrow> [])"
  by (auto simp: numeral_2_eq_2 ere_match_repeat_Suc ere_hex_match split: list.splits)

lemma in_range_single: "in_range c (d, d) \<longleftrightarrow> c = d"
  using of_char_eq_iff [of c d, where ?'a = nat] by (auto simp: in_range_def)

lemma ere_colon_match:
  "ere_match (Repeat ere_colon (Suc 0)) s =
    (case s of [] \<Rightarrow> [] | c # s' \<Rightarrow> if c = CHR '':'' then [s'] else [])"
  by (auto simp: ere_colon_def in_range_single ere_match_repeat_Suc split: list.splits)

lemma ere_group_match:
  "ere_match ere_group s =
    (case s of h # l # c # s' \<Rightarrow>
       if is_hex_digit h \<and> is_hex_digit l \<and> c = CHR '':'' then [s'] else [] | _ \<Rightarrow> [])"
  by (auto simp: ere_group_def ere_hex2_match ere_colon_match split: list.splits)

lemma group_pattern_match:
  "regexec_anchored (group_pattern n) s \<longleftrightarrow> spelled n s \<noteq> None"
proof (induction n arbitrary: s)
  case 0
  then show ?case
    by (auto simp: regexec_anchored_def group_pattern_def ere_hex2_match split: list.splits)
next
  case (Suc n)
  have "regexec_anchored (group_pattern (Suc n)) s \<longleftrightarrow>
    (\<exists>s'. s' \<in> set (ere_match ere_group s) \<and> regexec_anchored (group_pattern n) s')"
    by (auto simp: regexec_anchored_def group_pattern_def ere_match_repeat_Suc)
  then show ?case
    using Suc by (auto simp: ere_group_match split: list.splits)
qed


section \<open>The conversions\<close>

lemma hex_digit_not_space: "is_hex_digit c \<Longrightarrow> \<not> is_space c"
  by (auto simp: is_hex_digit_def is_space_def in_range_def)

lemma hex_digit_not_char:
  "is_hex_digit c \<Longrightarrow> c \<noteq> CHR ''-'' \<and> c \<noteq> CHR ''+'' \<and> c \<noteq> CHR ''x'' \<and> c \<noteq> CHR ''X'' \<and> c \<noteq> CHR '':''"
  by (auto simp: is_hex_digit_def in_range_def)

lemma colon_not_hex: "\<not> is_hex_digit CHR '':''"
  using hex_digit_not_char by blast

lemma ucast_of_nat_down:
  "LENGTH('b::len) \<le> LENGTH('a::len) \<Longrightarrow> ucast (of_nat n :: 'a word) = (of_nat n :: 'b word)"
  by (rule bit_word_eqI) (simp add: bit_simps)

lemma scan_x_pair:
  assumes "is_hex_digit h" "is_hex_digit l" "rest = [] \<or> \<not> is_hex_digit (hd rest)"
  shows "scan_x (h # l # rest) = Some (of_nat (16 * digit_val h + digit_val l), rest)"
proof -
  define v where "v = 16 * digit_val h + digit_val l"
  have "v < 2 ^ 64"
    using digit_val_less [OF assms(1)] digit_val_less [OF assms(2)] by (simp add: v_def)
  then have stored: "ucast (unsigned_value False v) = (of_nat v :: u32)"
    by (simp add: unsigned_value_def ucast_of_nat_down)
  have skip: "skip_0x (h # l # rest) = h # l # rest"
    using hex_digit_not_char [OF assms(2)] by (auto simp: skip_0x_def split: list.split)
  have digits: "takeWhile is_hex_digit rest = []" "dropWhile is_hex_digit rest = rest"
    using assms(3) by (cases rest; simp)+
  have number: "number 16 [h, l] = v"
    by (simp add: number_def v_def)
  have "scan_number 16 (h # l # rest) = Some (False, v, rest)"
    using assms hex_digit_not_char [OF assms(1)]
    by (simp add: scan_number_def hex_digit_not_space take_sign_def skip digits number)
  then show ?thesis
    by (simp add: scan_x_def stored flip: v_def)
qed

lemma sscanf_groups:
  "spelled n s = Some bs \<Longrightarrow> map ucast (sscanf (group_format n) s) = bs"
proof (induction n arbitrary: s bs)
  case 0
  then show ?case
    by (auto simp: scan_x_pair hex_pair_def ucast_of_nat_down simp del: of_nat_add of_nat_mult
        split: list.splits if_splits)
next
  case (Suc n)
  then show ?case
    by (auto simp: scan_x_pair colon_not_hex hex_pair_def ucast_of_nat_down
        simp del: of_nat_add of_nat_mult split: list.splits if_splits)
qed


section \<open>The interface of the option parsers\<close>

text \<open>
  A function that fills an array of \<open>n + 1\<close> bytes from text: text that spells the bytes is converted,
  other text is rejected with \<open>-EINVAL\<close> and leaves the array alone.
\<close>

locale address_parser =
  fixes parse :: "bytes \<Rightarrow> string option \<Rightarrow> int \<times> bytes" and n :: nat
  assumes parse_null: "parse dst None = (EXIT_FAILURE, dst)"
    and parse_text: "length dst = Suc n \<Longrightarrow>
      parse dst (Some s) = (case spelled n s of None \<Rightarrow> (- EINVAL, dst) | Some bs \<Rightarrow> (EXIT_SUCCESS, bs))"
begin

lemma parse_success_iff:
  "length dst = Suc n \<Longrightarrow>
   parse dst s = (EXIT_SUCCESS, bs) \<longleftrightarrow> (\<exists>t. s = Some t \<and> spelled n t = Some bs)"
  by (cases s) (auto simp: parse_null parse_text exit_code_defs split: option.splits)

lemma parse_failure:
  "length dst = Suc n \<Longrightarrow> fst (parse dst s) \<noteq> EXIT_SUCCESS \<Longrightarrow> snd (parse dst s) = dst"
  by (cases s) (auto simp: parse_null parse_text exit_code_defs split: option.splits)

lemma parse_length: "length dst = Suc n \<Longrightarrow> length (snd (parse dst s)) = Suc n"
  by (cases s) (auto simp: parse_null parse_text length_spelled split: option.splits)

end

lemma list_update_all:
  "length dst = 6 \<Longrightarrow> dst[0 := a, 1 := b, 2 := c, 3 := d, 4 := e, 5 := f] = [a, b, c, d, e, f]"
  "length nid = 7 \<Longrightarrow>
    nid[0 := a, 1 := b, 2 := c, 3 := d, 4 := e, 5 := f, 6 := g] = [a, b, c, d, e, f, g]"
  by (auto simp: eval_nat_numeral length_Suc_conv)

lemma map_all_nth:
  "length xs = 6 \<Longrightarrow> [f (xs ! 0), f (xs ! 1), f (xs ! 2), f (xs ! 3), f (xs ! 4), f (xs ! 5)] = map f xs"
  "length ys = 7 \<Longrightarrow> [f (ys ! 0), f (ys ! 1), f (ys ! 2), f (ys ! 3), f (ys ! 4), f (ys ! 5), f (ys ! 6)]
     = map f ys"
  by (auto simp: eval_nat_numeral length_Suc_conv)

interpretation mac: address_parser "hpav_parse_mac True" 5
proof
  fix dst :: bytes and s
  show "hpav_parse_mac True dst None = (EXIT_FAILURE, dst)"
    by (simp add: hpav_parse_mac_def)
  assume "length dst = Suc 5"
  then show "hpav_parse_mac True dst (Some s) =
    (case spelled 5 s of None \<Rightarrow> (- EINVAL, dst) | Some bs \<Rightarrow> (EXIT_SUCCESS, bs))"
    using sscanf_groups [of 5 s] length_spelled [of 5 s]
    by (auto simp: hpav_parse_mac_def patterns formats group_pattern_match list_update_all
        map_all_nth Let_def simp flip: One_nat_def dest!: arg_cong [where f = length]
        split: option.split)
qed

interpretation nid: address_parser "hpav_parse_nid True" 6
proof
  fix nid :: bytes and s
  show "hpav_parse_nid True nid None = (EXIT_FAILURE, nid)"
    by (simp add: hpav_parse_nid_def)
  assume "length nid = Suc 6"
  then show "hpav_parse_nid True nid (Some s) =
    (case spelled 6 s of None \<Rightarrow> (- EINVAL, nid) | Some bs \<Rightarrow> (EXIT_SUCCESS, bs))"
    using sscanf_groups [of 6 s] length_spelled [of 6 s]
    by (auto simp: hpav_parse_nid_def patterns formats group_pattern_match list_update_all
        map_all_nth Let_def simp flip: One_nat_def dest!: arg_cong [where f = length]
        split: option.split)
qed


section \<open>Printing and reading back\<close>

lemma unat_div_mod_16: "unat (b :: u8) div 16 < 16" "unat b mod 16 < 16"
  using unat_u8_less [of b] by auto

lemma hex_pair_print:
  "hex_pair (hex_digit_char (unat b div 16)) (hex_digit_char (unat b mod 16)) = b"
proof -
  have "16 * (unat b div 16) + unat b mod 16 = unat b" by simp
  then show ?thesis
    by (simp only: hex_pair_def hex_digit_char unat_div_mod_16) simp
qed

lemma spelled_print: "length bs = Suc n \<Longrightarrow> spelled n (print_address bs) = Some bs"
proof (induction n arbitrary: bs)
  case 0
  then obtain b where "bs = [b]" by (auto simp: length_Suc_conv)
  then show ?case
    by (simp add: print_address_def join_colon_def print_02x_def hex_digit_char unat_div_mod_16
        hex_pair_print)
next
  case (Suc n)
  then obtain b c bs' where bs: "bs = b # c # bs'" "length (c # bs') = Suc n"
    by (auto simp: length_Suc_conv)
  have "print_address (b # c # bs') = print_02x b @ CHR '':'' # print_address (c # bs')"
    by (simp add: print_address_def join_colon_def)
  then show ?case
    using Suc.IH [OF bs(2)] bs
    by (simp add: print_02x_def hex_digit_char unat_div_mod_16 hex_pair_print)
qed

lemma hpav_parse_lengths [simp]:
  "length dst = 6 \<Longrightarrow> length (snd (hpav_parse_mac mem dst arg)) = 6"
  "length dst = 7 \<Longrightarrow> length (snd (hpav_parse_nid mem dst arg)) = 7"
  by (auto simp: hpav_parse_mac_def hpav_parse_nid_def Let_def split: option.split)

text \<open>
  C22: \<^verbatim>\<open>hpav_parse_mac\<close> accepts exactly the texts of six groups of two hexadecimal digits, of either case,
  separated by colons; it then returns 0 and stores the six bytes they spell. Every other text gives
  \<open>-EINVAL\<close> and leaves the array as it was, a null pointer gives \<open>EXIT_FAILURE\<close>; the branch after a failed
  \<open>sscanf\<close> is never taken.
\<close>
theorem parse_mac_spec:
  assumes "length dst = 6"
  shows "hpav_parse_mac regcomp_ok dst s =
    (case s of None \<Rightarrow> (EXIT_FAILURE, dst)
     | Some t \<Rightarrow> if \<not> regcomp_ok then (- EINVAL, dst)
         else (case spelled 5 t of None \<Rightarrow> (- EINVAL, dst) | Some bs \<Rightarrow> (EXIT_SUCCESS, bs)))"
proof (cases regcomp_ok)
  case True
  then show ?thesis
    using assms by (cases s) (simp_all add: mac.parse_null mac.parse_text)
next
  case False
  then show ?thesis
    by (simp add: hpav_parse_mac_def split: option.split)
qed

theorem parse_mac_spec_witness:
  "hpav_parse_mac True [0, 0, 0, 0, 0, 0] (Some ''00:b0:52:00:00:0f'')
     = (0, [0, 0xB0, 0x52, 0, 0, 0x0F])
   \<and> hpav_parse_mac True [1, 2, 3, 4, 5, 6] (Some ''00:b0:52:00:00'') = (- 22, [1, 2, 3, 4, 5, 6])"
  using parse_mac_spec [of "[0, 0, 0, 0, 0, 0]" True "Some ''00:b0:52:00:00:0f''"]
    parse_mac_spec [of "[1, 2, 3, 4, 5, 6]" True "Some ''00:b0:52:00:00''"]
  by (simp add: eval_nat_numeral is_hex_digit_def in_range_def hex_pair_def digit_val_def exit_code_defs)

text \<open>
  C23: The texts that \<^verbatim>\<open>hpav_parse_nid\<close> and \<^verbatim>\<open>hpav_parse_mac\<close> read and the texts that the programs print with
  \<open>%02x\<close> and colons are inverse to each other: every address and every network identifier is read back from
  its printed form.
\<close>
theorem parse_print_roundtrip:
  assumes "length mac = 6" "length dst = 6" "length nid = 7" "length nid_dst = 7"
  shows "hpav_parse_mac True dst (Some (print_address mac)) = (EXIT_SUCCESS, mac)
    \<and> hpav_parse_nid True nid_dst (Some (print_address nid)) = (EXIT_SUCCESS, nid)"
  using assms by (simp add: mac.parse_success_iff nid.parse_success_iff spelled_print)

theorem parse_print_roundtrip_witness:
  "hpav_parse_mac True [0, 0, 0, 0, 0, 0] (Some (print_address [1, 2, 3, 4, 5, 255]))
     = (EXIT_SUCCESS, [1, 2, 3, 4, 5, 255])"
  using parse_print_roundtrip [of "[1, 2, 3, 4, 5, 255]" "[0, 0, 0, 0, 0, 0]"
      "[0, 0, 0, 0, 0, 0, 0]" "[0, 0, 0, 0, 0, 0, 0]"]
  by simp

end
