(* ===== verification/Argp.thy ===== *)
theory Argp
  imports Helper
begin

text \<open>
  What the three programs use of the GNU argument parser. \<open>argp_parse\<close> splits the command line, checks the
  options against the program's option table and calls the program's \<open>_parse_opt\<close> once for every option
  and every other argument, in their order, and once at the end; here it starts from the list of options
  and arguments it found. \<open>argp_usage\<close> and \<open>argp_error\<close> print a message and end the process with status 64.

  The locale \<open>argp_client\<close> states what the programs promise about their \<open>_parse_opt\<close>; each of them
  interprets it.
\<close>

datatype argp_key = Key char | ARGP_KEY_ARG | ARGP_KEY_END

datatype argp_item = Opt char "string option" | Arg string

type_synonym argp_option = "string \<times> char \<times> string option"

text \<open>
  A parser is called with whether \<open>regcomp\<close> finds memory during the call, the key, the argument,
  \<open>state->arg_num\<close> and the program's input.
\<close>

type_synonym 's argp_parser = "bool \<Rightarrow> argp_key \<Rightarrow> string option \<Rightarrow> nat \<Rightarrow> 's \<Rightarrow> 's outcome"

definition EX_USAGE :: int where
  "EX_USAGE = 64"

definition argp_usage :: "'s outcome" where
  "argp_usage = Exit EX_USAGE"

definition argp_error :: "'s outcome" where
  "argp_error = Exit EX_USAGE"

lemma ensures_argp_exits [ensures_rules]: "ensures a P argp_usage" "ensures a P argp_error"
  by (simp_all add: argp_usage_def argp_error_def ensures_def)

text \<open>\<open>mem k\<close> tells whether \<open>regcomp\<close> finds memory in the call with \<open>k\<close> calls to follow.\<close>

fun argp_parse :: "'s argp_parser \<Rightarrow> (nat \<Rightarrow> bool) \<Rightarrow> nat \<Rightarrow> argp_item list \<Rightarrow> 's \<Rightarrow> 's outcome" where
  "argp_parse parser mem arg_num [] s = parser (mem 0) ARGP_KEY_END None arg_num s"
| "argp_parse parser mem arg_num (Opt c arg # items) s =
     and_then (parser (mem (Suc (length items))) (Key c) arg arg_num s)
       (argp_parse parser mem arg_num items)"
| "argp_parse parser mem arg_num (Arg arg # items) s =
     and_then (parser (mem (Suc (length items))) ARGP_KEY_ARG (Some arg) arg_num s)
       (argp_parse parser mem (Suc arg_num) items)"

text \<open>What \<open>argp_parse\<close> delivers for an option table: known keys, with an argument exactly when the table says so.\<close>

fun item_ok :: "argp_option list \<Rightarrow> argp_item \<Rightarrow> bool" where
  "item_ok options (Opt c arg) \<longleftrightarrow> (\<exists>(name, key, arg_name)\<in>set options. key = c \<and> (arg = None \<longleftrightarrow> arg_name = None))"
| "item_ok options (Arg arg) \<longleftrightarrow> True"

definition interfaces :: "argp_item list \<Rightarrow> string list" where
  "interfaces items = concat (map (\<lambda>it. case it of Arg a \<Rightarrow> [a] | Opt c a \<Rightarrow> []) items)"

lemma interfaces_simps [simp]:
  "interfaces [] = []"
  "interfaces (Opt c a # items) = interfaces items"
  "interfaces (Arg b # items) = b # interfaces items"
  by (simp_all add: interfaces_def)

text \<open>A predicate that every call for an item keeps holds when the parser is called at the end.\<close>

lemma argp_parse_end:
  assumes "argp_parse parser mem n items s = Continue s'" "Q s"
    and "\<And>ok c a k s s'. Opt c a \<in> set items \<Longrightarrow> Q s \<Longrightarrow> parser ok (Key c) a k s = Continue s' \<Longrightarrow> Q s'"
    and "\<And>ok a k s s'. Arg a \<in> set items \<Longrightarrow> Q s \<Longrightarrow> parser ok ARGP_KEY_ARG (Some a) k s = Continue s' \<Longrightarrow> Q s'"
  shows "\<exists>s'' ok k. Q s'' \<and> parser ok ARGP_KEY_END None k s'' = Continue s'"
  using assms
proof (induction items arbitrary: n s)
  case Nil
  then show ?case by auto
next
  case (Cons it items)
  obtain s1 m where s1: "argp_parse parser mem m items s1 = Continue s'" and "Q s1"
  proof (cases it)
    case (Opt c a)
    then show ?thesis
      using Cons.prems(1,2) Cons.prems(3) [of c a s] that by auto
  next
    case (Arg a)
    then show ?thesis
      using Cons.prems(1,2) Cons.prems(4) [of a s] that by auto
  qed
  then show ?case
    using Cons.IH [of m s1] Cons.prems(3,4) by (meson list.set_intros(2))
qed

text \<open>The same with a predicate that speaks about the items that have been handled.\<close>

lemma argp_parse_prefix:
  assumes "argp_parse parser mem n items s = Continue s'" "Q pre s"
    and "\<And>ok c a k p s s'. Q p s \<Longrightarrow> length p < length pre + length items \<Longrightarrow>
      parser ok (Key c) a k s = Continue s' \<Longrightarrow> Q (p @ [Opt c a]) s'"
    and "\<And>ok a k p s s'. Q p s \<Longrightarrow> length p < length pre + length items \<Longrightarrow>
      parser ok ARGP_KEY_ARG (Some a) k s = Continue s' \<Longrightarrow> Q (p @ [Arg a]) s'"
  shows "\<exists>s'' ok k. Q (pre @ items) s'' \<and> parser ok ARGP_KEY_END None k s'' = Continue s'"
  using assms
proof (induction items arbitrary: n s pre)
  case Nil
  then show ?case by auto
next
  case (Cons it items)
  obtain s1 m where s1: "argp_parse parser mem m items s1 = Continue s'" and "Q (pre @ [it]) s1"
  proof (cases it)
    case (Opt c a)
    then show ?thesis
      using Cons.prems(1,2) Cons.prems(3) [of pre s] that by auto
  next
    case (Arg a)
    then show ?thesis
      using Cons.prems(1,2) Cons.prems(4) [of pre s] that by auto
  qed
  then show ?case
    using Cons.IH [of m s1 "pre @ [it]"] Cons.prems(3,4) by simp
qed

text \<open>The parser reaches the rest of an accepted command line in some state.\<close>

lemma argp_parse_rest:
  assumes "argp_parse parser mem n (pre @ rest) s = Continue s'"
  shows "\<exists>m s''. argp_parse parser mem m rest s'' = Continue s'"
  using assms
proof (induction pre arbitrary: n s)
  case Nil
  then show ?case by auto
next
  case (Cons it pre)
  then show ?case by (cases it) auto
qed

text \<open>How often an option is given.\<close>

definition occurrences :: "char \<Rightarrow> argp_item list \<Rightarrow> nat" where
  "occurrences c items = length (filter (\<lambda>it. case it of Opt k a \<Rightarrow> k = c | Arg a \<Rightarrow> False) items)"

lemma occurrences_simps [simp]:
  "occurrences c [] = 0"
  "occurrences c (items @ [Opt k a]) = occurrences c items + (if k = c then 1 else 0)"
  "occurrences c (items @ [Arg b]) = occurrences c items"
  by (simp_all add: occurrences_def)

lemma occurrences_le: "occurrences c items \<le> length items"
  by (simp add: occurrences_def)

lemma occurrences_eq_0: "occurrences c items = 0 \<longleftrightarrow> (\<forall>a. Opt c a \<notin> set items)"
  by (induction items) (auto simp: occurrences_def split: argp_item.split)

text \<open>
  The contract: the parser keeps the invariant \<open>inv\<close> of its input, every item that the option table allows
  is handled without undefined behaviour, a second interface name and a missing one end the process, and
  the interface name is stored.
\<close>

locale argp_client =
  fixes parser :: "'s argp_parser"
    and options :: "argp_option list"
    and inv :: "'s \<Rightarrow> bool"
    and if_name :: "'s \<Rightarrow> string"
  assumes keeps_inv: "inv s \<Longrightarrow> parser ok k a n s = Continue s' \<Longrightarrow> inv s'"
    and option_defined: "inv s \<Longrightarrow> item_ok options (Opt c a) \<Longrightarrow> parser ok (Key c) a n s \<noteq> Fault"
    and option_if_name: "parser ok (Key c) a n s = Continue s' \<Longrightarrow> if_name s' = if_name s"
    and first_arg: "parser ok ARGP_KEY_ARG (Some b) 0 s = Continue s' \<Longrightarrow> if_name s' = strncpy b 16"
    and arg_defined: "parser ok ARGP_KEY_ARG (Some b) n s \<noteq> Fault"
    and other_arg: "0 < n \<Longrightarrow> parser ok ARGP_KEY_ARG (Some b) n s = Exit EX_USAGE"
    and end_defined: "parser ok ARGP_KEY_END None n s \<noteq> Fault"
    and end_without_arg: "n \<noteq> 1 \<Longrightarrow> parser ok ARGP_KEY_END None n s = Exit EX_USAGE"
    and end_if_name: "parser ok ARGP_KEY_END None n s = Continue s' \<Longrightarrow> if_name s' = if_name s"
begin

lemma parse_defined:
  "inv s \<Longrightarrow> list_all (item_ok options) items \<Longrightarrow> argp_parse parser mem n items s \<noteq> Fault"
proof (induction items arbitrary: n s)
  case Nil
  then show ?case by (simp add: end_defined)
next
  case (Cons it items)
  then show ?case
    by (cases it) (auto dest: keeps_inv simp: option_defined arg_defined simp del: item_ok.simps)
qed

lemma parse_inv:
  "inv s \<Longrightarrow> argp_parse parser mem n items s = Continue s' \<Longrightarrow> inv s'"
proof (induction items arbitrary: n s)
  case Nil
  then show ?case by (auto dest: keeps_inv)
next
  case (Cons it items)
  then show ?case by (cases it) (auto dest: keeps_inv)
qed

lemma parse_after_interface:
  "argp_parse parser mem (Suc n) items s = Continue s'
    \<Longrightarrow> n = 0 \<and> interfaces items = [] \<and> if_name s' = if_name s"
proof (induction items arbitrary: s)
  case Nil
  have "n = 0"
    using Nil end_without_arg [of "Suc n" "mem 0" s] by (cases n) auto
  then show ?case
    using Nil by (auto dest: end_if_name)
next
  case (Cons it items)
  then show ?case
    by (cases it) (auto dest: option_if_name simp: other_arg)
qed

lemma parse_interface:
  "argp_parse parser mem 0 items s = Continue s'
    \<Longrightarrow> \<exists>b. interfaces items = [b] \<and> if_name s' = strncpy b 16"
proof (induction items arbitrary: s)
  case Nil
  then show ?case using end_without_arg [of 0 "mem 0" s] by simp
next
  case (Cons it items)
  then show ?case
    by (cases it) (auto dest!: parse_after_interface first_arg)
qed

end

end
