(* ===== verification/Mm_Types.thy ===== *)
theory Mm_Types
  imports C_Prelude
begin

text \<open>
  Management message types (first half of \<^verbatim>\<open>include/ieee1901-2010.h\<close>): the operation codes in the
  two low bits of a message type, the categories in its three high bits, the names of both, and the
  table \<open>MMTypes\<close> of the message types of the standard with the operations each supports.

  The enumerators are words, because the code combines them with bit operations. A \<open>const char *\<close> result
  is an option, \<^term>\<open>None\<close> for \<open>NULL\<close>.
\<close>

section \<open>Operations\<close>

definition MMOperationTypeRequest :: u16 where
  "MMOperationTypeRequest = 0x0000"

definition MMOperationTypeConfirm :: u16 where
  "MMOperationTypeConfirm = 0x0001"

definition MMOperationTypeIndication :: u16 where
  "MMOperationTypeIndication = 0x0002"

definition MMOperationTypeResponse :: u16 where
  "MMOperationTypeResponse = 0x0003"

definition MMOperationType_EOF :: u16 where
  "MMOperationType_EOF = MMOperationTypeResponse + 1"

definition MMOperationTypeMask :: u16 where
  "MMOperationTypeMask = MMOperationTypeResponse"

lemmas mm_operation_defs =
  MMOperationTypeRequest_def MMOperationTypeConfirm_def MMOperationTypeIndication_def
  MMOperationTypeResponse_def MMOperationType_EOF_def MMOperationTypeMask_def

definition MMOperationTypeNames :: "string list" where
  "MMOperationTypeNames = [''request'', ''confirm'', ''indication'', ''response'']"

definition hpav_mm_operation_type_name_get :: "u16 \<Rightarrow> string option" where
  "hpav_mm_operation_type_name_get type =
    (if MMOperationType_EOF \<le> type AND MMOperationTypeResponse then None
     else Some (MMOperationTypeNames ! unat (type AND MMOperationTypeResponse)))"

definition MMOperationTypeFlagRequest :: u32 where
  "MMOperationTypeFlagRequest = push_bit (unat MMOperationTypeRequest) 1"

definition MMOperationTypeFlagFlagConfirm :: u32 where
  "MMOperationTypeFlagFlagConfirm = push_bit (unat MMOperationTypeConfirm) 1"

definition MMOperationTypeFlagIndication :: u32 where
  "MMOperationTypeFlagIndication = push_bit (unat MMOperationTypeIndication) 1"

definition MMOperationTypeFlagResponse :: u32 where
  "MMOperationTypeFlagResponse = push_bit (unat MMOperationTypeResponse) 1"

lemma mm_flag_values:
  "MMOperationTypeFlagRequest = 1" "MMOperationTypeFlagFlagConfirm = 2"
  "MMOperationTypeFlagIndication = 4" "MMOperationTypeFlagResponse = 8"
  by (simp_all add: MMOperationTypeFlagRequest_def MMOperationTypeFlagFlagConfirm_def
      MMOperationTypeFlagIndication_def MMOperationTypeFlagResponse_def mm_operation_defs)


section \<open>Categories\<close>

definition MMCategorySTA2BSSManager :: u16 where
  "MMCategorySTA2BSSManager = 0x0000"

definition MMCategoryProxy2BSSManager :: u16 where
  "MMCategoryProxy2BSSManager = 0x2000"

definition MMCategoryBSSManager2BSSManager :: u16 where
  "MMCategoryBSSManager2BSSManager = 0x4000"

definition MMCategorySTA2STA :: u16 where
  "MMCategorySTA2STA = 0x6000"

definition MMCategoryManufactorSpecific :: u16 where
  "MMCategoryManufactorSpecific = 0x8000"

definition MMCategoryVendorSpecific :: u16 where
  "MMCategoryVendorSpecific = 0xa000"

definition MMCategoryReserved :: u16 where
  "MMCategoryReserved = 0xc000"

definition MMCategoryMask :: u16 where
  "MMCategoryMask = 0xe000"

lemmas mm_category_defs =
  MMCategorySTA2BSSManager_def MMCategoryProxy2BSSManager_def MMCategoryBSSManager2BSSManager_def
  MMCategorySTA2STA_def MMCategoryManufactorSpecific_def MMCategoryVendorSpecific_def
  MMCategoryReserved_def MMCategoryMask_def

definition hpav_mm_category_name_get :: "u16 \<Rightarrow> string" where
  "hpav_mm_category_name_get type =
    (let cat = type AND MMCategoryMask
     in if cat = MMCategorySTA2BSSManager then ''STA2BSSManager''
        else if cat = MMCategoryProxy2BSSManager then ''Proxy2BSSManager''
        else if cat = MMCategoryBSSManager2BSSManager then ''BSSManager2BSSManager''
        else if cat = MMCategorySTA2STA then ''STA2STA''
        else if cat = MMCategoryManufactorSpecific then ''ManufactorSpecific''
        else if cat = MMCategoryVendorSpecific then ''VendorSpecific''
        else ''reserved'')"


section \<open>The message types of the standard\<close>

definition MM_TYPE_CC_BM_APPOINT :: u16 where
  "MM_TYPE_CC_BM_APPOINT = 0x0000"

definition MM_TYPE_CC_BACKUP_APPOINT :: u16 where
  "MM_TYPE_CC_BACKUP_APPOINT = 0x0004"

definition MM_TYPE_CC_LINK_INFO :: u16 where
  "MM_TYPE_CC_LINK_INFO = 0x0008"

definition MM_TYPE_CC_HANDOVER :: u16 where
  "MM_TYPE_CC_HANDOVER = 0x000C"

definition MM_TYPE_CC_HANDOVER_INFO :: u16 where
  "MM_TYPE_CC_HANDOVER_INFO = 0x0010"

definition MM_TYPE_CC_DISCOVER_LIST :: u16 where
  "MM_TYPE_CC_DISCOVER_LIST = 0x0014"

definition MM_TYPE_CC_LINK_NEW :: u16 where
  "MM_TYPE_CC_LINK_NEW = 0x0018"

definition MM_TYPE_CC_LINK_MOD :: u16 where
  "MM_TYPE_CC_LINK_MOD = 0x001C"

definition MM_TYPE_CC_LINK_SQZ :: u16 where
  "MM_TYPE_CC_LINK_SQZ = 0x0020"

definition MM_TYPE_CC_LINK_REL :: u16 where
  "MM_TYPE_CC_LINK_REL = 0x0024"

definition MM_TYPE_CC_DETECT_REPORT :: u16 where
  "MM_TYPE_CC_DETECT_REPORT = 0x0028"

definition MM_TYPE_CC_WHO_RU :: u16 where
  "MM_TYPE_CC_WHO_RU = 0x002C"

definition MM_TYPE_CC_ASSOC :: u16 where
  "MM_TYPE_CC_ASSOC = 0x0030"

definition MM_TYPE_CC_LEAVE :: u16 where
  "MM_TYPE_CC_LEAVE = 0x0034"

definition MM_TYPE_CC_SET_TEI_MAP :: u16 where
  "MM_TYPE_CC_SET_TEI_MAP = 0x0038"

definition MM_TYPE_CC_RELAY :: u16 where
  "MM_TYPE_CC_RELAY = 0x003C"

definition MM_TYPE_CC_BEACON_RELIABILITY :: u16 where
  "MM_TYPE_CC_BEACON_RELIABILITY = 0x0040"

definition MM_TYPE_CC_ALLOC_MOVE :: u16 where
  "MM_TYPE_CC_ALLOC_MOVE = 0x0044"

definition MM_TYPE_CC_ACCESS_NEW :: u16 where
  "MM_TYPE_CC_ACCESS_NEW = 0x0048"

definition MM_TYPE_CC_ACCESS_REL :: u16 where
  "MM_TYPE_CC_ACCESS_REL = 0x004C"

definition MM_TYPE_CC_DCPPC :: u16 where
  "MM_TYPE_CC_DCPPC = 0x0050"

definition MM_TYPE_CC_HP1_DET :: u16 where
  "MM_TYPE_CC_HP1_DET = 0x0054"

definition MM_TYPE_CC_BLE_UPDATE :: u16 where
  "MM_TYPE_CC_BLE_UPDATE = 0x0058"

definition MM_TYPE_CC_BCAST_REPEAT :: u16 where
  "MM_TYPE_CC_BCAST_REPEAT = 0x005C"

definition MM_TYPE_CC_MH_LINK_NEW :: u16 where
  "MM_TYPE_CC_MH_LINK_NEW = 0x0060"

definition MM_TYPE_CC_ISP_DetectionReport :: u16 where
  "MM_TYPE_CC_ISP_DetectionReport = 0x0064"

definition MM_TYPE_CC_ISP_StartReSync :: u16 where
  "MM_TYPE_CC_ISP_StartReSync = 0x0068"

definition MM_TYPE_CC_ISP_FinishReSync :: u16 where
  "MM_TYPE_CC_ISP_FinishReSync = 0x006C"

definition MM_TYPE_CC_ISP_ReSyncDetected :: u16 where
  "MM_TYPE_CC_ISP_ReSyncDetected = 0x0070"

definition MM_TYPE_CC_ISP_ReSyncTransmission :: u16 where
  "MM_TYPE_CC_ISP_ReSyncTransmission = 0x0074"

definition MM_TYPE_CP_PROXY_APPOINT :: u16 where
  "MM_TYPE_CP_PROXY_APPOINT = 0x2000"

definition MM_TYPE_PH_PROXY_APPOINT :: u16 where
  "MM_TYPE_PH_PROXY_APPOINT = 0x2004"

definition MM_TYPE_CP_PROXY_WAKE :: u16 where
  "MM_TYPE_CP_PROXY_WAKE = 0x2008"

definition MM_TYPE_NN_INL :: u16 where
  "MM_TYPE_NN_INL = 0x4000"

definition MM_TYPE_NN_NEW_NET :: u16 where
  "MM_TYPE_NN_NEW_NET = 0x4004"

definition MM_TYPE_NN_ADD_ALLOC :: u16 where
  "MM_TYPE_NN_ADD_ALLOC = 0x4008"

definition MM_TYPE_NN_REL_ALLOC :: u16 where
  "MM_TYPE_NN_REL_ALLOC = 0x400C"

definition MM_TYPE_NN_REL_NET :: u16 where
  "MM_TYPE_NN_REL_NET = 0x4010"

definition MM_TYPE_CM_UNASSOCIATED_STA :: u16 where
  "MM_TYPE_CM_UNASSOCIATED_STA = 0x6000"

definition MM_TYPE_CM_ENCRYPTED_PAYLOAD :: u16 where
  "MM_TYPE_CM_ENCRYPTED_PAYLOAD = 0x6004"

definition MM_TYPE_CM_SET_KEY :: u16 where
  "MM_TYPE_CM_SET_KEY = 0x6008"

definition MM_TYPE_CM_GET_KEY :: u16 where
  "MM_TYPE_CM_GET_KEY = 0x600C"

definition MM_TYPE_CM_SC_JOIN :: u16 where
  "MM_TYPE_CM_SC_JOIN = 0x6010"

definition MM_TYPE_CM_CHAN_EST :: u16 where
  "MM_TYPE_CM_CHAN_EST = 0x6014"

definition MM_TYPE_CM_TM_UPDATE :: u16 where
  "MM_TYPE_CM_TM_UPDATE = 0x6018"

definition MM_TYPE_CM_AMP_MAP :: u16 where
  "MM_TYPE_CM_AMP_MAP = 0x601C"

definition MM_TYPE_CM_BRG_INFO :: u16 where
  "MM_TYPE_CM_BRG_INFO = 0x6020"

definition MM_TYPE_CM_CONN_NEW :: u16 where
  "MM_TYPE_CM_CONN_NEW = 0x6024"

definition MM_TYPE_CM_CONN_REL :: u16 where
  "MM_TYPE_CM_CONN_REL = 0x6028"

definition MM_TYPE_CM_CONN_MOD :: u16 where
  "MM_TYPE_CM_CONN_MOD = 0x602C"

definition MM_TYPE_CM_CONN_INFO :: u16 where
  "MM_TYPE_CM_CONN_INFO = 0x6030"

definition MM_TYPE_CM_STA_CAP :: u16 where
  "MM_TYPE_CM_STA_CAP = 0x6034"

definition MM_TYPE_CM_NW_INFO :: u16 where
  "MM_TYPE_CM_NW_INFO = 0x6038"

definition MM_TYPE_CM_GET_BEACON :: u16 where
  "MM_TYPE_CM_GET_BEACON = 0x603C"

definition MM_TYPE_CM_HFID :: u16 where
  "MM_TYPE_CM_HFID = 0x6040"

definition MM_TYPE_CM_MME_ERROR :: u16 where
  "MM_TYPE_CM_MME_ERROR = 0x6044"

definition MM_TYPE_CM_NW_STATS :: u16 where
  "MM_TYPE_CM_NW_STATS = 0x6048"

definition MM_TYPE_CM_LINK_STATS :: u16 where
  "MM_TYPE_CM_LINK_STATS = 0x604C"

definition MM_TYPE_CM_ROUTE_INFO :: u16 where
  "MM_TYPE_CM_ROUTE_INFO = 0x6050"

definition MM_TYPE_CM_UNREACHABLE :: u16 where
  "MM_TYPE_CM_UNREACHABLE = 0x6054"

definition MM_TYPE_CM_MH_CONN_NEW :: u16 where
  "MM_TYPE_CM_MH_CONN_NEW = 0x6058"

definition MM_TYPE_CM_EXTENDEDTONEMASK :: u16 where
  "MM_TYPE_CM_EXTENDEDTONEMASK = 0x605C"

lemmas mm_type_defs =
  MM_TYPE_CC_BM_APPOINT_def MM_TYPE_CC_BACKUP_APPOINT_def MM_TYPE_CC_LINK_INFO_def
  MM_TYPE_CC_HANDOVER_def MM_TYPE_CC_HANDOVER_INFO_def MM_TYPE_CC_DISCOVER_LIST_def
  MM_TYPE_CC_LINK_NEW_def MM_TYPE_CC_LINK_MOD_def MM_TYPE_CC_LINK_SQZ_def
  MM_TYPE_CC_LINK_REL_def MM_TYPE_CC_DETECT_REPORT_def MM_TYPE_CC_WHO_RU_def
  MM_TYPE_CC_ASSOC_def MM_TYPE_CC_LEAVE_def MM_TYPE_CC_SET_TEI_MAP_def
  MM_TYPE_CC_RELAY_def MM_TYPE_CC_BEACON_RELIABILITY_def MM_TYPE_CC_ALLOC_MOVE_def
  MM_TYPE_CC_ACCESS_NEW_def MM_TYPE_CC_ACCESS_REL_def MM_TYPE_CC_DCPPC_def
  MM_TYPE_CC_HP1_DET_def MM_TYPE_CC_BLE_UPDATE_def MM_TYPE_CC_BCAST_REPEAT_def
  MM_TYPE_CC_MH_LINK_NEW_def MM_TYPE_CC_ISP_DetectionReport_def MM_TYPE_CC_ISP_StartReSync_def
  MM_TYPE_CC_ISP_FinishReSync_def MM_TYPE_CC_ISP_ReSyncDetected_def MM_TYPE_CC_ISP_ReSyncTransmission_def
  MM_TYPE_CP_PROXY_APPOINT_def MM_TYPE_PH_PROXY_APPOINT_def MM_TYPE_CP_PROXY_WAKE_def
  MM_TYPE_NN_INL_def MM_TYPE_NN_NEW_NET_def MM_TYPE_NN_ADD_ALLOC_def
  MM_TYPE_NN_REL_ALLOC_def MM_TYPE_NN_REL_NET_def MM_TYPE_CM_UNASSOCIATED_STA_def
  MM_TYPE_CM_ENCRYPTED_PAYLOAD_def MM_TYPE_CM_SET_KEY_def MM_TYPE_CM_GET_KEY_def
  MM_TYPE_CM_SC_JOIN_def MM_TYPE_CM_CHAN_EST_def MM_TYPE_CM_TM_UPDATE_def
  MM_TYPE_CM_AMP_MAP_def MM_TYPE_CM_BRG_INFO_def MM_TYPE_CM_CONN_NEW_def
  MM_TYPE_CM_CONN_REL_def MM_TYPE_CM_CONN_MOD_def MM_TYPE_CM_CONN_INFO_def
  MM_TYPE_CM_STA_CAP_def MM_TYPE_CM_NW_INFO_def MM_TYPE_CM_GET_BEACON_def
  MM_TYPE_CM_HFID_def MM_TYPE_CM_MME_ERROR_def MM_TYPE_CM_NW_STATS_def
  MM_TYPE_CM_LINK_STATS_def MM_TYPE_CM_ROUTE_INFO_def MM_TYPE_CM_UNREACHABLE_def
  MM_TYPE_CM_MH_CONN_NEW_def MM_TYPE_CM_EXTENDEDTONEMASK_def

record MMType =
  type_base :: u16
  mm_name :: string
  mm_ops :: u32

definition MMTypes :: "MMType list" where
  "MMTypes =
    [\<lparr>type_base = MM_TYPE_CC_BM_APPOINT, mm_name = ''CC_BM_APPOINT'', mm_ops = MMOperationTypeFlagRequest OR MMOperationTypeFlagFlagConfirm\<rparr>,
     \<lparr>type_base = MM_TYPE_CC_BACKUP_APPOINT, mm_name = ''CC_BACKUP_APPOINT'', mm_ops = MMOperationTypeFlagRequest OR MMOperationTypeFlagFlagConfirm\<rparr>,
     \<lparr>type_base = MM_TYPE_CC_LINK_INFO, mm_name = ''CC_LINK_INFO'', mm_ops = MMOperationTypeFlagRequest OR MMOperationTypeFlagFlagConfirm OR MMOperationTypeFlagIndication OR MMOperationTypeFlagResponse\<rparr>,
     \<lparr>type_base = MM_TYPE_CC_HANDOVER, mm_name = ''CC_HANDOVER'', mm_ops = MMOperationTypeFlagRequest OR MMOperationTypeFlagFlagConfirm\<rparr>,
     \<lparr>type_base = MM_TYPE_CC_HANDOVER_INFO, mm_name = ''CC_HANDOVER_INFO'', mm_ops = MMOperationTypeFlagIndication OR MMOperationTypeFlagResponse\<rparr>,
     \<lparr>type_base = MM_TYPE_CC_DISCOVER_LIST, mm_name = ''CC_DISCOVER_LIST'', mm_ops = MMOperationTypeFlagRequest OR MMOperationTypeFlagFlagConfirm OR MMOperationTypeFlagIndication\<rparr>,
     \<lparr>type_base = MM_TYPE_CC_LINK_NEW, mm_name = ''CC_LINK_NEW'', mm_ops = MMOperationTypeFlagRequest OR MMOperationTypeFlagFlagConfirm\<rparr>,
     \<lparr>type_base = MM_TYPE_CC_LINK_MOD, mm_name = ''CC_LINK_MOD'', mm_ops = MMOperationTypeFlagRequest OR MMOperationTypeFlagFlagConfirm\<rparr>,
     \<lparr>type_base = MM_TYPE_CC_LINK_SQZ, mm_name = ''CC_LINK_SQZ'', mm_ops = MMOperationTypeFlagRequest OR MMOperationTypeFlagFlagConfirm\<rparr>,
     \<lparr>type_base = MM_TYPE_CC_LINK_REL, mm_name = ''CC_LINK_REL'', mm_ops = MMOperationTypeFlagRequest OR MMOperationTypeFlagIndication\<rparr>,
     \<lparr>type_base = MM_TYPE_CC_DETECT_REPORT, mm_name = ''CC_DETECT_REPORT'', mm_ops = MMOperationTypeFlagRequest OR MMOperationTypeFlagFlagConfirm\<rparr>,
     \<lparr>type_base = MM_TYPE_CC_WHO_RU, mm_name = ''CC_WHO_RU'', mm_ops = MMOperationTypeFlagRequest OR MMOperationTypeFlagFlagConfirm\<rparr>,
     \<lparr>type_base = MM_TYPE_CC_ASSOC, mm_name = ''CC_ASSOC'', mm_ops = MMOperationTypeFlagRequest OR MMOperationTypeFlagFlagConfirm\<rparr>,
     \<lparr>type_base = MM_TYPE_CC_LEAVE, mm_name = ''CC_LEAVE'', mm_ops = MMOperationTypeFlagRequest OR MMOperationTypeFlagFlagConfirm OR MMOperationTypeFlagIndication OR MMOperationTypeFlagResponse\<rparr>,
     \<lparr>type_base = MM_TYPE_CC_SET_TEI_MAP, mm_name = ''CC_SET_TEI_MAP'', mm_ops = MMOperationTypeFlagRequest OR MMOperationTypeFlagIndication\<rparr>,
     \<lparr>type_base = MM_TYPE_CC_RELAY, mm_name = ''CC_RELAY'', mm_ops = MMOperationTypeFlagRequest OR MMOperationTypeFlagIndication\<rparr>,
     \<lparr>type_base = MM_TYPE_CC_BEACON_RELIABILITY, mm_name = ''CC_BEACON_RELIABILITY'', mm_ops = MMOperationTypeFlagRequest OR MMOperationTypeFlagFlagConfirm\<rparr>,
     \<lparr>type_base = MM_TYPE_CC_ALLOC_MOVE, mm_name = ''CC_ALLOC_MOVE'', mm_ops = MMOperationTypeFlagRequest OR MMOperationTypeFlagFlagConfirm\<rparr>,
     \<lparr>type_base = MM_TYPE_CC_ACCESS_NEW, mm_name = ''CC_ACCESS_NEW'', mm_ops = MMOperationTypeFlagRequest OR MMOperationTypeFlagFlagConfirm OR MMOperationTypeFlagIndication OR MMOperationTypeFlagResponse\<rparr>,
     \<lparr>type_base = MM_TYPE_CC_ACCESS_REL, mm_name = ''CC_ACCESS_REL'', mm_ops = MMOperationTypeFlagRequest OR MMOperationTypeFlagFlagConfirm OR MMOperationTypeFlagIndication OR MMOperationTypeFlagResponse\<rparr>,
     \<lparr>type_base = MM_TYPE_CC_DCPPC, mm_name = ''CC_DCPPC'', mm_ops = MMOperationTypeFlagIndication OR MMOperationTypeFlagResponse\<rparr>,
     \<lparr>type_base = MM_TYPE_CC_HP1_DET, mm_name = ''CC_HP1_DET'', mm_ops = MMOperationTypeFlagRequest OR MMOperationTypeFlagFlagConfirm\<rparr>,
     \<lparr>type_base = MM_TYPE_CC_BLE_UPDATE, mm_name = ''CC_BLE_UPDATE'', mm_ops = MMOperationTypeFlagIndication\<rparr>,
     \<lparr>type_base = MM_TYPE_CC_BCAST_REPEAT, mm_name = ''CC_BCAST_REPEAT'', mm_ops = MMOperationTypeFlagIndication OR MMOperationTypeFlagResponse\<rparr>,
     \<lparr>type_base = MM_TYPE_CC_MH_LINK_NEW, mm_name = ''CC_MH_LINK_NEW'', mm_ops = MMOperationTypeFlagRequest OR MMOperationTypeFlagFlagConfirm\<rparr>,
     \<lparr>type_base = MM_TYPE_CC_ISP_DetectionReport, mm_name = ''CC_ISP_DetectionReport'', mm_ops = MMOperationTypeFlagIndication\<rparr>,
     \<lparr>type_base = MM_TYPE_CC_ISP_StartReSync, mm_name = ''CC_ISP_StartReSync'', mm_ops = MMOperationTypeFlagRequest\<rparr>,
     \<lparr>type_base = MM_TYPE_CC_ISP_FinishReSync, mm_name = ''CC_ISP_FinishReSync'', mm_ops = MMOperationTypeFlagRequest\<rparr>,
     \<lparr>type_base = MM_TYPE_CC_ISP_ReSyncDetected, mm_name = ''CC_ISP_ReSyncDetected'', mm_ops = MMOperationTypeFlagIndication\<rparr>,
     \<lparr>type_base = MM_TYPE_CC_ISP_ReSyncTransmission, mm_name = ''CC_ISP_ReSyncTransmission'', mm_ops = MMOperationTypeFlagRequest\<rparr>,
     \<lparr>type_base = MM_TYPE_CP_PROXY_APPOINT, mm_name = ''CP_PROXY_APPOINT'', mm_ops = MMOperationTypeFlagRequest OR MMOperationTypeFlagFlagConfirm\<rparr>,
     \<lparr>type_base = MM_TYPE_PH_PROXY_APPOINT, mm_name = ''PH_PROXY_APPOINT'', mm_ops = MMOperationTypeFlagIndication\<rparr>,
     \<lparr>type_base = MM_TYPE_CP_PROXY_WAKE, mm_name = ''CP_PROXY_WAKE'', mm_ops = MMOperationTypeFlagRequest\<rparr>,
     \<lparr>type_base = MM_TYPE_NN_INL, mm_name = ''NN_INL'', mm_ops = MMOperationTypeFlagRequest\<rparr>,
     \<lparr>type_base = MM_TYPE_NN_NEW_NET, mm_name = ''NN_NEW_NET'', mm_ops = MMOperationTypeFlagRequest OR MMOperationTypeFlagFlagConfirm OR MMOperationTypeFlagIndication\<rparr>,
     \<lparr>type_base = MM_TYPE_NN_ADD_ALLOC, mm_name = ''NN_ADD_ALLOC'', mm_ops = MMOperationTypeFlagRequest OR MMOperationTypeFlagFlagConfirm OR MMOperationTypeFlagIndication\<rparr>,
     \<lparr>type_base = MM_TYPE_NN_REL_ALLOC, mm_name = ''NN_REL_ALLOC'', mm_ops = MMOperationTypeFlagRequest OR MMOperationTypeFlagFlagConfirm\<rparr>,
     \<lparr>type_base = MM_TYPE_NN_REL_NET, mm_name = ''NN_REL_NET'', mm_ops = MMOperationTypeFlagIndication\<rparr>,
     \<lparr>type_base = MM_TYPE_CM_UNASSOCIATED_STA, mm_name = ''CM_UNASSOCIATED_STA'', mm_ops = MMOperationTypeFlagIndication\<rparr>,
     \<lparr>type_base = MM_TYPE_CM_ENCRYPTED_PAYLOAD, mm_name = ''CM_ENCRYPTED_PAYLOAD'', mm_ops = MMOperationTypeFlagIndication OR MMOperationTypeFlagResponse\<rparr>,
     \<lparr>type_base = MM_TYPE_CM_SET_KEY, mm_name = ''CM_SET_KEY'', mm_ops = MMOperationTypeFlagRequest OR MMOperationTypeFlagFlagConfirm\<rparr>,
     \<lparr>type_base = MM_TYPE_CM_GET_KEY, mm_name = ''CM_GET_KEY'', mm_ops = MMOperationTypeFlagRequest OR MMOperationTypeFlagFlagConfirm\<rparr>,
     \<lparr>type_base = MM_TYPE_CM_SC_JOIN, mm_name = ''CM_SC_JOIN'', mm_ops = MMOperationTypeFlagRequest OR MMOperationTypeFlagFlagConfirm\<rparr>,
     \<lparr>type_base = MM_TYPE_CM_CHAN_EST, mm_name = ''CM_CHAN_EST'', mm_ops = MMOperationTypeFlagIndication\<rparr>,
     \<lparr>type_base = MM_TYPE_CM_TM_UPDATE, mm_name = ''CM_TM_UPDATE'', mm_ops = MMOperationTypeFlagIndication\<rparr>,
     \<lparr>type_base = MM_TYPE_CM_AMP_MAP, mm_name = ''CM_AMP_MAP'', mm_ops = MMOperationTypeFlagRequest OR MMOperationTypeFlagFlagConfirm\<rparr>,
     \<lparr>type_base = MM_TYPE_CM_BRG_INFO, mm_name = ''CM_BRG_INFO'', mm_ops = MMOperationTypeFlagRequest OR MMOperationTypeFlagFlagConfirm\<rparr>,
     \<lparr>type_base = MM_TYPE_CM_CONN_NEW, mm_name = ''CM_CONN_NEW'', mm_ops = MMOperationTypeFlagRequest OR MMOperationTypeFlagFlagConfirm\<rparr>,
     \<lparr>type_base = MM_TYPE_CM_CONN_REL, mm_name = ''CM_CONN_REL'', mm_ops = MMOperationTypeFlagIndication OR MMOperationTypeFlagResponse\<rparr>,
     \<lparr>type_base = MM_TYPE_CM_CONN_MOD, mm_name = ''CM_CONN_MOD'', mm_ops = MMOperationTypeFlagRequest OR MMOperationTypeFlagFlagConfirm\<rparr>,
     \<lparr>type_base = MM_TYPE_CM_CONN_INFO, mm_name = ''CM_CONN_INFO'', mm_ops = MMOperationTypeFlagRequest OR MMOperationTypeFlagFlagConfirm\<rparr>,
     \<lparr>type_base = MM_TYPE_CM_STA_CAP, mm_name = ''CM_STA_CAP'', mm_ops = MMOperationTypeFlagRequest OR MMOperationTypeFlagFlagConfirm\<rparr>,
     \<lparr>type_base = MM_TYPE_CM_NW_INFO, mm_name = ''CM_NW_INFO'', mm_ops = MMOperationTypeFlagRequest OR MMOperationTypeFlagFlagConfirm\<rparr>,
     \<lparr>type_base = MM_TYPE_CM_GET_BEACON, mm_name = ''CM_GET_BEACON'', mm_ops = MMOperationTypeFlagRequest OR MMOperationTypeFlagFlagConfirm\<rparr>,
     \<lparr>type_base = MM_TYPE_CM_HFID, mm_name = ''CM_HFID'', mm_ops = MMOperationTypeFlagRequest OR MMOperationTypeFlagFlagConfirm\<rparr>,
     \<lparr>type_base = MM_TYPE_CM_MME_ERROR, mm_name = ''CM_MME_ERROR'', mm_ops = MMOperationTypeFlagIndication\<rparr>,
     \<lparr>type_base = MM_TYPE_CM_NW_STATS, mm_name = ''CM_NW_STATS'', mm_ops = MMOperationTypeFlagRequest OR MMOperationTypeFlagFlagConfirm\<rparr>,
     \<lparr>type_base = MM_TYPE_CM_LINK_STATS, mm_name = ''CM_LINK_STATS'', mm_ops = MMOperationTypeFlagRequest OR MMOperationTypeFlagFlagConfirm\<rparr>,
     \<lparr>type_base = MM_TYPE_CM_ROUTE_INFO, mm_name = ''CM_ROUTE_INFO'', mm_ops = MMOperationTypeFlagRequest OR MMOperationTypeFlagFlagConfirm OR MMOperationTypeFlagIndication\<rparr>,
     \<lparr>type_base = MM_TYPE_CM_UNREACHABLE, mm_name = ''CM_UNREACHABLE'', mm_ops = MMOperationTypeFlagIndication\<rparr>,
     \<lparr>type_base = MM_TYPE_CM_MH_CONN_NEW, mm_name = ''CM_MH_CONN_NEW'', mm_ops = MMOperationTypeFlagRequest OR MMOperationTypeFlagFlagConfirm\<rparr>,
     \<lparr>type_base = MM_TYPE_CM_EXTENDEDTONEMASK, mm_name = ''CM_EXTENDEDTONEMASK'', mm_ops = MMOperationTypeFlagRequest OR MMOperationTypeFlagFlagConfirm\<rparr>]"

definition MM_TYPE_COUNT :: nat where
  "MM_TYPE_COUNT = length MMTypes"


section \<open>Facts about the table\<close>

text \<open>
  One row is well formed when its base leaves the two operation bits free, belongs to one of the
  standard's categories, has at least one operation and no flag but the four, and when its name fits
  the \<open>char name[32]\<close> with its terminator.
\<close>

definition mm_row_ok :: "MMType \<Rightarrow> bool" where
  "mm_row_ok t \<longleftrightarrow> type_base t AND MMOperationTypeMask = 0 \<and> type_base t < 0x8000
     \<and> mm_ops t \<noteq> 0 \<and> mm_ops t < 16 \<and> length (mm_name t) < 32"

definition mm_name_prefix :: "MMType \<Rightarrow> string" where
  "mm_name_prefix t = take 2 (mm_name t)"

definition category_prefixes :: "(string \<times> string) list" where
  "category_prefixes =
    [(''CC'', ''STA2BSSManager''), (''CP'', ''Proxy2BSSManager''), (''PH'', ''Proxy2BSSManager''),
     (''NN'', ''BSSManager2BSSManager''), (''CM'', ''STA2STA'')]"

lemma MMTypes_bases:
  "map type_base MMTypes =
    [0x0000, 0x0004, 0x0008, 0x000C, 0x0010, 0x0014, 0x0018, 0x001C, 0x0020, 0x0024,
     0x0028, 0x002C, 0x0030, 0x0034, 0x0038, 0x003C, 0x0040, 0x0044, 0x0048, 0x004C,
     0x0050, 0x0054, 0x0058, 0x005C, 0x0060, 0x0064, 0x0068, 0x006C, 0x0070, 0x0074,
     0x2000, 0x2004, 0x2008, 0x4000, 0x4004, 0x4008, 0x400C, 0x4010, 0x6000, 0x6004,
     0x6008, 0x600C, 0x6010, 0x6014, 0x6018, 0x601C, 0x6020, 0x6024, 0x6028, 0x602C,
     0x6030, 0x6034, 0x6038, 0x603C, 0x6040, 0x6044, 0x6048, 0x604C, 0x6050, 0x6054,
     0x6058, 0x605C]"
  by (simp add: MMTypes_def mm_type_defs)

lemma MMTypes_rows_ok: "list_all mm_row_ok MMTypes"
  by (simp add: MMTypes_def mm_row_ok_def mm_type_defs mm_flag_values mm_operation_defs)

lemma MMTypes_bases_distinct: "distinct (map type_base MMTypes)"
  by (simp add: MMTypes_def mm_type_defs)

lemma MMTypes_names_distinct: "distinct (map mm_name MMTypes)"
  by (simp add: MMTypes_def)

lemma MMTypes_categories:
  "list_all (\<lambda>t. map_of category_prefixes (mm_name_prefix t)
     = Some (hpav_mm_category_name_get (type_base t))) MMTypes"
  by (simp add: MMTypes_def mm_type_defs mm_name_prefix_def category_prefixes_def
      hpav_mm_category_name_get_def mm_category_defs)

lemma MM_TYPE_COUNT_value: "MM_TYPE_COUNT = 62"
  by (simp add: MM_TYPE_COUNT_def MMTypes_def)

text \<open>
  The table of message types is consistent: all 62 types are different and differently named, each base
  leaves the operation bits free and lies below the manufacturer and vendor categories, each row lists at
  least one of the four operations, its name fits its array, and the prefix of the name agrees with the
  category that \<^verbatim>\<open>hpav_mm_category_name_get\<close> derives from the number. No operation is without a name.
\<close>
theorem mm_table_consistent:
  "list_all mm_row_ok MMTypes \<and> MM_TYPE_COUNT = 62
    \<and> distinct (map type_base MMTypes) \<and> distinct (map mm_name MMTypes)
    \<and> list_all (\<lambda>t. map_of category_prefixes (mm_name_prefix t)
         = Some (hpav_mm_category_name_get (type_base t))) MMTypes
    \<and> hpav_mm_operation_type_name_get type = Some (MMOperationTypeNames ! unat (type AND 3))"
proof -
  have "type AND 3 = take_bit 2 type"
    by (simp add: take_bit_eq_mask mask_eq_exp_minus_1)
  then have "unat (type AND 3) < 4"
    by (simp add: unsigned_take_bit_eq take_bit_nat_less_exp [of 2, simplified])
  then have "\<not> 4 \<le> type AND 3"
    by (simp add: word_le_nat_alt)
  then show ?thesis
    using MMTypes_rows_ok MM_TYPE_COUNT_value MMTypes_bases_distinct MMTypes_names_distinct MMTypes_categories
    by (simp add: hpav_mm_operation_type_name_get_def mm_operation_defs)
qed

end
