(* ===== verification/Wire_Structs.thy ===== *)
theory Wire_Structs
  imports C_Prelude
begin

text \<open>
  The packed structs of \<^verbatim>\<open>include/ieee1901-2010.h\<close> that are laid over received and sent frames. Each
  struct is a record with the fields of the C struct; \<open><struct>_of\<close> reads its fields from the bytes at
  the struct's address (what a field access through the cast pointer does), \<open><struct>_bytes\<close> gives the
  bytes of the object, and \<open>wf_<struct>\<close> says that arrays have their length and bit-fields their width.
  Bit-fields are allocated from the least significant bit, as the little-endian ABIs do.

  The locale \<open>wire_layout\<close> is the contract between these records and the code that walks over frames:
  the four laws say that the size is right and that fields and bytes determine each other. Every struct
  is an interpretation of it.
\<close>

section \<open>The contract of a packed struct\<close>

text \<open>
  Abstract view of a sequence of structs: the records a walk in steps of \<open>sz\<close> bytes sees, at most \<open>n\<close>
  of them and only those that lie wholly inside the bytes.
\<close>

fun records_of :: "nat \<Rightarrow> (bytes \<Rightarrow> 'r) \<Rightarrow> nat \<Rightarrow> bytes \<Rightarrow> 'r list" where
  "records_of sz dec 0 bs = []"
| "records_of sz dec (Suc n) bs =
     (if length bs < sz then [] else dec (take sz bs) # records_of sz dec n (drop sz bs))"

lemma length_records_of_full:
  "n * sz \<le> length bs \<Longrightarrow> length (records_of sz dec n bs) = n"
  by (induction n arbitrary: bs) auto

lemma length_records_of_le: "length (records_of sz dec n bs) \<le> n"
  by (induction n arbitrary: bs) auto

lemma length_records_of:
  "0 < sz \<Longrightarrow> length (records_of sz dec n bs) = min n (length bs div sz)"
proof (induction n arbitrary: bs)
  case 0
  then show ?case by simp
next
  case (Suc n)
  show ?case
  proof (cases "length bs < sz")
    case True
    then show ?thesis by simp
  next
    case False
    then have "length bs div sz = Suc ((length bs - sz) div sz)"
      using Suc.prems by (simp add: le_div_geq)
    with False Suc show ?thesis by simp
  qed
qed

lemma records_of_drop:
  "n * sz \<le> length bs \<Longrightarrow> i < n \<Longrightarrow>
   records_of sz dec n bs ! i = dec (take sz (drop (i * sz) bs))"
proof (induction n arbitrary: bs i)
  case 0
  then show ?case by simp
next
  case (Suc n)
  then show ?case
    by (cases i) (auto simp: add.commute)
qed

locale wire_layout =
  fixes sz :: nat
    and dec :: "bytes \<Rightarrow> 'r"
    and enc :: "'r \<Rightarrow> bytes"
    and wf :: "'r \<Rightarrow> bool"
  assumes size_pos: "0 < sz"
    and length_enc: "wf r \<Longrightarrow> length (enc r) = sz"
    and dec_enc: "wf r \<Longrightarrow> dec (enc r) = r"
    and enc_dec: "length bs = sz \<Longrightarrow> enc (dec bs) = bs"
    and wf_dec: "length bs = sz \<Longrightarrow> wf (dec bs)"
begin

lemma dec_inject:
  "length bs = sz \<Longrightarrow> length cs = sz \<Longrightarrow> dec bs = dec cs \<longleftrightarrow> bs = cs"
  using enc_dec by metis

lemma length_concat_enc:
  "\<forall>r \<in> set rs. wf r \<Longrightarrow> length (concat (map enc rs)) = length rs * sz"
  by (induction rs) (auto simp: length_enc)

lemma records_of_concat_enc:
  "\<forall>r \<in> set rs. wf r \<Longrightarrow> records_of sz dec (length rs) (concat (map enc rs) @ rest) = rs"
  by (induction rs) (auto simp: length_enc dec_enc)

lemma records_of_wf: "r \<in> set (records_of sz dec n bs) \<Longrightarrow> wf r"
  by (induction n arbitrary: bs) (auto intro: wf_dec split: if_splits)

lemma concat_enc_records_of:
  "n * sz \<le> length bs \<Longrightarrow> concat (map enc (records_of sz dec n bs)) = take (n * sz) bs"
proof (induction n arbitrary: bs)
  case 0
  then show ?case by simp
next
  case (Suc n)
  then show ?case by (simp add: enc_dec take_add)
qed

end


section \<open>Bit-fields of a byte\<close>

text \<open>A byte is put together from its two nibbles, or from fields of width 1, 2, 1, 1, 1, 1 and 1.\<close>

definition bitfield :: "nat \<Rightarrow> nat \<Rightarrow> u8 \<Rightarrow> u8" where
  "bitfield off n b = take_bit n (drop_bit off b)"

definition fits :: "nat \<Rightarrow> u8 \<Rightarrow> bool" where
  "fits n x \<longleftrightarrow> take_bit n x = x"

definition nibbles :: "u8 \<Rightarrow> u8 \<Rightarrow> u8" where
  "nibbles lo hi = lo OR push_bit 4 hi"

definition flag_byte :: "u8 \<Rightarrow> u8 \<Rightarrow> u8 \<Rightarrow> u8 \<Rightarrow> u8 \<Rightarrow> u8 \<Rightarrow> u8 \<Rightarrow> u8" where
  "flag_byte a b c d e f g = a OR push_bit 1 b OR push_bit 3 c OR push_bit 4 d OR push_bit 5 e
     OR push_bit 6 f OR push_bit 7 g"

lemma u8_eq_iff: "x = y \<longleftrightarrow> (\<forall>i \<in> {0, 1, 2, 3, 4, 5, 6, 7}. bit (x :: u8) i = bit y i)"
proof
  assume a: "\<forall>i \<in> {0, 1, 2, 3, 4, 5, 6, 7}. bit x i = bit y i"
  show "x = y"
  proof (rule bit_word_eqI)
    fix n
    assume "n < LENGTH(8)"
    then have "n \<in> {0, 1, 2, 3, 4, 5, 6, 7}" by auto
    with a show "bit x n = bit y n" by blast
  qed
qed simp

lemma bit_push_u8: "bit (push_bit k (x :: u8)) i \<longleftrightarrow> k \<le> i \<and> i < 8 \<and> bit x (i - k)"
  by (auto simp: bit_simps dest: bit_imp_le_length)

lemma bit_drop_u8: "bit (drop_bit k (x :: u8)) i \<longleftrightarrow> bit x (k + i)"
  by (simp only: bit_drop_bit_eq comp_def)

lemmas u8_bits = bitfield_def fits_def nibbles_def flag_byte_def u8_eq_iff bit_or_iff bit_push_u8 bit_drop_u8 bit_take_bit_iff

lemma nibbles_split [wire_simps]: "nibbles (bitfield 0 4 b) (bitfield 4 4 b) = b"
  unfolding u8_bits
  by (simp add: numeral_2_eq_2 [symmetric] del: bit_0)

lemma nibbles_fields [wire_simps]:
  assumes "fits 4 lo" "fits 4 hi"
  shows "bitfield 0 4 (nibbles lo hi) = lo"
    "bitfield 4 4 (nibbles lo hi) = hi"
  using assms unfolding u8_bits
  by (simp_all add: numeral_2_eq_2 [symmetric] del: bit_0)

lemma flag_byte_split [wire_simps]:
  "flag_byte (bitfield 0 1 b) (bitfield 1 2 b) (bitfield 3 1 b)
     (bitfield 4 1 b) (bitfield 5 1 b) (bitfield 6 1 b)
     (bitfield 7 1 b) = b"
  unfolding u8_bits
  by (simp add: numeral_2_eq_2 [symmetric] del: bit_0)

lemma flag_byte_fields [wire_simps]:
  assumes "fits 1 a" "fits 2 b" "fits 1 c" "fits 1 d" "fits 1 e" "fits 1 f" "fits 1 g"
  shows "bitfield 0 1 (flag_byte a b c d e f g) = a"
    "bitfield 1 2 (flag_byte a b c d e f g) = b"
    "bitfield 3 1 (flag_byte a b c d e f g) = c"
    "bitfield 4 1 (flag_byte a b c d e f g) = d"
    "bitfield 5 1 (flag_byte a b c d e f g) = e"
    "bitfield 6 1 (flag_byte a b c d e f g) = f"
    "bitfield 7 1 (flag_byte a b c d e f g) = g"
  using assms unfolding u8_bits
  by (simp_all add: numeral_2_eq_2 [symmetric] del: bit_0)

lemma fits_bitfield [wire_simps]: "fits n (bitfield off n x)"
  by (simp add: fits_def bitfield_def)


section \<open>Arrays and words inside a struct\<close>

lemmas explode_list = eval_nat_numeral length_Suc_conv

lemma u16_at_append [wire_simps]:
  "length xs \<le> i \<Longrightarrow> u16_at (xs @ ys) i = u16_at ys (i - length xs)"
  by (simp add: u16_at_def nth_append Suc_diff_le)

lemma u16_at_Cons [wire_simps]: "0 < i \<Longrightarrow> u16_at (x # ys) i = u16_at ys (i - 1)"
  by (cases i) (simp_all add: u16_at_def)

lemma u32_at_append [wire_simps]:
  "length xs \<le> i \<Longrightarrow> u32_at (xs @ ys) i = u32_at ys (i - length xs)"
  by (simp add: u32_at_def nth_append Suc_diff_le)

lemma u16_at_head [wire_simps]:
  "u16_at (le16_bytes w) 0 = w" "u16_at (le16_bytes w @ ys) 0 = w"
  by (simp_all add: u16_at_def le16_bytes_def)

lemma u32_at_head [wire_simps]:
  "u32_at (le32_bytes w) 0 = w" "u32_at (le32_bytes w @ ys) 0 = w"
  by (simp_all add: u32_at_def le32_bytes_def)

lemma le_bytes_at [wire_simps]:
  "le16_bytes (u16_at bs i) = [bs ! i, bs ! (i + 1)]"
  "le32_bytes (u32_at bs i) = [bs ! i, bs ! (i + 1), bs ! (i + 2), bs ! (i + 3)]"
  by (simp_all add: u16_at_def u32_at_def)


section \<open>ieee1901_2010_station_information (12 bytes)\<close>

record station_information =
  sta_mac_addr :: bytes
  sta_tei :: u8
  sta_same_network :: u8
  sta_snid :: u8
  sta_access :: u8
  sta_reserved :: u8
  sta_bm_capability :: u8
  sta_proxy_networking_capability :: u8
  sta_backup_bm_capability :: u8
  sta_bm_status :: u8
  sta_pbm_status :: u8
  sta_backup_bm_status :: u8
  sta_signal_level :: u8
  sta_average_ble :: u8

definition sizeof_station_information :: nat where
  "sizeof_station_information = 12"

definition station_information_of :: "bytes \<Rightarrow> station_information" where
  "station_information_of bs = \<lparr>
     sta_mac_addr = take 6 bs,
     sta_tei = bs ! 6,
     sta_same_network = bs ! 7,
     sta_snid = bitfield 0 4 (bs ! 8),
     sta_access = bitfield 4 4 (bs ! 8),
     sta_reserved = bitfield 0 1 (bs ! 9),
     sta_bm_capability = bitfield 1 2 (bs ! 9),
     sta_proxy_networking_capability = bitfield 3 1 (bs ! 9),
     sta_backup_bm_capability = bitfield 4 1 (bs ! 9),
     sta_bm_status = bitfield 5 1 (bs ! 9),
     sta_pbm_status = bitfield 6 1 (bs ! 9),
     sta_backup_bm_status = bitfield 7 1 (bs ! 9),
     sta_signal_level = bs ! 10,
     sta_average_ble = bs ! 11\<rparr>"

definition station_information_bytes :: "station_information \<Rightarrow> bytes" where
  "station_information_bytes r = sta_mac_addr r @
     [sta_tei r, sta_same_network r, nibbles (sta_snid r) (sta_access r),
      flag_byte (sta_reserved r) (sta_bm_capability r) (sta_proxy_networking_capability r)
        (sta_backup_bm_capability r) (sta_bm_status r) (sta_pbm_status r) (sta_backup_bm_status r),
      sta_signal_level r, sta_average_ble r]"

definition wf_station_information :: "station_information \<Rightarrow> bool" where
  "wf_station_information r \<longleftrightarrow> length (sta_mac_addr r) = 6
     \<and> fits 4 (sta_snid r) \<and> fits 4 (sta_access r) \<and> fits 1 (sta_reserved r)
     \<and> fits 2 (sta_bm_capability r) \<and> fits 1 (sta_proxy_networking_capability r)
     \<and> fits 1 (sta_backup_bm_capability r) \<and> fits 1 (sta_bm_status r)
     \<and> fits 1 (sta_pbm_status r) \<and> fits 1 (sta_backup_bm_status r)"

lemmas station_information_defs = sizeof_station_information_def station_information_of_def
  station_information_bytes_def wf_station_information_def

lemma bytes_station_information: "length bs = 12 \<Longrightarrow>
  bs = take 6 bs @ [bs ! 6, bs ! 7, bs ! 8, bs ! 9, bs ! 10, bs ! 11]"
  by (auto simp: explode_list)

interpretation sta: wire_layout sizeof_station_information station_information_of
  station_information_bytes wf_station_information
proof unfold_locales
  fix r :: station_information
  assume wf: "wf_station_information r"
  show "station_information_of (station_information_bytes r) = r"
    using wf by (simp add: station_information_defs nth_append wire_simps del: One_nat_def)
next
  fix bs :: bytes
  assume len: "length bs = sizeof_station_information"
  then show "station_information_bytes (station_information_of bs) = bs"
    using bytes_station_information [of bs] by (simp add: station_information_defs wire_simps del: One_nat_def)
qed (simp_all add: station_information_defs wire_simps del: One_nat_def)

section \<open>MM_L2_Header (14 bytes)\<close>

record MM_L2_Header =
  l2_oda :: bytes
  l2_osa :: bytes
  l2_mtype :: u16

definition sizeof_MM_L2_Header :: nat where
  "sizeof_MM_L2_Header = 14"

definition MM_L2_Header_of :: "bytes \<Rightarrow> MM_L2_Header" where
  "MM_L2_Header_of bs = \<lparr>
     l2_oda = take 6 bs,
     l2_osa = take 6 (drop 6 bs),
     l2_mtype = u16_at bs 12\<rparr>"

definition MM_L2_Header_bytes :: "MM_L2_Header \<Rightarrow> bytes" where
  "MM_L2_Header_bytes r =
     l2_oda r
     @ l2_osa r
     @ le16_bytes (l2_mtype r)"

definition wf_MM_L2_Header :: "MM_L2_Header \<Rightarrow> bool" where
  "wf_MM_L2_Header r \<longleftrightarrow> length (l2_oda r) = 6 \<and> length (l2_osa r) = 6"

lemmas MM_L2_Header_defs = sizeof_MM_L2_Header_def MM_L2_Header_of_def
  MM_L2_Header_bytes_def wf_MM_L2_Header_def

lemma bytes_MM_L2_Header: "length bs = 14 \<Longrightarrow>
  bs = take 6 bs @ take 6 (drop 6 bs) @ [bs ! 12, bs ! 13]"
  by (auto simp: explode_list)

interpretation l2h: wire_layout sizeof_MM_L2_Header MM_L2_Header_of
  MM_L2_Header_bytes wf_MM_L2_Header
proof unfold_locales
  fix r :: MM_L2_Header
  assume wf: "wf_MM_L2_Header r"
  show "MM_L2_Header_of (MM_L2_Header_bytes r) = r"
    using wf by (simp add: MM_L2_Header_defs nth_append wire_simps del: One_nat_def)
next
  fix bs :: bytes
  assume len: "length bs = sizeof_MM_L2_Header"
  then show "MM_L2_Header_bytes (MM_L2_Header_of bs) = bs"
    using bytes_MM_L2_Header [of bs] by (simp add: MM_L2_Header_defs wire_simps del: One_nat_def)
qed (simp_all add: MM_L2_Header_defs wire_simps del: One_nat_def)


section \<open>MM_APDU_Header (3 bytes)\<close>

record MM_APDU_Header =
  ah_mmv :: u8
  ah_mmtype :: u16

definition sizeof_MM_APDU_Header :: nat where
  "sizeof_MM_APDU_Header = 3"

definition MM_APDU_Header_of :: "bytes \<Rightarrow> MM_APDU_Header" where
  "MM_APDU_Header_of bs = \<lparr>
     ah_mmv = bs ! 0,
     ah_mmtype = u16_at bs 1\<rparr>"

definition MM_APDU_Header_bytes :: "MM_APDU_Header \<Rightarrow> bytes" where
  "MM_APDU_Header_bytes r =
     [ah_mmv r]
     @ le16_bytes (ah_mmtype r)"

definition wf_MM_APDU_Header :: "MM_APDU_Header \<Rightarrow> bool" where
  "wf_MM_APDU_Header r \<longleftrightarrow> True"

lemmas MM_APDU_Header_defs = sizeof_MM_APDU_Header_def MM_APDU_Header_of_def
  MM_APDU_Header_bytes_def wf_MM_APDU_Header_def

lemma bytes_MM_APDU_Header: "length bs = 3 \<Longrightarrow>
  bs = [bs ! 0, bs ! 1, bs ! 2]"
  by (auto simp: explode_list)

interpretation ah: wire_layout sizeof_MM_APDU_Header MM_APDU_Header_of
  MM_APDU_Header_bytes wf_MM_APDU_Header
proof unfold_locales
  fix r :: MM_APDU_Header
  assume wf: "wf_MM_APDU_Header r"
  show "MM_APDU_Header_of (MM_APDU_Header_bytes r) = r"
    using wf by (simp add: MM_APDU_Header_defs nth_append wire_simps del: One_nat_def)
next
  fix bs :: bytes
  assume len: "length bs = sizeof_MM_APDU_Header"
  then show "MM_APDU_Header_bytes (MM_APDU_Header_of bs) = bs"
    using bytes_MM_APDU_Header [of bs] by (simp add: MM_APDU_Header_defs wire_simps del: One_nat_def)
qed (simp_all add: MM_APDU_Header_defs wire_simps del: One_nat_def)


section \<open>ieee1901_2010_network_information (13 bytes)\<close>

record network_information =
  net_nid :: bytes
  net_snid :: u8
  net_access :: u8
  net_hm :: u8
  net_num_slots :: u8
  net_coordinating_status :: u8
  net_offset :: u16

definition sizeof_network_information :: nat where
  "sizeof_network_information = 13"

definition network_information_of :: "bytes \<Rightarrow> network_information" where
  "network_information_of bs = \<lparr>
     net_nid = take 7 bs,
     net_snid = bitfield 0 4 (bs ! 7),
     net_access = bitfield 4 4 (bs ! 7),
     net_hm = bs ! 8,
     net_num_slots = bs ! 9,
     net_coordinating_status = bs ! 10,
     net_offset = u16_at bs 11\<rparr>"

definition network_information_bytes :: "network_information \<Rightarrow> bytes" where
  "network_information_bytes r =
     net_nid r
     @ [nibbles (net_snid r) (net_access r), net_hm r, net_num_slots r, net_coordinating_status r]
     @ le16_bytes (net_offset r)"

definition wf_network_information :: "network_information \<Rightarrow> bool" where
  "wf_network_information r \<longleftrightarrow> length (net_nid r) = 7 \<and> fits 4 (net_snid r) \<and> fits 4 (net_access r)"

lemmas network_information_defs = sizeof_network_information_def network_information_of_def
  network_information_bytes_def wf_network_information_def

lemma bytes_network_information: "length bs = 13 \<Longrightarrow>
  bs = take 7 bs @ [bs ! 7, bs ! 8, bs ! 9, bs ! 10, bs ! 11, bs ! 12]"
  by (auto simp: explode_list)

interpretation net: wire_layout sizeof_network_information network_information_of
  network_information_bytes wf_network_information
proof unfold_locales
  fix r :: network_information
  assume wf: "wf_network_information r"
  show "network_information_of (network_information_bytes r) = r"
    using wf by (simp add: network_information_defs nth_append wire_simps del: One_nat_def)
next
  fix bs :: bytes
  assume len: "length bs = sizeof_network_information"
  then show "network_information_bytes (network_information_of bs) = bs"
    using bytes_network_information [of bs] by (simp add: network_information_defs wire_simps del: One_nat_def)
qed (simp_all add: network_information_defs wire_simps del: One_nat_def)


section \<open>ieee1901_2010_nwinfo (18 bytes)\<close>

text \<open>
  \<open>snid\<close> takes four bits of a byte of its own; the other four are padding, kept here as a field of the
  object representation.
\<close>

record nwinfo =
  nwi_nid :: bytes
  nwi_snid :: u8
  nwi_snid_padding :: u8
  nwi_tei :: u8
  nwi_station_role :: u8
  nwi_bm_mac :: bytes
  nwi_access :: u8
  nwi_num_cord_nws :: u8

definition sizeof_nwinfo :: nat where
  "sizeof_nwinfo = 18"

definition nwinfo_of :: "bytes \<Rightarrow> nwinfo" where
  "nwinfo_of bs = \<lparr>
     nwi_nid = take 7 bs,
     nwi_snid = bitfield 0 4 (bs ! 7),
     nwi_snid_padding = bitfield 4 4 (bs ! 7),
     nwi_tei = bs ! 8,
     nwi_station_role = bs ! 9,
     nwi_bm_mac = take 6 (drop 10 bs),
     nwi_access = bs ! 16,
     nwi_num_cord_nws = bs ! 17\<rparr>"

definition nwinfo_bytes :: "nwinfo \<Rightarrow> bytes" where
  "nwinfo_bytes r =
     nwi_nid r
     @ [nibbles (nwi_snid r) (nwi_snid_padding r), nwi_tei r, nwi_station_role r]
     @ nwi_bm_mac r
     @ [nwi_access r, nwi_num_cord_nws r]"

definition wf_nwinfo :: "nwinfo \<Rightarrow> bool" where
  "wf_nwinfo r \<longleftrightarrow> length (nwi_nid r) = 7 \<and> fits 4 (nwi_snid r) \<and> fits 4 (nwi_snid_padding r) \<and> length (nwi_bm_mac r) = 6"

lemmas nwinfo_defs = sizeof_nwinfo_def nwinfo_of_def
  nwinfo_bytes_def wf_nwinfo_def

lemma bytes_nwinfo: "length bs = 18 \<Longrightarrow>
  bs = take 7 bs @ [bs ! 7, bs ! 8, bs ! 9] @ take 6 (drop 10 bs) @ [bs ! 16, bs ! 17]"
  by (auto simp: explode_list)

interpretation nwi: wire_layout sizeof_nwinfo nwinfo_of
  nwinfo_bytes wf_nwinfo
proof unfold_locales
  fix r :: nwinfo
  assume wf: "wf_nwinfo r"
  show "nwinfo_of (nwinfo_bytes r) = r"
    using wf by (simp add: nwinfo_defs nth_append wire_simps del: One_nat_def)
next
  fix bs :: bytes
  assume len: "length bs = sizeof_nwinfo"
  then show "nwinfo_bytes (nwinfo_of bs) = bs"
    using bytes_nwinfo [of bs] by (simp add: nwinfo_defs wire_simps del: One_nat_def)
qed (simp_all add: nwinfo_defs wire_simps del: One_nat_def)


section \<open>ieee1901_2010_stats (8 bytes)\<close>

record nw_stats =
  nws_da :: bytes
  nws_avg_pgy_tx :: u8
  nws_avg_pgy_rx :: u8

definition sizeof_nw_stats :: nat where
  "sizeof_nw_stats = 8"

definition nw_stats_of :: "bytes \<Rightarrow> nw_stats" where
  "nw_stats_of bs = \<lparr>
     nws_da = take 6 bs,
     nws_avg_pgy_tx = bs ! 6,
     nws_avg_pgy_rx = bs ! 7\<rparr>"

definition nw_stats_bytes :: "nw_stats \<Rightarrow> bytes" where
  "nw_stats_bytes r =
     nws_da r
     @ [nws_avg_pgy_tx r, nws_avg_pgy_rx r]"

definition wf_nw_stats :: "nw_stats \<Rightarrow> bool" where
  "wf_nw_stats r \<longleftrightarrow> length (nws_da r) = 6"

lemmas nw_stats_defs = sizeof_nw_stats_def nw_stats_of_def
  nw_stats_bytes_def wf_nw_stats_def

lemma bytes_nw_stats: "length bs = 8 \<Longrightarrow>
  bs = take 6 bs @ [bs ! 6, bs ! 7]"
  by (auto simp: explode_list)

interpretation nws: wire_layout sizeof_nw_stats nw_stats_of
  nw_stats_bytes wf_nw_stats
proof unfold_locales
  fix r :: nw_stats
  assume wf: "wf_nw_stats r"
  show "nw_stats_of (nw_stats_bytes r) = r"
    using wf by (simp add: nw_stats_defs nth_append wire_simps del: One_nat_def)
next
  fix bs :: bytes
  assume len: "length bs = sizeof_nw_stats"
  then show "nw_stats_bytes (nw_stats_of bs) = bs"
    using bytes_nw_stats [of bs] by (simp add: nw_stats_defs wire_simps del: One_nat_def)
qed (simp_all add: nw_stats_defs wire_simps del: One_nat_def)


section \<open>ieee1901_2010_cm_link_stats_request (18 bytes)\<close>

record link_stats_request =
  lsr_req_type :: u8
  lsr_req_id :: u8
  lsr_nid :: bytes
  lsr_lid :: u8
  lsr_tl_flag :: u8
  lsr_mgmt_flag :: u8
  lsr_da_sa :: bytes

definition sizeof_link_stats_request :: nat where
  "sizeof_link_stats_request = 18"

definition link_stats_request_of :: "bytes \<Rightarrow> link_stats_request" where
  "link_stats_request_of bs = \<lparr>
     lsr_req_type = bs ! 0,
     lsr_req_id = bs ! 1,
     lsr_nid = take 7 (drop 2 bs),
     lsr_lid = bs ! 9,
     lsr_tl_flag = bs ! 10,
     lsr_mgmt_flag = bs ! 11,
     lsr_da_sa = take 6 (drop 12 bs)\<rparr>"

definition link_stats_request_bytes :: "link_stats_request \<Rightarrow> bytes" where
  "link_stats_request_bytes r =
     [lsr_req_type r, lsr_req_id r]
     @ lsr_nid r
     @ [lsr_lid r, lsr_tl_flag r, lsr_mgmt_flag r]
     @ lsr_da_sa r"

definition wf_link_stats_request :: "link_stats_request \<Rightarrow> bool" where
  "wf_link_stats_request r \<longleftrightarrow> length (lsr_nid r) = 7 \<and> length (lsr_da_sa r) = 6"

lemmas link_stats_request_defs = sizeof_link_stats_request_def link_stats_request_of_def
  link_stats_request_bytes_def wf_link_stats_request_def

lemma bytes_link_stats_request: "length bs = 18 \<Longrightarrow>
  bs = [bs ! 0, bs ! 1] @ take 7 (drop 2 bs) @ [bs ! 9, bs ! 10, bs ! 11] @ take 6 (drop 12 bs)"
  by (auto simp: explode_list)

interpretation lsr: wire_layout sizeof_link_stats_request link_stats_request_of
  link_stats_request_bytes wf_link_stats_request
proof unfold_locales
  fix r :: link_stats_request
  assume wf: "wf_link_stats_request r"
  show "link_stats_request_of (link_stats_request_bytes r) = r"
    using wf by (simp add: link_stats_request_defs nth_append wire_simps del: One_nat_def)
next
  fix bs :: bytes
  assume len: "length bs = sizeof_link_stats_request"
  then show "link_stats_request_bytes (link_stats_request_of bs) = bs"
    using bytes_link_stats_request [of bs] by (simp add: link_stats_request_defs wire_simps del: One_nat_def)
qed (simp_all add: link_stats_request_defs wire_simps del: One_nat_def)


section \<open>ieee1901_2010_cm_link_stats_confirm_head (2 bytes)\<close>

record link_stats_confirm_head =
  lsh_req_id :: u8
  lsh_rsp_type :: u8

definition sizeof_link_stats_confirm_head :: nat where
  "sizeof_link_stats_confirm_head = 2"

definition link_stats_confirm_head_of :: "bytes \<Rightarrow> link_stats_confirm_head" where
  "link_stats_confirm_head_of bs = \<lparr>
     lsh_req_id = bs ! 0,
     lsh_rsp_type = bs ! 1\<rparr>"

definition link_stats_confirm_head_bytes :: "link_stats_confirm_head \<Rightarrow> bytes" where
  "link_stats_confirm_head_bytes r =
     [lsh_req_id r, lsh_rsp_type r]"

definition wf_link_stats_confirm_head :: "link_stats_confirm_head \<Rightarrow> bool" where
  "wf_link_stats_confirm_head r \<longleftrightarrow> True"

lemmas link_stats_confirm_head_defs = sizeof_link_stats_confirm_head_def link_stats_confirm_head_of_def
  link_stats_confirm_head_bytes_def wf_link_stats_confirm_head_def

lemma bytes_link_stats_confirm_head: "length bs = 2 \<Longrightarrow>
  bs = [bs ! 0, bs ! 1]"
  by (auto simp: explode_list)

interpretation lsh: wire_layout sizeof_link_stats_confirm_head link_stats_confirm_head_of
  link_stats_confirm_head_bytes wf_link_stats_confirm_head
proof unfold_locales
  fix r :: link_stats_confirm_head
  assume wf: "wf_link_stats_confirm_head r"
  show "link_stats_confirm_head_of (link_stats_confirm_head_bytes r) = r"
    using wf by (simp add: link_stats_confirm_head_defs nth_append wire_simps del: One_nat_def)
next
  fix bs :: bytes
  assume len: "length bs = sizeof_link_stats_confirm_head"
  then show "link_stats_confirm_head_bytes (link_stats_confirm_head_of bs) = bs"
    using bytes_link_stats_confirm_head [of bs] by (simp add: link_stats_confirm_head_defs wire_simps del: One_nat_def)
qed (simp_all add: link_stats_confirm_head_defs wire_simps del: One_nat_def)


section \<open>ieee1901_2010_cm_link_stats_transmit_confirm (39 bytes)\<close>

record link_stats_transmit_confirm =
  lst_beacon_period_cnt :: u16
  lst_tx_num_msduds :: u32
  lst_tx_octets :: u32
  lst_tx_num_segs :: u32
  lst_tx_num_seg_suc :: u32
  lst_tx_num_seg_dropped :: u32
  lst_tx_num_pbs :: u32
  lst_tx_num_mpdus :: u32
  lst_tx_num_bursts :: u32
  lst_tx_num_sacks :: u32
  lst_num_lat_bins :: u8

definition sizeof_link_stats_transmit_confirm :: nat where
  "sizeof_link_stats_transmit_confirm = 39"

definition link_stats_transmit_confirm_of :: "bytes \<Rightarrow> link_stats_transmit_confirm" where
  "link_stats_transmit_confirm_of bs = \<lparr>
     lst_beacon_period_cnt = u16_at bs 0,
     lst_tx_num_msduds = u32_at bs 2,
     lst_tx_octets = u32_at bs 6,
     lst_tx_num_segs = u32_at bs 10,
     lst_tx_num_seg_suc = u32_at bs 14,
     lst_tx_num_seg_dropped = u32_at bs 18,
     lst_tx_num_pbs = u32_at bs 22,
     lst_tx_num_mpdus = u32_at bs 26,
     lst_tx_num_bursts = u32_at bs 30,
     lst_tx_num_sacks = u32_at bs 34,
     lst_num_lat_bins = bs ! 38\<rparr>"

definition link_stats_transmit_confirm_bytes :: "link_stats_transmit_confirm \<Rightarrow> bytes" where
  "link_stats_transmit_confirm_bytes r =
     le16_bytes (lst_beacon_period_cnt r)
     @ le32_bytes (lst_tx_num_msduds r)
     @ le32_bytes (lst_tx_octets r)
     @ le32_bytes (lst_tx_num_segs r)
     @ le32_bytes (lst_tx_num_seg_suc r)
     @ le32_bytes (lst_tx_num_seg_dropped r)
     @ le32_bytes (lst_tx_num_pbs r)
     @ le32_bytes (lst_tx_num_mpdus r)
     @ le32_bytes (lst_tx_num_bursts r)
     @ le32_bytes (lst_tx_num_sacks r)
     @ [lst_num_lat_bins r]"

definition wf_link_stats_transmit_confirm :: "link_stats_transmit_confirm \<Rightarrow> bool" where
  "wf_link_stats_transmit_confirm r \<longleftrightarrow> True"

lemmas link_stats_transmit_confirm_defs = sizeof_link_stats_transmit_confirm_def link_stats_transmit_confirm_of_def
  link_stats_transmit_confirm_bytes_def wf_link_stats_transmit_confirm_def

lemma bytes_link_stats_transmit_confirm: "length bs = 39 \<Longrightarrow>
  bs = [bs ! 0, bs ! 1, bs ! 2, bs ! 3, bs ! 4, bs ! 5, bs ! 6, bs ! 7, bs ! 8, bs ! 9, bs ! 10, bs
    ! 11, bs ! 12, bs ! 13, bs ! 14, bs ! 15, bs ! 16, bs ! 17, bs ! 18, bs ! 19, bs ! 20, bs !
    21, bs ! 22, bs ! 23, bs ! 24, bs ! 25, bs ! 26, bs ! 27, bs ! 28, bs ! 29, bs ! 30, bs !
    31, bs ! 32, bs ! 33, bs ! 34, bs ! 35, bs ! 36, bs ! 37, bs ! 38]"
  by (auto simp: explode_list)

interpretation lst: wire_layout sizeof_link_stats_transmit_confirm link_stats_transmit_confirm_of
  link_stats_transmit_confirm_bytes wf_link_stats_transmit_confirm
proof unfold_locales
  fix r :: link_stats_transmit_confirm
  assume wf: "wf_link_stats_transmit_confirm r"
  show "link_stats_transmit_confirm_of (link_stats_transmit_confirm_bytes r) = r"
    using wf by (simp add: link_stats_transmit_confirm_defs nth_append wire_simps del: One_nat_def)
next
  fix bs :: bytes
  assume len: "length bs = sizeof_link_stats_transmit_confirm"
  then show "link_stats_transmit_confirm_bytes (link_stats_transmit_confirm_of bs) = bs"
    using bytes_link_stats_transmit_confirm [of bs] by (simp add: link_stats_transmit_confirm_defs wire_simps del: One_nat_def)
qed (simp_all add: link_stats_transmit_confirm_defs wire_simps del: One_nat_def)


section \<open>ieee1901_2010_cm_link_stats_receive_confirm (34 bytes)\<close>

record link_stats_receive_confirm =
  lrc_beacon_period_cnt :: u16
  lrc_rx_num_msduds :: u32
  lrc_rx_octets :: u32
  lrc_rx_num_seg_suc :: u32
  lrc_rx_num_seg_missed :: u32
  lrc_rx_num_pbs :: u32
  lrc_rx_num_bursts :: u32
  lrc_rx_num_mpdus :: u32
  lrc_num_icv_fails :: u32

definition sizeof_link_stats_receive_confirm :: nat where
  "sizeof_link_stats_receive_confirm = 34"

definition link_stats_receive_confirm_of :: "bytes \<Rightarrow> link_stats_receive_confirm" where
  "link_stats_receive_confirm_of bs = \<lparr>
     lrc_beacon_period_cnt = u16_at bs 0,
     lrc_rx_num_msduds = u32_at bs 2,
     lrc_rx_octets = u32_at bs 6,
     lrc_rx_num_seg_suc = u32_at bs 10,
     lrc_rx_num_seg_missed = u32_at bs 14,
     lrc_rx_num_pbs = u32_at bs 18,
     lrc_rx_num_bursts = u32_at bs 22,
     lrc_rx_num_mpdus = u32_at bs 26,
     lrc_num_icv_fails = u32_at bs 30\<rparr>"

definition link_stats_receive_confirm_bytes :: "link_stats_receive_confirm \<Rightarrow> bytes" where
  "link_stats_receive_confirm_bytes r =
     le16_bytes (lrc_beacon_period_cnt r)
     @ le32_bytes (lrc_rx_num_msduds r)
     @ le32_bytes (lrc_rx_octets r)
     @ le32_bytes (lrc_rx_num_seg_suc r)
     @ le32_bytes (lrc_rx_num_seg_missed r)
     @ le32_bytes (lrc_rx_num_pbs r)
     @ le32_bytes (lrc_rx_num_bursts r)
     @ le32_bytes (lrc_rx_num_mpdus r)
     @ le32_bytes (lrc_num_icv_fails r)"

definition wf_link_stats_receive_confirm :: "link_stats_receive_confirm \<Rightarrow> bool" where
  "wf_link_stats_receive_confirm r \<longleftrightarrow> True"

lemmas link_stats_receive_confirm_defs = sizeof_link_stats_receive_confirm_def link_stats_receive_confirm_of_def
  link_stats_receive_confirm_bytes_def wf_link_stats_receive_confirm_def

lemma bytes_link_stats_receive_confirm: "length bs = 34 \<Longrightarrow>
  bs = [bs ! 0, bs ! 1, bs ! 2, bs ! 3, bs ! 4, bs ! 5, bs ! 6, bs ! 7, bs ! 8, bs ! 9, bs ! 10, bs
    ! 11, bs ! 12, bs ! 13, bs ! 14, bs ! 15, bs ! 16, bs ! 17, bs ! 18, bs ! 19, bs ! 20, bs !
    21, bs ! 22, bs ! 23, bs ! 24, bs ! 25, bs ! 26, bs ! 27, bs ! 28, bs ! 29, bs ! 30, bs !
    31, bs ! 32, bs ! 33]"
  by (auto simp: explode_list)

interpretation lrc: wire_layout sizeof_link_stats_receive_confirm link_stats_receive_confirm_of
  link_stats_receive_confirm_bytes wf_link_stats_receive_confirm
proof unfold_locales
  fix r :: link_stats_receive_confirm
  assume wf: "wf_link_stats_receive_confirm r"
  show "link_stats_receive_confirm_of (link_stats_receive_confirm_bytes r) = r"
    using wf by (simp add: link_stats_receive_confirm_defs nth_append wire_simps del: One_nat_def)
next
  fix bs :: bytes
  assume len: "length bs = sizeof_link_stats_receive_confirm"
  then show "link_stats_receive_confirm_bytes (link_stats_receive_confirm_of bs) = bs"
    using bytes_link_stats_receive_confirm [of bs] by (simp add: link_stats_receive_confirm_defs wire_simps del: One_nat_def)
qed (simp_all add: link_stats_receive_confirm_defs wire_simps del: One_nat_def)


section \<open>MM_APDU_Standard_Header (19 bytes)\<close>

record MM_APDU_Standard_Header =
  sh_l2 :: MM_L2_Header
  sh_apdu_hdr :: MM_APDU_Header
  sh_nf_mi :: u8
  sh_fn_mi :: u8
  sh_fmsn :: u8

definition sizeof_MM_APDU_Standard_Header :: nat where
  "sizeof_MM_APDU_Standard_Header = 19"

definition MM_APDU_Standard_Header_of :: "bytes \<Rightarrow> MM_APDU_Standard_Header" where
  "MM_APDU_Standard_Header_of bs = \<lparr>
     sh_l2 = MM_L2_Header_of (take 14 bs),
     sh_apdu_hdr = MM_APDU_Header_of (take 3 (drop 14 bs)),
     sh_nf_mi = bitfield 0 4 (bs ! 17),
     sh_fn_mi = bitfield 4 4 (bs ! 17),
     sh_fmsn = bs ! 18\<rparr>"

definition MM_APDU_Standard_Header_bytes :: "MM_APDU_Standard_Header \<Rightarrow> bytes" where
  "MM_APDU_Standard_Header_bytes r = MM_L2_Header_bytes (sh_l2 r)
     @ MM_APDU_Header_bytes (sh_apdu_hdr r)
     @ [nibbles (sh_nf_mi r) (sh_fn_mi r), sh_fmsn r]"

definition wf_MM_APDU_Standard_Header :: "MM_APDU_Standard_Header \<Rightarrow> bool" where
  "wf_MM_APDU_Standard_Header r \<longleftrightarrow> wf_MM_L2_Header (sh_l2 r)
     \<and> wf_MM_APDU_Header (sh_apdu_hdr r) \<and> fits 4 (sh_nf_mi r) \<and> fits 4 (sh_fn_mi r)"

lemmas MM_APDU_Standard_Header_defs = sizeof_MM_APDU_Standard_Header_def
  MM_APDU_Standard_Header_of_def MM_APDU_Standard_Header_bytes_def wf_MM_APDU_Standard_Header_def

lemmas nested_header_sizes =
  l2h.length_enc [unfolded sizeof_MM_L2_Header_def]
  ah.length_enc [unfolded sizeof_MM_APDU_Header_def]

lemma bytes_MM_APDU_Standard_Header: "length bs = 19 \<Longrightarrow>
  bs = take 14 bs @ take 3 (drop 14 bs) @ [bs ! 17, bs ! 18]"
  by (auto simp: explode_list)

interpretation sh: wire_layout sizeof_MM_APDU_Standard_Header MM_APDU_Standard_Header_of
  MM_APDU_Standard_Header_bytes wf_MM_APDU_Standard_Header
proof unfold_locales
  fix r :: MM_APDU_Standard_Header
  assume wf: "wf_MM_APDU_Standard_Header r"
  then show "MM_APDU_Standard_Header_of (MM_APDU_Standard_Header_bytes r) = r"
    by (simp add: MM_APDU_Standard_Header_defs nth_append wire_simps nested_header_sizes
        l2h.dec_enc ah.dec_enc)
next
  fix bs :: bytes
  assume len: "length bs = sizeof_MM_APDU_Standard_Header"
  then have "MM_L2_Header_bytes (MM_L2_Header_of (take 14 bs)) = take 14 bs"
    and "MM_APDU_Header_bytes (MM_APDU_Header_of (take 3 (drop 14 bs))) = take 3 (drop 14 bs)"
    by (simp_all add: MM_APDU_Standard_Header_defs l2h.enc_dec ah.enc_dec
        sizeof_MM_L2_Header_def sizeof_MM_APDU_Header_def)
  with len show "MM_APDU_Standard_Header_bytes (MM_APDU_Standard_Header_of bs) = bs"
    using bytes_MM_APDU_Standard_Header [of bs]
    by (simp add: MM_APDU_Standard_Header_defs wire_simps)
qed (simp_all add: MM_APDU_Standard_Header_defs wire_simps nested_header_sizes l2h.wf_dec ah.wf_dec
    sizeof_MM_L2_Header_def sizeof_MM_APDU_Header_def)


section \<open>MM_APDU_Vendor_Header (20 bytes)\<close>

text \<open>The header for \<open>ieee1901_2010_vendor_message_send\<close>, which is not implemented yet.\<close>

record MM_APDU_Vendor_Header =
  vh_l2 :: MM_L2_Header
  vh_apdu_hdr :: MM_APDU_Header
  vh_oui :: bytes

definition sizeof_MM_APDU_Vendor_Header :: nat where
  "sizeof_MM_APDU_Vendor_Header = 20"

definition MM_APDU_Vendor_Header_of :: "bytes \<Rightarrow> MM_APDU_Vendor_Header" where
  "MM_APDU_Vendor_Header_of bs = \<lparr>
     vh_l2 = MM_L2_Header_of (take 14 bs),
     vh_apdu_hdr = MM_APDU_Header_of (take 3 (drop 14 bs)),
     vh_oui = take 3 (drop 17 bs)\<rparr>"

definition MM_APDU_Vendor_Header_bytes :: "MM_APDU_Vendor_Header \<Rightarrow> bytes" where
  "MM_APDU_Vendor_Header_bytes r = MM_L2_Header_bytes (vh_l2 r)
     @ MM_APDU_Header_bytes (vh_apdu_hdr r) @ vh_oui r"

definition wf_MM_APDU_Vendor_Header :: "MM_APDU_Vendor_Header \<Rightarrow> bool" where
  "wf_MM_APDU_Vendor_Header r \<longleftrightarrow> wf_MM_L2_Header (vh_l2 r)
     \<and> wf_MM_APDU_Header (vh_apdu_hdr r) \<and> length (vh_oui r) = 3"

lemmas MM_APDU_Vendor_Header_defs = sizeof_MM_APDU_Vendor_Header_def
  MM_APDU_Vendor_Header_of_def MM_APDU_Vendor_Header_bytes_def wf_MM_APDU_Vendor_Header_def

interpretation vh: wire_layout sizeof_MM_APDU_Vendor_Header MM_APDU_Vendor_Header_of
  MM_APDU_Vendor_Header_bytes wf_MM_APDU_Vendor_Header
proof unfold_locales
  fix r :: MM_APDU_Vendor_Header
  assume wf: "wf_MM_APDU_Vendor_Header r"
  then show "MM_APDU_Vendor_Header_of (MM_APDU_Vendor_Header_bytes r) = r"
    by (simp add: MM_APDU_Vendor_Header_defs nested_header_sizes l2h.dec_enc ah.dec_enc)
next
  fix bs :: bytes
  assume len: "length bs = sizeof_MM_APDU_Vendor_Header"
  then have "MM_L2_Header_bytes (MM_L2_Header_of (take 14 bs)) = take 14 bs"
    and "MM_APDU_Header_bytes (MM_APDU_Header_of (take 3 (drop 14 bs))) = take 3 (drop 14 bs)"
    by (simp_all add: MM_APDU_Vendor_Header_defs l2h.enc_dec ah.enc_dec
        sizeof_MM_L2_Header_def sizeof_MM_APDU_Header_def)
  with len show "MM_APDU_Vendor_Header_bytes (MM_APDU_Vendor_Header_of bs) = bs"
    using append_take_drop_id [of 14 bs] append_take_drop_id [of 3 "drop 14 bs"]
    by (simp add: MM_APDU_Vendor_Header_defs)
qed (simp_all add: MM_APDU_Vendor_Header_defs nested_header_sizes l2h.wf_dec ah.wf_dec
    sizeof_MM_L2_Header_def sizeof_MM_APDU_Header_def)


section \<open>ieee1901_2010_cm_link_stats_transmit_confirm_lat_bins (1021 bytes)\<close>

text \<open>The array is a sequence of words, which are structs of one field.\<close>

interpretation u32w: wire_layout 4 "\<lambda>bs. u32_at bs 0" le32_bytes "\<lambda>_. True"
proof unfold_locales
  fix bs :: bytes
  assume "length bs = 4"
  then show "le32_bytes (u32_at bs 0) = bs"
    by (auto simp: le_bytes_at explode_list)
qed (simp_all add: wire_simps)

record link_stats_lat_bins =
  lat_bin_gran :: u8
  lat_bin :: "u32 list"

definition sizeof_link_stats_lat_bins :: nat where
  "sizeof_link_stats_lat_bins = 1021"

definition link_stats_lat_bins_of :: "bytes \<Rightarrow> link_stats_lat_bins" where
  "link_stats_lat_bins_of bs = \<lparr>
     lat_bin_gran = bs ! 0,
     lat_bin = records_of 4 (\<lambda>bs. u32_at bs 0) 255 (drop 1 bs)\<rparr>"

definition link_stats_lat_bins_bytes :: "link_stats_lat_bins \<Rightarrow> bytes" where
  "link_stats_lat_bins_bytes r = lat_bin_gran r # concat (map le32_bytes (lat_bin r))"

definition wf_link_stats_lat_bins :: "link_stats_lat_bins \<Rightarrow> bool" where
  "wf_link_stats_lat_bins r \<longleftrightarrow> length (lat_bin r) = 255"

lemmas link_stats_lat_bins_defs = sizeof_link_stats_lat_bins_def
  link_stats_lat_bins_of_def link_stats_lat_bins_bytes_def wf_link_stats_lat_bins_def

interpretation lbn: wire_layout sizeof_link_stats_lat_bins link_stats_lat_bins_of
  link_stats_lat_bins_bytes wf_link_stats_lat_bins
proof unfold_locales
  fix r :: link_stats_lat_bins
  assume wf: "wf_link_stats_lat_bins r"
  show "link_stats_lat_bins_of (link_stats_lat_bins_bytes r) = r"
    using wf u32w.records_of_concat_enc [of "lat_bin r" "[]"]
    by (simp add: link_stats_lat_bins_defs del: records_of.simps)
  show "length (link_stats_lat_bins_bytes r) = sizeof_link_stats_lat_bins"
    using wf u32w.length_concat_enc [of "lat_bin r"] by (simp add: link_stats_lat_bins_defs)
next
  fix bs :: bytes
  assume len: "length bs = sizeof_link_stats_lat_bins"
  then obtain b cs where bs: "bs = b # cs" "length cs = 255 * 4"
    by (cases bs) (simp_all add: sizeof_link_stats_lat_bins_def)
  show "link_stats_lat_bins_bytes (link_stats_lat_bins_of bs) = bs"
    using bs u32w.concat_enc_records_of [of 255 cs]
    by (simp add: link_stats_lat_bins_defs del: records_of.simps)
  show "wf_link_stats_lat_bins (link_stats_lat_bins_of bs)"
    using bs length_records_of_full [of 255 4 cs]
    by (simp add: link_stats_lat_bins_defs del: records_of.simps)
qed (simp add: sizeof_link_stats_lat_bins_def)

end
