(* ===== verification/Ieee_Handler.thy ===== *)
theory Ieee_Handler
  imports Mm_Types Wire_Structs
begin

text \<open>
  The receiving half of \<^verbatim>\<open>src/ieee1901-2010.c\<close>: the context with the registered callbacks, the
  registration functions, \<open>ieee1901_2010_handle_message\<close> and the four parsers it dispatches to.

  A callback is a function pointer of type \<open>'f\<close> (\<^term>\<open>None\<close> for \<open>NULL\<close>) with its \<open>usr_data\<close> pointer
  \<open>'u option\<close>. Handling a message yields the list of the callback invocations in their order, each with
  the function, the sender's address, the struct the data pointer points to and the user data, together
  with the return code; the applications interpret the invocations. The callbacks of the programs do not
  register or unregister callbacks, so the context is constant while a message is handled.

  \<^term>\<open>None\<close> as a whole result is an access outside the received buffer. Sizes and the counter
  \<open>remaining_size\<close> are kept at their C width.
\<close>

section \<open>The context\<close>

record ('f, 'u) ieee1901_2010_ctx =
  cc_discover_list_confirm_station_information_cb :: "'f option"
  cc_discover_list_confirm_station_information_cb_data :: "'u option"
  cc_discover_list_confirm_network_information_cb :: "'f option"
  cc_discover_list_confirm_network_information_cb_data :: "'u option"
  cm_nw_info_confirm_nwinfo_cb :: "'f option"
  cm_nw_info_confirm_nwinfo_cb_data :: "'u option"
  cm_nw_stats_confirm_stats_cb :: "'f option"
  cm_nw_stats_confirm_stats_cb_data :: "'u option"
  cm_link_stats_confirm_stats_cb :: "'f option"
  cm_link_stats_confirm_stats_cb_data :: "'u option"

datatype ('f, 'u) cb_call =
  Station_information_call 'f bytes station_information "'u option"
| Network_information_call 'f bytes network_information "'u option"
| Nwinfo_call 'f bytes nwinfo "'u option"
| Nw_stats_call 'f bytes nw_stats "'u option"
| Link_stats_call 'f bytes link_stats_confirm_head bytes u64 "'u option"

type_synonym ('f, 'u) handled = "(('f, 'u) cb_call list \<times> int) option"

text \<open>\<open>memset(ctx, 0, sizeof(*ctx))\<close>: every pointer is \<open>NULL\<close>.\<close>

definition zero_ctx :: "('f, 'u) ieee1901_2010_ctx" where
  "zero_ctx = \<lparr>
     cc_discover_list_confirm_station_information_cb = None,
     cc_discover_list_confirm_station_information_cb_data = None,
     cc_discover_list_confirm_network_information_cb = None,
     cc_discover_list_confirm_network_information_cb_data = None,
     cm_nw_info_confirm_nwinfo_cb = None,
     cm_nw_info_confirm_nwinfo_cb_data = None,
     cm_nw_stats_confirm_stats_cb = None,
     cm_nw_stats_confirm_stats_cb_data = None,
     cm_link_stats_confirm_stats_cb = None,
     cm_link_stats_confirm_stats_cb_data = None\<rparr>"

definition ieee1901_2010_init ::
  "('f, 'u) ieee1901_2010_ctx option \<Rightarrow> ('f, 'u) ieee1901_2010_ctx option \<times> int" where
  "ieee1901_2010_init ctx =
    (case ctx of None \<Rightarrow> (None, EXIT_FAILURE) | Some _ \<Rightarrow> (Some zero_ctx, EXIT_SUCCESS))"

definition ieee1901_2010_register_cc_discover_list_confirm_station_information_callback ::
  "('f, 'u) ieee1901_2010_ctx option \<Rightarrow> 'f option \<Rightarrow> 'u option
     \<Rightarrow> ('f, 'u) ieee1901_2010_ctx option \<times> int" where
  "ieee1901_2010_register_cc_discover_list_confirm_station_information_callback ctx cb usr_data =
    (case ctx of None \<Rightarrow> (None, EXIT_FAILURE)
     | Some c \<Rightarrow> (Some (c\<lparr>cc_discover_list_confirm_station_information_cb := cb,
         cc_discover_list_confirm_station_information_cb_data := usr_data\<rparr>), EXIT_SUCCESS))"

definition ieee1901_2010_register_cc_discover_list_confirm_network_information_callback ::
  "('f, 'u) ieee1901_2010_ctx option \<Rightarrow> 'f option \<Rightarrow> 'u option
     \<Rightarrow> ('f, 'u) ieee1901_2010_ctx option \<times> int" where
  "ieee1901_2010_register_cc_discover_list_confirm_network_information_callback ctx cb usr_data =
    (case ctx of None \<Rightarrow> (None, EXIT_FAILURE)
     | Some c \<Rightarrow> (Some (c\<lparr>cc_discover_list_confirm_network_information_cb := cb,
         cc_discover_list_confirm_network_information_cb_data := usr_data\<rparr>), EXIT_SUCCESS))"

definition ieee1901_2010_register_cm_nw_info_confirm_nwinfo_callback ::
  "('f, 'u) ieee1901_2010_ctx option \<Rightarrow> 'f option \<Rightarrow> 'u option
     \<Rightarrow> ('f, 'u) ieee1901_2010_ctx option \<times> int" where
  "ieee1901_2010_register_cm_nw_info_confirm_nwinfo_callback ctx cb usr_data =
    (case ctx of None \<Rightarrow> (None, EXIT_FAILURE)
     | Some c \<Rightarrow> (Some (c\<lparr>cm_nw_info_confirm_nwinfo_cb := cb,
         cm_nw_info_confirm_nwinfo_cb_data := usr_data\<rparr>), EXIT_SUCCESS))"

definition ieee1901_2010_register_cm_nw_stats_confirm_stats_callback ::
  "('f, 'u) ieee1901_2010_ctx option \<Rightarrow> 'f option \<Rightarrow> 'u option
     \<Rightarrow> ('f, 'u) ieee1901_2010_ctx option \<times> int" where
  "ieee1901_2010_register_cm_nw_stats_confirm_stats_callback ctx cb usr_data =
    (case ctx of None \<Rightarrow> (None, EXIT_FAILURE)
     | Some c \<Rightarrow> (Some (c\<lparr>cm_nw_stats_confirm_stats_cb := cb,
         cm_nw_stats_confirm_stats_cb_data := usr_data\<rparr>), EXIT_SUCCESS))"

definition ieee1901_2010_register_cm_link_stats_confirm_callback ::
  "('f, 'u) ieee1901_2010_ctx option \<Rightarrow> 'f option \<Rightarrow> 'u option
     \<Rightarrow> ('f, 'u) ieee1901_2010_ctx option \<times> int" where
  "ieee1901_2010_register_cm_link_stats_confirm_callback ctx cb usr_data =
    (case ctx of None \<Rightarrow> (None, EXIT_FAILURE)
     | Some c \<Rightarrow> (Some (c\<lparr>cm_link_stats_confirm_stats_cb := cb,
         cm_link_stats_confirm_stats_cb_data := usr_data\<rparr>), EXIT_SUCCESS))"

lemmas register_defs =
  ieee1901_2010_register_cc_discover_list_confirm_station_information_callback_def
  ieee1901_2010_register_cc_discover_list_confirm_network_information_callback_def
  ieee1901_2010_register_cm_nw_info_confirm_nwinfo_callback_def
  ieee1901_2010_register_cm_nw_stats_confirm_stats_callback_def
  ieee1901_2010_register_cm_link_stats_confirm_callback_def


section \<open>The loops over repeated structs\<close>

text \<open>
  The parsers contain four loops of the same shape, over the stations, the networks, the network
  statistics and the network infos:
  \<^verbatim>\<open>
    for (i = 0; i < count; i++) {
        if (remaining_size < sizeof(struct S)) return EXIT_FAILURE;
        if (cb != NULL) cb(osa, (struct S *) payload, cb_data);
        remaining_size -= sizeof(struct S);
        payload += sizeof(struct S);
    }
  \<close>
  \<open>record_loop sz cb buf n rem off\<close> is this loop with \<open>n\<close> iterations to go, \<open>payload\<close> at offset \<open>off\<close>
  of the buffer, and \<open>cb\<close> the invocation of the callback on the bytes of the struct, if one is registered.
  It yields the invocations and either the early return code or the values of \<open>remaining_size\<close> and
  \<open>payload\<close> after the loop.
\<close>

fun record_loop :: "nat \<Rightarrow> (bytes \<Rightarrow> 'c) option \<Rightarrow> bytes \<Rightarrow> nat \<Rightarrow> i32 \<Rightarrow> nat
    \<Rightarrow> ('c list \<times> (int + i32 \<times> nat)) option" where
  "record_loop sz cb buf 0 rem off = Some ([], Inr (rem, off))"
| "record_loop sz cb buf (Suc n) rem off =
     (if int_less_size rem (of_nat sz) then Some ([], Inl EXIT_FAILURE)
      else do {
        call \<leftarrow> (case cb of None \<Rightarrow> Some []
                 | Some f \<Rightarrow> do { data \<leftarrow> rd buf off sz; Some [f data] });
        (calls, result) \<leftarrow> record_loop sz cb buf n (int_minus_size rem (of_nat sz)) (off + sz);
        Some (call @ calls, result)
      })"

text \<open>
  With \<open>m\<close> bytes left at \<open>off\<close>, the loop reports exactly the complete structs among the first \<open>n\<close>, in
  order, and leaves early when fewer than \<open>n\<close> are complete.
\<close>

lemma record_loop_eq:
  assumes "0 < sz" "sz < 2 ^ 31" "m < 2 ^ 31" "off + m \<le> length buf"
  shows "record_loop sz cb buf n (of_nat m) off =
    Some (case cb of None \<Rightarrow> [] | Some f \<Rightarrow> records_of sz f n (take m (drop off buf)),
      if n * sz \<le> m then Inr (of_nat (m - n * sz), off + n * sz) else Inl EXIT_FAILURE)"
  using assms(3,4)
proof (induction n arbitrary: m off)
  case 0
  then show ?case by (cases cb) auto
next
  case (Suc n)
  have less: "int_less_size (of_nat m) (of_nat sz) \<longleftrightarrow> m < sz"
    using Suc.prems assms by (intro int_less_size_of_nat) auto
  show ?case
  proof (cases "m < sz")
    case True
    then show ?thesis
      using Suc.prems less by (cases cb) auto
  next
    case False
    have minus: "int_minus_size (of_nat m) (of_nat sz) = of_nat (m - sz)"
      using Suc.prems False by (intro int_minus_size_of_nat) auto
    have IH: "record_loop sz cb buf n (of_nat (m - sz)) (off + sz) =
      Some (case cb of None \<Rightarrow> [] | Some f \<Rightarrow> records_of sz f n (take (m - sz) (drop (off + sz) buf)),
        if n * sz \<le> m - sz then Inr (of_nat (m - sz - n * sz), off + sz + n * sz)
        else Inl EXIT_FAILURE)"
      using Suc.prems False by (intro Suc.IH) auto
    have read: "rd buf off sz = Some (take sz (drop off buf))"
      using Suc.prems False by (intro rd_ok) auto
    have shift: "drop sz (take m (drop off buf)) = take (m - sz) (drop (off + sz) buf)"
      by (simp add: drop_take add.commute)
    show ?thesis
      using False Suc.prems less minus IH read shift
      by (cases cb) (auto simp: min_def add.assoc)
  qed
qed


section \<open>The parsers\<close>

definition parse_mm_type_cm_link_stats_confirm ::
  "('f, 'u) ieee1901_2010_ctx \<Rightarrow> bytes \<Rightarrow> u64 \<Rightarrow> ('f, 'u) handled" where
  "parse_mm_type_cm_link_stats_confirm ctx payload len =
    (let remaining_size = int_of_size (len - of_nat sizeof_MM_APDU_Standard_Header)
     in if int_less_size remaining_size (of_nat sizeof_link_stats_confirm_head)
        then Some ([], EXIT_FAILURE)
        else
          let off = sizeof_MM_APDU_Standard_Header;
              lsch = off;
              remaining_size = int_minus_size remaining_size (of_nat sizeof_link_stats_confirm_head);
              off = off + sizeof_link_stats_confirm_head
          in if int_less_size remaining_size (of_nat sizeof_link_stats_receive_confirm)
             then Some ([], EXIT_FAILURE)
             else
               (case cm_link_stats_confirm_stats_cb ctx of
                  None \<Rightarrow> Some ([], EXIT_SUCCESS)
                | Some f \<Rightarrow> do {
                    osa \<leftarrow> rd payload 6 6;
                    head \<leftarrow> rd payload lsch sizeof_link_stats_confirm_head;
                    Some ([Link_stats_call f osa (link_stats_confirm_head_of head) (drop off payload)
                             (size_of_int remaining_size)
                             (cm_link_stats_confirm_stats_cb_data ctx)], EXIT_SUCCESS)
                  }))"

definition parse_mm_type_cc_discover_list_confirm ::
  "('f, 'u) ieee1901_2010_ctx \<Rightarrow> bytes \<Rightarrow> u64 \<Rightarrow> ('f, 'u) handled" where
  "parse_mm_type_cc_discover_list_confirm ctx payload len =
    (let remaining_size = int_of_size (len - of_nat sizeof_MM_APDU_Standard_Header)
     in if int_less_int remaining_size 2 then Some ([], EXIT_FAILURE)
        else do {
          osa \<leftarrow> rd payload 6 6;
          let off = sizeof_MM_APDU_Standard_Header;
          station_count \<leftarrow> rd8 payload off;
          (station_calls, result) \<leftarrow> record_loop sizeof_station_information
            (map_option (\<lambda>f bs. Station_information_call f osa (station_information_of bs)
                (cc_discover_list_confirm_station_information_cb_data ctx))
              (cc_discover_list_confirm_station_information_cb ctx))
            payload (unat station_count) (remaining_size - 1) (off + 1);
          (case result of
             Inl rc \<Rightarrow> Some (station_calls, rc)
           | Inr (remaining_size, off) \<Rightarrow>
               if int_less_int remaining_size 1 then Some (station_calls, EXIT_FAILURE)
               else do {
                 network_count \<leftarrow> rd8 payload off;
                 (network_calls, result) \<leftarrow> record_loop sizeof_network_information
                   (map_option (\<lambda>f bs. Network_information_call f osa (network_information_of bs)
                       (cc_discover_list_confirm_network_information_cb_data ctx))
                     (cc_discover_list_confirm_network_information_cb ctx))
                   payload (unat network_count) (remaining_size - 1) (off + 1);
                 (case result of
                    Inl rc \<Rightarrow> Some (station_calls @ network_calls, rc)
                  | Inr _ \<Rightarrow> Some (station_calls @ network_calls, EXIT_FAILURE))
               })
        })"

definition parse_mm_type_cm_nw_stats_confirm ::
  "('f, 'u) ieee1901_2010_ctx \<Rightarrow> bytes \<Rightarrow> u64 \<Rightarrow> ('f, 'u) handled" where
  "parse_mm_type_cm_nw_stats_confirm ctx payload len =
    (let remaining_size = int_of_size (len - of_nat sizeof_MM_APDU_Standard_Header)
     in if int_less_int remaining_size 1 then Some ([], EXIT_FAILURE)
        else do {
          osa \<leftarrow> rd payload 6 6;
          let off = sizeof_MM_APDU_Standard_Header;
          station_count \<leftarrow> rd8 payload off;
          (calls, result) \<leftarrow> record_loop sizeof_nw_stats
            (map_option (\<lambda>f bs. Nw_stats_call f osa (nw_stats_of bs)
                (cm_nw_stats_confirm_stats_cb_data ctx))
              (cm_nw_stats_confirm_stats_cb ctx))
            payload (unat station_count) (remaining_size - 1) (off + 1);
          (case result of
             Inl rc \<Rightarrow> Some (calls, rc)
           | Inr _ \<Rightarrow> Some (calls, EXIT_SUCCESS))
        })"

definition parse_mm_type_cm_nw_info_confirm ::
  "('f, 'u) ieee1901_2010_ctx \<Rightarrow> bytes \<Rightarrow> u64 \<Rightarrow> ('f, 'u) handled" where
  "parse_mm_type_cm_nw_info_confirm ctx payload len =
    (let remaining_size = int_of_size (len - of_nat sizeof_MM_APDU_Standard_Header)
     in if int_less_int remaining_size 1 then Some ([], EXIT_FAILURE)
        else do {
          osa \<leftarrow> rd payload 6 6;
          let off = sizeof_MM_APDU_Standard_Header;
          network_count \<leftarrow> rd8 payload off;
          (calls, result) \<leftarrow> record_loop sizeof_nwinfo
            (map_option (\<lambda>f bs. Nwinfo_call f osa (nwinfo_of bs)
                (cm_nw_info_confirm_nwinfo_cb_data ctx))
              (cm_nw_info_confirm_nwinfo_cb ctx))
            payload (unat network_count) (remaining_size - 1) (off + 1);
          (case result of
             Inl rc \<Rightarrow> Some (calls, rc)
           | Inr _ \<Rightarrow> Some (calls, EXIT_SUCCESS))
        })"


section \<open>ieee1901_2010_handle_message\<close>

definition IEEE1901_2010_MIN_MSG_SIZE :: nat where
  "IEEE1901_2010_MIN_MSG_SIZE = 60"

definition IEEE1901_2010_ETHERTYPE :: u16 where
  "IEEE1901_2010_ETHERTYPE = 0x88e1"

definition ieee1901_2010_handle_message ::
  "('f, 'u) ieee1901_2010_ctx option \<Rightarrow> bytes option \<Rightarrow> u64 \<Rightarrow> ('f, 'u) handled" where
  "ieee1901_2010_handle_message ctx payload len =
    (case (ctx, payload) of
       (Some ctx, Some payload) \<Rightarrow>
         if len < of_nat sizeof_MM_APDU_Standard_Header then Some ([], EXIT_FAILURE)
         else do {
           hdr \<leftarrow> rd payload 0 sizeof_MM_APDU_Standard_Header;
           let std_hdr = MM_APDU_Standard_Header_of hdr;
           let mmtype = ah_mmtype (sh_apdu_hdr std_hdr);
           if ntohs (l2_mtype (sh_l2 std_hdr)) \<noteq> IEEE1901_2010_ETHERTYPE then Some ([], EXIT_FAILURE)
           else if ntohs mmtype > 0x7ffc then Some ([], EXIT_FAILURE)
           else if sh_nf_mi std_hdr \<noteq> 0 then Some ([], EXIT_FAILURE)
           else if mmtype = MM_TYPE_CC_DISCOVER_LIST OR MMOperationTypeConfirm then
             (if cc_discover_list_confirm_network_information_cb ctx \<noteq> None \<or>
                 cc_discover_list_confirm_station_information_cb ctx \<noteq> None
              then parse_mm_type_cc_discover_list_confirm ctx payload len
              else Some ([], EXIT_SUCCESS))
           else if mmtype = MM_TYPE_CM_NW_INFO OR MMOperationTypeConfirm then
             (if cm_nw_info_confirm_nwinfo_cb ctx \<noteq> None
              then parse_mm_type_cm_nw_info_confirm ctx payload len
              else Some ([], EXIT_SUCCESS))
           else if mmtype = MM_TYPE_CM_NW_STATS OR MMOperationTypeConfirm then
             (if cm_nw_stats_confirm_stats_cb ctx \<noteq> None
              then parse_mm_type_cm_nw_stats_confirm ctx payload len
              else Some ([], EXIT_SUCCESS))
           else if mmtype = MM_TYPE_CM_LINK_STATS OR MMOperationTypeConfirm then
             (if cm_link_stats_confirm_stats_cb ctx \<noteq> None
              then parse_mm_type_cm_link_stats_confirm ctx payload len
              else Some ([], EXIT_SUCCESS))
           else Some ([], EXIT_SUCCESS)
         }
     | _ \<Rightarrow> Some ([], EXIT_FAILURE))"

lemmas sizeof_defs =
  sizeof_MM_APDU_Standard_Header_def sizeof_station_information_def
  sizeof_network_information_def sizeof_nwinfo_def sizeof_nw_stats_def
  sizeof_link_stats_confirm_head_def sizeof_link_stats_receive_confirm_def
  sizeof_link_stats_transmit_confirm_def sizeof_link_stats_request_def

end
