(* ===== verification/Ieee_Spec.thy ===== *)
theory Ieee_Spec
  imports Ieee_Handler
begin

text \<open>
  What \<open>ieee1901_2010_handle_message\<close> promises, stated on whole frames with unbounded lengths and without
  offsets: which frames are accepted, what the body of each confirm message contains, and which callbacks
  run with which return code. The refinement lemmas show that the offset and counter arithmetic of
  \<^verbatim>\<open>src/ieee1901-2010.c\<close> computes exactly that.
\<close>

section \<open>Specification\<close>

subsection \<open>Messages\<close>

text \<open>
  The message body (ASDU) follows the 19-byte header. A discover list has the stations behind a count
  byte and the networks behind a second count byte; network statistics and network infos have a count
  byte and their records. Only complete records are part of a message.
\<close>

definition body_stations :: "bytes \<Rightarrow> station_information list" where
  "body_stations asdu =
     records_of sizeof_station_information station_information_of (unat (asdu ! 0)) (drop 1 asdu)"

definition body_network_pos :: "bytes \<Rightarrow> nat" where
  "body_network_pos asdu = 1 + unat (asdu ! 0) * sizeof_station_information"

definition body_networks :: "bytes \<Rightarrow> network_information list" where
  "body_networks asdu =
     (let pos = body_network_pos asdu
      in if pos < length asdu
         then records_of sizeof_network_information network_information_of (unat (asdu ! pos))
                (drop (pos + 1) asdu)
         else [])"

definition body_stats :: "bytes \<Rightarrow> nw_stats list" where
  "body_stats asdu = records_of sizeof_nw_stats nw_stats_of (unat (asdu ! 0)) (drop 1 asdu)"

definition body_nwinfos :: "bytes \<Rightarrow> nwinfo list" where
  "body_nwinfos asdu = records_of sizeof_nwinfo nwinfo_of (unat (asdu ! 0)) (drop 1 asdu)"

text \<open>Every record that the count byte announces is there.\<close>

definition body_complete :: "nat \<Rightarrow> bytes \<Rightarrow> bool" where
  "body_complete sz asdu \<longleftrightarrow> 1 + unat (asdu ! 0) * sz \<le> length asdu"

subsection \<open>Callbacks\<close>

definition calls_of :: "'f option \<Rightarrow> ('f \<Rightarrow> 'r \<Rightarrow> 'c) \<Rightarrow> 'r list \<Rightarrow> 'c list" where
  "calls_of cb call rs = (case cb of None \<Rightarrow> [] | Some f \<Rightarrow> map (call f) rs)"

lemma calls_of_Nil [simp]: "calls_of cb call [] = []"
  by (cases cb) (simp_all add: calls_of_def)

definition spec_discover_list ::
  "('f, 'u) ieee1901_2010_ctx \<Rightarrow> bytes \<Rightarrow> bytes \<Rightarrow> ('f, 'u) cb_call list \<times> int" where
  "spec_discover_list ctx osa asdu =
    (if length asdu < 2 then ([], EXIT_FAILURE)
     else (calls_of (cc_discover_list_confirm_station_information_cb ctx)
             (\<lambda>f r. Station_information_call f osa r
                (cc_discover_list_confirm_station_information_cb_data ctx)) (body_stations asdu)
           @ calls_of (cc_discover_list_confirm_network_information_cb ctx)
             (\<lambda>f r. Network_information_call f osa r
                (cc_discover_list_confirm_network_information_cb_data ctx)) (body_networks asdu),
           EXIT_FAILURE))"

definition spec_nw_stats ::
  "('f, 'u) ieee1901_2010_ctx \<Rightarrow> bytes \<Rightarrow> bytes \<Rightarrow> ('f, 'u) cb_call list \<times> int" where
  "spec_nw_stats ctx osa asdu =
    (if asdu = [] then ([], EXIT_FAILURE)
     else (calls_of (cm_nw_stats_confirm_stats_cb ctx)
             (\<lambda>f r. Nw_stats_call f osa r (cm_nw_stats_confirm_stats_cb_data ctx)) (body_stats asdu),
           if body_complete sizeof_nw_stats asdu then EXIT_SUCCESS else EXIT_FAILURE))"

definition spec_nw_info ::
  "('f, 'u) ieee1901_2010_ctx \<Rightarrow> bytes \<Rightarrow> bytes \<Rightarrow> ('f, 'u) cb_call list \<times> int" where
  "spec_nw_info ctx osa asdu =
    (if asdu = [] then ([], EXIT_FAILURE)
     else (calls_of (cm_nw_info_confirm_nwinfo_cb ctx)
             (\<lambda>f r. Nwinfo_call f osa r (cm_nw_info_confirm_nwinfo_cb_data ctx)) (body_nwinfos asdu),
           if body_complete sizeof_nwinfo asdu then EXIT_SUCCESS else EXIT_FAILURE))"

definition spec_link_stats ::
  "('f, 'u) ieee1901_2010_ctx \<Rightarrow> bytes \<Rightarrow> bytes \<Rightarrow> ('f, 'u) cb_call list \<times> int" where
  "spec_link_stats ctx osa asdu =
    (if length asdu < sizeof_link_stats_confirm_head + sizeof_link_stats_receive_confirm
     then ([], EXIT_FAILURE)
     else (calls_of (cm_link_stats_confirm_stats_cb ctx)
             (\<lambda>f stats. Link_stats_call f osa
                (link_stats_confirm_head_of (take sizeof_link_stats_confirm_head asdu)) stats
                (of_nat (length stats)) (cm_link_stats_confirm_stats_cb_data ctx))
             [drop sizeof_link_stats_confirm_head asdu],
           EXIT_SUCCESS))"

subsection \<open>Frames\<close>

definition frame_osa :: "bytes \<Rightarrow> bytes" where
  "frame_osa frame = take 6 (drop 6 frame)"

definition frame_mmtype :: "bytes \<Rightarrow> u16" where
  "frame_mmtype frame = u16_at frame 15"

definition frame_asdu :: "bytes \<Rightarrow> bytes" where
  "frame_asdu frame = drop sizeof_MM_APDU_Standard_Header frame"

text \<open>
  The accepted frames: a whole header, the ethertype of IEEE 1901 in network byte order, no fragmentation,
  and a message type that, with its two bytes read in network byte order, is at most \<open>0x7ffc\<close>.
\<close>

definition frame_accepted :: "bytes \<Rightarrow> bool" where
  "frame_accepted frame \<longleftrightarrow>
     sizeof_MM_APDU_Standard_Header \<le> length frame
     \<and> frame ! 12 = 0x88 \<and> frame ! 13 = 0xe1
     \<and> 256 * unat (frame ! 15) + unat (frame ! 16) \<le> 0x7ffc
     \<and> bitfield 0 4 (frame ! 17) = 0"

definition spec_handle_message ::
  "('f, 'u) ieee1901_2010_ctx \<Rightarrow> bytes \<Rightarrow> ('f, 'u) cb_call list \<times> int" where
  "spec_handle_message ctx frame =
    (let osa = frame_osa frame; asdu = frame_asdu frame; mmtype = frame_mmtype frame
     in if \<not> frame_accepted frame then ([], EXIT_FAILURE)
        else if mmtype = 0x0015 \<and> (cc_discover_list_confirm_network_information_cb ctx \<noteq> None \<or>
           cc_discover_list_confirm_station_information_cb ctx \<noteq> None)
          then spec_discover_list ctx osa asdu
        else if mmtype = 0x6039 \<and> cm_nw_info_confirm_nwinfo_cb ctx \<noteq> None
          then spec_nw_info ctx osa asdu
        else if mmtype = 0x6049 \<and> cm_nw_stats_confirm_stats_cb ctx \<noteq> None
          then spec_nw_stats ctx osa asdu
        else if mmtype = 0x604d \<and> cm_link_stats_confirm_stats_cb ctx \<noteq> None
          then spec_link_stats ctx osa asdu
        else ([], EXIT_SUCCESS))"


section \<open>Refinement\<close>

subsection \<open>The counter of remaining bytes\<close>

lemma unat_asdu_len:
  assumes "\<not> (len :: u64) < of_nat sizeof_MM_APDU_Standard_Header"
  shows "unat (len - of_nat sizeof_MM_APDU_Standard_Header) = unat len - 19"
  using assms by (simp add: sizeof_defs unat_sub word_less_nat_alt not_less word_le_nat_alt)

lemma records_of_map: "records_of sz (\<lambda>bs. g (dec bs)) n bs = map g (records_of sz dec n bs)"
  by (induction n arbitrary: bs) auto

lemma calls_of_records:
  "(case map_option (\<lambda>f bs. call f (dec bs)) cb of None \<Rightarrow> [] | Some g \<Rightarrow> records_of sz g n bs)
     = calls_of cb call (records_of sz dec n bs)"
  by (cases cb) (simp_all add: calls_of_def records_of_map)

lemma sizeof_bounds:
  "0 < sizeof_station_information" "sizeof_station_information < 2 ^ 31"
  "0 < sizeof_network_information" "sizeof_network_information < 2 ^ 31"
  "0 < sizeof_nw_stats" "sizeof_nw_stats < 2 ^ 31"
  "0 < sizeof_nwinfo" "sizeof_nwinfo < 2 ^ 31"
  by (simp_all add: sizeof_defs)

text \<open>
  The loop over records started behind a count byte at offset \<open>off\<close> with \<open>m\<close> bytes from there on, in terms
  of these bytes.
\<close>

lemma counted_loop_eq:
  assumes "0 < sz" "sz < 2 ^ 31" "m < 2 ^ 31" "0 < m" "off + m \<le> length buf"
  shows "record_loop sz (map_option (\<lambda>f bs. call f (dec bs)) cb) buf n (of_nat m - 1) (off + 1) =
    Some (calls_of cb call (records_of sz dec n (drop 1 (take m (drop off buf)))),
      if 1 + n * sz \<le> m then Inr (of_nat (m - 1 - n * sz), off + 1 + n * sz) else Inl EXIT_FAILURE)"
proof -
  have body: "drop 1 (take m (drop off buf)) = take (m - 1) (drop (off + 1) buf)"
    by (simp add: drop_take add.commute)
  have size: "1 + n * sz \<le> m \<longleftrightarrow> n * sz \<le> m - 1"
    using assms by arith
  have "m - 1 < 2 ^ 31" and "off + 1 + (m - 1) \<le> length buf"
    using assms by auto
  from record_loop_eq [OF assms(1,2) this] show ?thesis
    unfolding i32_decrement [OF assms(4)] body size calls_of_records [symmetric] .
qed

lemma osa_ok: "19 + m \<le> length payload \<Longrightarrow> rd payload 6 6 = Some (frame_osa payload)"
  by (simp add: rd_ok frame_osa_def)

lemma body_nth: "i < m \<Longrightarrow> off + m \<le> length buf \<Longrightarrow> take m (drop off buf) ! i = buf ! (off + i)"
  by simp

lemma parse_nw_stats_eq:
  assumes "int_of_size (len - of_nat sizeof_MM_APDU_Standard_Header) = of_nat m"
    and "m < 2 ^ 31" and "19 + m \<le> length payload"
  shows "parse_mm_type_cm_nw_stats_confirm ctx payload len
    = Some (spec_nw_stats ctx (frame_osa payload) (take m (drop 19 payload)))"
proof (cases "m = 0")
  case True
  then show ?thesis
    using assms int_less_int_of_nat [of m 1]
    by (simp add: parse_mm_type_cm_nw_stats_confirm_def spec_nw_stats_def)
next
  case False
  let ?call = "\<lambda>f r. Nw_stats_call f (frame_osa payload) r (cm_nw_stats_confirm_stats_cb_data ctx)"
  have "record_loop sizeof_nw_stats (map_option (\<lambda>f bs. ?call f (nw_stats_of bs))
      (cm_nw_stats_confirm_stats_cb ctx)) payload n (of_nat m - 1) (19 + 1) = Some
      (calls_of (cm_nw_stats_confirm_stats_cb ctx) ?call
        (records_of sizeof_nw_stats nw_stats_of n (drop 1 (take m (drop 19 payload)))),
       if 1 + n * sizeof_nw_stats \<le> m
       then Inr (of_nat (m - 1 - n * sizeof_nw_stats), 19 + 1 + n * sizeof_nw_stats)
       else Inl EXIT_FAILURE)" for n
    using assms False by (intro counted_loop_eq sizeof_bounds) auto
  then show ?thesis
    using assms False int_less_int_of_nat [of m 1]
    by (simp add: parse_mm_type_cm_nw_stats_confirm_def spec_nw_stats_def body_stats_def
        body_complete_def sizeof_MM_APDU_Standard_Header_def osa_ok rd8_ok body_nth)
qed

lemma parse_nw_info_eq:
  assumes "int_of_size (len - of_nat sizeof_MM_APDU_Standard_Header) = of_nat m"
    and "m < 2 ^ 31" and "19 + m \<le> length payload"
  shows "parse_mm_type_cm_nw_info_confirm ctx payload len
    = Some (spec_nw_info ctx (frame_osa payload) (take m (drop 19 payload)))"
proof (cases "m = 0")
  case True
  then show ?thesis
    using assms int_less_int_of_nat [of m 1]
    by (simp add: parse_mm_type_cm_nw_info_confirm_def spec_nw_info_def)
next
  case False
  let ?call = "\<lambda>f r. Nwinfo_call f (frame_osa payload) r (cm_nw_info_confirm_nwinfo_cb_data ctx)"
  have "record_loop sizeof_nwinfo (map_option (\<lambda>f bs. ?call f (nwinfo_of bs))
      (cm_nw_info_confirm_nwinfo_cb ctx)) payload n (of_nat m - 1) (19 + 1) = Some
      (calls_of (cm_nw_info_confirm_nwinfo_cb ctx) ?call
        (records_of sizeof_nwinfo nwinfo_of n (drop 1 (take m (drop 19 payload)))),
       if 1 + n * sizeof_nwinfo \<le> m
       then Inr (of_nat (m - 1 - n * sizeof_nwinfo), 19 + 1 + n * sizeof_nwinfo)
       else Inl EXIT_FAILURE)" for n
    using assms False by (intro counted_loop_eq sizeof_bounds) auto
  then show ?thesis
    using assms False int_less_int_of_nat [of m 1]
    by (simp add: parse_mm_type_cm_nw_info_confirm_def spec_nw_info_def body_nwinfos_def
        body_complete_def sizeof_MM_APDU_Standard_Header_def osa_ok rd8_ok body_nth)
qed

lemma parse_discover_list_eq:
  assumes rem: "int_of_size (len - of_nat sizeof_MM_APDU_Standard_Header) = of_nat m"
    and "m < 2 ^ 31" and "19 + m \<le> length payload"
  shows "parse_mm_type_cc_discover_list_confirm ctx payload len
    = Some (spec_discover_list ctx (frame_osa payload) (take m (drop 19 payload)))"
proof (cases "m < 2")
  case True
  then show ?thesis
    using assms int_less_int_of_nat [of m 2]
    by (simp add: parse_mm_type_cc_discover_list_confirm_def spec_discover_list_def)
next
  case False
  define n where "n = unat (payload ! 19)"
  define used where "used = 1 + n * sizeof_station_information"
  let ?sta = "\<lambda>f r. Station_information_call f (frame_osa payload) r
      (cc_discover_list_confirm_station_information_cb_data ctx)"
  let ?net = "\<lambda>f r. Network_information_call f (frame_osa payload) r
      (cc_discover_list_confirm_network_information_cb_data ctx)"
  have stations: "record_loop sizeof_station_information
      (map_option (\<lambda>f bs. ?sta f (station_information_of bs))
        (cc_discover_list_confirm_station_information_cb ctx)) payload n (of_nat m - 1) (19 + 1) = Some
      (calls_of (cc_discover_list_confirm_station_information_cb ctx) ?sta
        (records_of sizeof_station_information station_information_of n
          (drop 1 (take m (drop 19 payload)))),
       if used \<le> m then Inr (of_nat (m - used), 19 + used) else Inl EXIT_FAILURE)"
    using assms False counted_loop_eq [of sizeof_station_information m 19 payload ?sta
        station_information_of "cc_discover_list_confirm_station_information_cb ctx" n]
      sizeof_bounds by (simp add: used_def)
  have networks: "record_loop sizeof_network_information
      (map_option (\<lambda>f bs. ?net f (network_information_of bs))
        (cc_discover_list_confirm_network_information_cb ctx)) payload k
        (of_nat (m - used) - 1) (19 + used + 1) = Some
      (calls_of (cc_discover_list_confirm_network_information_cb ctx) ?net
        (records_of sizeof_network_information network_information_of k
          (drop 1 (take (m - used) (drop (19 + used) payload)))),
       if 1 + k * sizeof_network_information \<le> m - used
       then Inr (of_nat (m - used - 1 - k * sizeof_network_information),
         19 + used + 1 + k * sizeof_network_information) else Inl EXIT_FAILURE)"
    if "used < m" for k
    using assms that by (intro counted_loop_eq sizeof_bounds) auto
  have pos: "body_network_pos (take m (drop 19 payload)) = used"
    using assms False by (simp add: body_network_pos_def used_def n_def body_nth)
  have body: "drop 1 (take (m - used) (drop (19 + used) payload))
      = drop (used + 1) (take m (drop 19 payload))"
    by (simp add: drop_take add.commute)
  have exhausted: "int_less_int (of_nat (m - used)) 1 \<longleftrightarrow> m \<le> used"
    using assms int_less_int_of_nat [of "m - used" 1] by auto
  have enough: "\<not> int_less_int (of_nat m) 2"
    using assms False int_less_int_of_nat [of m 2] by auto
  have first: "rd8 payload 19 = Some (payload ! 19)"
    and second: "used < m \<Longrightarrow> rd8 payload (19 + used) = Some (payload ! (19 + used))"
    using assms False by (simp_all add: rd8_ok)
  note parser = parse_mm_type_cc_discover_list_confirm_def Let_def
    osa_ok [OF assms(3)] sizeof_MM_APDU_Standard_Header_def n_def [symmetric]
  consider "m < used" | "used = m" | "used < m" by linarith
  then show ?thesis
  proof cases
    case 1
    then show ?thesis
      using assms False enough first stations pos
      by (simp add: parser spec_discover_list_def body_stations_def body_networks_def body_nth)
  next
    case 2
    then show ?thesis
      using assms False enough first stations pos exhausted
      by (simp add: parser spec_discover_list_def body_stations_def body_networks_def body_nth
          del: of_nat_diff)
  next
    case 3
    then show ?thesis
      using assms False enough first stations pos exhausted second networks [OF 3] body
      by (simp add: parser spec_discover_list_def body_stations_def body_networks_def body_nth
          del: of_nat_diff)
  qed
qed

lemma parse_link_stats_eq:
  assumes "int_of_size (len - of_nat sizeof_MM_APDU_Standard_Header) = of_nat m"
    and "m < 2 ^ 31" and "19 + m = length payload" and "cm_link_stats_confirm_stats_cb ctx \<noteq> None"
  shows "parse_mm_type_cm_link_stats_confirm ctx payload len
    = Some (spec_link_stats ctx (frame_osa payload) (drop 19 payload))"
proof -
  have m: "int_less_size (of_nat m) (of_nat sizeof_link_stats_confirm_head) \<longleftrightarrow> m < 2"
    using assms by (simp add: sizeof_defs int_less_size_of_nat [of m 2, simplified])
  have m2: "int_minus_size (of_nat m) (of_nat sizeof_link_stats_confirm_head) = of_nat (m - 2)"
    if "2 \<le> m"
    using assms that int_minus_size_of_nat [of m 2] by (simp add: sizeof_defs)
  have m3: "int_less_size (of_nat (m - 2)) (of_nat sizeof_link_stats_receive_confirm)
      \<longleftrightarrow> m - 2 < 34"
    using assms int_less_size_of_nat [of "m - 2" 34] by (simp add: sizeof_defs)
  have size: "size_of_int (of_nat (m - 2)) = of_nat (m - 2)"
    using assms by (intro size_of_int_of_nat) auto
  have "length payload - 21 = m - 2"
    using assms by arith
  with assms m m2 m3 size show ?thesis
    by (cases "m < 2") (auto simp: parse_mm_type_cm_link_stats_confirm_def spec_link_stats_def
        sizeof_defs frame_osa_def rd_ok calls_of_def simp del: of_nat_diff)
qed

subsection \<open>A negative counter\<close>

text \<open>
  A length of two gigabytes or more can make \<open>remaining_size\<close> negative. The three list parsers then stop
  before they read; the link statistics parser passes its unsigned comparisons and runs the callback.
\<close>

lemma negative_counter:
  assumes "sint (int_of_size (len - of_nat sizeof_MM_APDU_Standard_Header)) < 0"
  shows "parse_mm_type_cc_discover_list_confirm ctx payload len = Some ([], EXIT_FAILURE)"
    and "parse_mm_type_cm_nw_stats_confirm ctx payload len = Some ([], EXIT_FAILURE)"
    and "parse_mm_type_cm_nw_info_confirm ctx payload len = Some ([], EXIT_FAILURE)"
  using assms by (simp_all add: parse_mm_type_cc_discover_list_confirm_def int_less_int_def
      parse_mm_type_cm_nw_stats_confirm_def parse_mm_type_cm_nw_info_confirm_def)

lemma parse_link_stats_defined:
  assumes "21 \<le> length payload \<or> unat (len - of_nat sizeof_MM_APDU_Standard_Header) < 2"
  shows "parse_mm_type_cm_link_stats_confirm ctx payload len \<noteq> None"
proof (cases "21 \<le> length payload")
  case True
  then show ?thesis
    by (simp add: parse_mm_type_cm_link_stats_confirm_def Let_def sizeof_defs rd_ok
        split: option.split)
next
  case False
  then have "len - of_nat sizeof_MM_APDU_Standard_Header = 0 \<or>
      len - of_nat sizeof_MM_APDU_Standard_Header = 1"
    using assms by (intro unat_word_less_2) simp
  then show ?thesis
    by (auto simp: parse_mm_type_cm_link_stats_confirm_def Let_def sizeof_defs int_less_size_def
        size_of_int_def int_of_size_def)
qed


subsection \<open>The header\<close>

text \<open>The checks of the code on the cast header are the checks of \<^term>\<open>frame_accepted\<close> on the bytes.\<close>

lemma header_mtype:
  assumes "19 \<le> length frame"
  shows "ntohs (l2_mtype (sh_l2 (MM_APDU_Standard_Header_of (take 19 frame)))) = IEEE1901_2010_ETHERTYPE
    \<longleftrightarrow> frame ! 12 = 0x88 \<and> frame ! 13 = 0xe1"
proof -
  have mtype: "ntohs (l2_mtype (sh_l2 (MM_APDU_Standard_Header_of (take 19 frame))))
      = le16 (frame ! 13) (frame ! 12)"
    using assms by (simp add: MM_APDU_Standard_Header_of_def MM_L2_Header_of_def u16_at_def ntohs_le16)
  have ethertype: "IEEE1901_2010_ETHERTYPE = le16 0xe1 0x88"
    by (simp add: IEEE1901_2010_ETHERTYPE_def le16_def)
  show ?thesis
    unfolding mtype ethertype le16_inject by auto
qed

lemma header_mmtype:
  assumes "19 \<le> length frame"
  shows "ah_mmtype (sh_apdu_hdr (MM_APDU_Standard_Header_of (take 19 frame))) = frame_mmtype frame"
  using assms by (simp add: MM_APDU_Standard_Header_of_def MM_APDU_Header_of_def u16_at_def
      frame_mmtype_def)

lemma header_mmtype_limit:
  "ntohs (frame_mmtype frame) > 0x7ffc
    \<longleftrightarrow> \<not> 256 * unat (frame ! 15) + unat (frame ! 16) \<le> 0x7ffc"
proof -
  have "unat (0x7ffc :: u16) = 0x7ffc" by simp
  then show ?thesis
    unfolding frame_mmtype_def u16_at_def ntohs_le16 word_less_nat_alt unat_le16 by auto
qed

lemma header_nf_mi:
  assumes "19 \<le> length frame"
  shows "sh_nf_mi (MM_APDU_Standard_Header_of (take 19 frame)) = bitfield 0 4 (frame ! 17)"
  using assms by (simp add: MM_APDU_Standard_Header_of_def)

lemma confirm_codes:
  "MM_TYPE_CC_DISCOVER_LIST OR MMOperationTypeConfirm = 0x0015"
  "MM_TYPE_CM_NW_INFO OR MMOperationTypeConfirm = 0x6039"
  "MM_TYPE_CM_NW_STATS OR MMOperationTypeConfirm = 0x6049"
  "MM_TYPE_CM_LINK_STATS OR MMOperationTypeConfirm = 0x604d"
  by (simp_all add: mm_type_defs mm_operation_defs)


subsection \<open>The dispatcher\<close>

text \<open>
  For a buffer that has the bytes its length announces, the dispatcher either rejects the frame, accepts it
  without work, or runs one of the parsers.
\<close>

lemma handle_message_cases:
  assumes "unat len \<le> length frame" and "19 \<le> unat len"
  shows "ieee1901_2010_handle_message (Some ctx) (Some frame) len =
    (if \<not> frame_accepted frame then Some ([], EXIT_FAILURE)
     else if frame_mmtype frame = 0x0015 then
       (if cc_discover_list_confirm_network_information_cb ctx \<noteq> None \<or>
           cc_discover_list_confirm_station_information_cb ctx \<noteq> None
        then parse_mm_type_cc_discover_list_confirm ctx frame len else Some ([], EXIT_SUCCESS))
     else if frame_mmtype frame = 0x6039 then
       (if cm_nw_info_confirm_nwinfo_cb ctx \<noteq> None
        then parse_mm_type_cm_nw_info_confirm ctx frame len else Some ([], EXIT_SUCCESS))
     else if frame_mmtype frame = 0x6049 then
       (if cm_nw_stats_confirm_stats_cb ctx \<noteq> None
        then parse_mm_type_cm_nw_stats_confirm ctx frame len else Some ([], EXIT_SUCCESS))
     else if frame_mmtype frame = 0x604d then
       (if cm_link_stats_confirm_stats_cb ctx \<noteq> None
        then parse_mm_type_cm_link_stats_confirm ctx frame len else Some ([], EXIT_SUCCESS))
     else Some ([], EXIT_SUCCESS))"
proof -
  have len: "\<not> len < 19"
    using assms by (simp add: word_less_nat_alt)
  have long: "19 \<le> length frame"
    using assms by simp
  have hdr: "rd frame 0 19 = Some (take 19 frame)"
    using long by (simp add: rd_ok)
  show ?thesis
    unfolding ieee1901_2010_handle_message_def sizeof_MM_APDU_Standard_Header_def Let_def
      frame_accepted_def confirm_codes prod.case option.case of_nat_numeral hdr Option.bind.bind_lunit
      header_mtype [OF long] header_mmtype [OF long] header_nf_mi [OF long] header_mmtype_limit
    using long len by (simp only: simp_thms if_True if_False de_Morgan_conj not_not) auto
qed

lemma handle_message_short:
  "unat len < 19 \<Longrightarrow> ieee1901_2010_handle_message (Some ctx) (Some frame) len = Some ([], EXIT_FAILURE)"
  by (simp add: ieee1901_2010_handle_message_def sizeof_defs word_less_nat_alt)

lemma handle_message_null:
  "ctx = None \<or> payload = None \<Longrightarrow>
   ieee1901_2010_handle_message ctx payload len = Some ([], EXIT_FAILURE)"
  by (auto simp: ieee1901_2010_handle_message_def split: option.split)

lemma handle_message_refines:
  assumes "length frame < 2 ^ 31"
  shows "ieee1901_2010_handle_message (Some ctx) (Some frame) (of_nat (length frame))
    = Some (spec_handle_message ctx frame)"
proof (cases "19 \<le> length frame")
  case False
  then show ?thesis
    using assms by (simp add: handle_message_short spec_handle_message_def frame_accepted_def
        sizeof_MM_APDU_Standard_Header_def unat_of_nat take_bit_nat_eq_self)
next
  case True
  define len :: u64 where "len = of_nat (length frame)"
  define m where "m = length frame - 19"
  have len: "unat len = length frame"
    using assms by (simp add: len_def unat_of_nat take_bit_nat_eq_self)
  have "len - of_nat sizeof_MM_APDU_Standard_Header = of_nat m"
    using True by (simp add: len_def m_def sizeof_MM_APDU_Standard_Header_def)
  then have rem: "int_of_size (len - of_nat sizeof_MM_APDU_Standard_Header) = of_nat m"
    by (simp only: int_of_size_of_nat)
  have m: "m < 2 ^ 31" "19 + m \<le> length frame" "19 + m = length frame"
    using assms True by (simp_all add: m_def)
  have body: "drop 19 frame = frame_asdu frame" "take m (frame_asdu frame) = frame_asdu frame"
    by (simp_all add: frame_asdu_def m_def sizeof_MM_APDU_Standard_Header_def)
  note parsers = parse_discover_list_eq [OF rem m(1,2)] parse_nw_info_eq [OF rem m(1,2)]
    parse_nw_stats_eq [OF rem m(1,2)] parse_link_stats_eq [OF rem m(1,3)]
  have "ieee1901_2010_handle_message (Some ctx) (Some frame) len = Some (spec_handle_message ctx frame)"
    using len True
    by (subst handle_message_cases) (simp_all add: parsers body spec_handle_message_def Let_def)
  then show ?thesis
    by (simp add: len_def)
qed

lemma handle_message_defined:
  assumes "unat len \<le> length frame"
  shows "ieee1901_2010_handle_message (Some ctx) (Some frame) len \<noteq> None"
proof (cases "unat len < 19")
  case True
  then show ?thesis by (simp add: handle_message_short)
next
  case False
  have size: "unat (len - of_nat sizeof_MM_APDU_Standard_Header) = unat len - 19"
    using False by (intro unat_asdu_len) (simp add: word_less_nat_alt sizeof_MM_APDU_Standard_Header_def)
  have link: "parse_mm_type_cm_link_stats_confirm ctx frame len \<noteq> None"
    using assms size by (intro parse_link_stats_defined) auto
  have "parse_mm_type_cc_discover_list_confirm ctx frame len \<noteq> None \<and>
      parse_mm_type_cm_nw_info_confirm ctx frame len \<noteq> None \<and>
      parse_mm_type_cm_nw_stats_confirm ctx frame len \<noteq> None"
  proof (cases "len - of_nat sizeof_MM_APDU_Standard_Header" rule: int_of_size_cases)
    case (nonneg m)
    then have "19 + m \<le> length frame"
      using assms size False by simp
    with nonneg show ?thesis
      by (simp add: parse_discover_list_eq parse_nw_info_eq parse_nw_stats_eq)
  next
    case negative
    then show ?thesis by (simp add: negative_counter)
  qed
  then show ?thesis
    using link assms False by (simp add: handle_message_cases)
qed


section \<open>Which callbacks run\<close>

text \<open>
  A callback invocation is legitimate when the function is the one registered for the kind of the record,
  the user data are those registered with it, and the address is the sender's.
\<close>

fun call_registered :: "('f, 'u) ieee1901_2010_ctx \<Rightarrow> bytes \<Rightarrow> ('f, 'u) cb_call \<Rightarrow> bool" where
  "call_registered ctx osa (Station_information_call f a r d) \<longleftrightarrow>
     cc_discover_list_confirm_station_information_cb ctx = Some f
     \<and> d = cc_discover_list_confirm_station_information_cb_data ctx \<and> a = osa
     \<and> wf_station_information r"
| "call_registered ctx osa (Network_information_call f a r d) \<longleftrightarrow>
     cc_discover_list_confirm_network_information_cb ctx = Some f
     \<and> d = cc_discover_list_confirm_network_information_cb_data ctx \<and> a = osa
     \<and> wf_network_information r"
| "call_registered ctx osa (Nwinfo_call f a r d) \<longleftrightarrow>
     cm_nw_info_confirm_nwinfo_cb ctx = Some f
     \<and> d = cm_nw_info_confirm_nwinfo_cb_data ctx \<and> a = osa \<and> wf_nwinfo r"
| "call_registered ctx osa (Nw_stats_call f a r d) \<longleftrightarrow>
     cm_nw_stats_confirm_stats_cb ctx = Some f
     \<and> d = cm_nw_stats_confirm_stats_cb_data ctx \<and> a = osa \<and> wf_nw_stats r"
| "call_registered ctx osa (Link_stats_call f a h p n d) \<longleftrightarrow>
     cm_link_stats_confirm_stats_cb ctx = Some f
     \<and> d = cm_link_stats_confirm_stats_cb_data ctx \<and> a = osa
     \<and> n = of_nat (length p) \<and> sizeof_link_stats_receive_confirm \<le> length p"

lemma set_calls_of: "c \<in> set (calls_of cb call rs) \<longleftrightarrow> (\<exists>f r. cb = Some f \<and> r \<in> set rs \<and> c = call f r)"
  by (cases cb) (auto simp: calls_of_def)

lemmas body_defs = body_stations_def body_networks_def body_stats_def body_nwinfos_def

lemma spec_parts_registered:
  "c \<in> set (fst (spec_discover_list ctx osa asdu)) \<Longrightarrow> call_registered ctx osa c"
  "c \<in> set (fst (spec_nw_info ctx osa asdu)) \<Longrightarrow> call_registered ctx osa c"
  "c \<in> set (fst (spec_nw_stats ctx osa asdu)) \<Longrightarrow> call_registered ctx osa c"
  "c \<in> set (fst (spec_link_stats ctx osa asdu)) \<Longrightarrow> call_registered ctx osa c"
  subgoal by (auto simp: spec_discover_list_def set_calls_of body_stations_def body_networks_def Let_def
        dest: sta.records_of_wf net.records_of_wf split: if_splits)
  subgoal by (auto simp: spec_nw_info_def set_calls_of body_nwinfos_def
        dest: nwi.records_of_wf split: if_splits)
  subgoal by (auto simp: spec_nw_stats_def set_calls_of body_stats_def
        dest: nws.records_of_wf split: if_splits)
  subgoal by (auto simp: spec_link_stats_def set_calls_of sizeof_link_stats_confirm_head_def
        split: if_splits)
  done

lemma spec_calls_registered:
  "c \<in> set (fst (spec_handle_message ctx frame)) \<Longrightarrow> call_registered ctx (frame_osa frame) c"
  unfolding spec_handle_message_def Let_def
  by (simp split: if_splits add: spec_parts_registered)

lemma length_calls_of: "length (calls_of (Some f) call rs) = length rs"
  by (simp add: calls_of_def)


section \<open>Properties\<close>

text \<open>A frame and a context for the witnesses: one network statistics record for one callback.\<close>

definition sample_ctx :: "(nat, nat) ieee1901_2010_ctx" where
  "sample_ctx = zero_ctx\<lparr>cm_nw_stats_confirm_stats_cb := Some 7,
     cm_nw_stats_confirm_stats_cb_data := Some 9\<rparr>"

definition sample_stats_frame :: bytes where
  "sample_stats_frame = [1, 2, 3, 4, 5, 6, 7, 8, 9, 10, 11, 12, 0x88, 0xe1, 1, 0x49, 0x60, 0, 0,
     1, 20, 21, 22, 23, 24, 25, 62, 19]"

lemmas spec_eval = spec_handle_message_def zero_ctx_def frame_accepted_def sizeof_defs
  frame_mmtype_def u16_at_def le16_def frame_asdu_def frame_osa_def bitfield_def calls_of_def
  spec_nw_stats_def spec_nw_info_def spec_discover_list_def spec_link_stats_def
  body_defs body_network_pos_def body_complete_def
  nw_stats_of_def nwinfo_of_def station_information_of_def network_information_of_def

lemma sample_stats_spec:
  "spec_handle_message sample_ctx sample_stats_frame
    = ([Nw_stats_call 7 [7, 8, 9, 10, 11, 12] \<lparr>nws_da = [20, 21, 22, 23, 24, 25],
        nws_avg_pgy_tx = 62, nws_avg_pgy_rx = 19\<rparr> (Some 9)], EXIT_SUCCESS)"
  by (simp add: sample_ctx_def sample_stats_frame_def spec_eval)

lemma sample_stats_length: "length sample_stats_frame = 28"
  by (simp add: sample_stats_frame_def)

text \<open>
  C1: handling a received frame computes exactly what the message format says. For every frame below two
  gigabytes, \<open>ieee1901_2010_handle_message\<close> runs the callbacks of the specification on the complete records
  of the message, in their order, and returns its code; in particular no offset or counter is wrong.
\<close>
theorem handle_message_refines_spec:
  assumes "length frame < 2 ^ 31"
  shows "ieee1901_2010_handle_message (Some ctx) (Some frame) (of_nat (length frame))
    = Some (spec_handle_message ctx frame)"
  using assms by (rule handle_message_refines)

theorem handle_message_refines_spec_witness:
  "ieee1901_2010_handle_message (Some sample_ctx) (Some sample_stats_frame) 28
    = Some ([Nw_stats_call 7 [7, 8, 9, 10, 11, 12] \<lparr>nws_da = [20, 21, 22, 23, 24, 25],
        nws_avg_pgy_tx = 62, nws_avg_pgy_rx = 19\<rparr> (Some 9)], EXIT_SUCCESS)"
  using handle_message_refines_spec [of sample_stats_frame sample_ctx]
  by (simp add: sample_stats_length sample_stats_spec)

text \<open>
  C4: memory safety of the receive path. Whatever bytes arrive and whatever is registered, no read leaves
  the buffer as long as the buffer has the \<open>len\<close> bytes announced, for every value of \<open>len\<close>, also those
  that overflow the \<open>int\<close> counter.
\<close>
theorem handle_message_memory_safe:
  assumes "unat len \<le> length frame"
  shows "ieee1901_2010_handle_message ctx (Some frame) len \<noteq> None"
proof (cases ctx)
  case None
  then show ?thesis by (simp add: handle_message_null)
next
  case (Some c)
  then show ?thesis using assms handle_message_defined by blast
qed

theorem handle_message_memory_safe_witness:
  "ieee1901_2010_handle_message (Some sample_ctx) (Some sample_stats_frame) 22 \<noteq> None"
  by (rule handle_message_memory_safe) (simp add: sample_stats_frame_def)

text \<open>
  Only registered callbacks run. Every invocation uses the function registered for the kind of record,
  the user data registered with it, the source address of the frame and a well-formed record; the length
  given to the link statistics callback is the number of bytes behind its pointer.
\<close>
theorem callbacks_are_registered:
  assumes "length frame < 2 ^ 31"
    and "ieee1901_2010_handle_message (Some ctx) (Some frame) (of_nat (length frame)) = Some (calls, rc)"
    and "c \<in> set calls"
  shows "call_registered ctx (frame_osa frame) c"
proof -
  have "spec_handle_message ctx frame = (calls, rc)"
    using assms(2) handle_message_refines [OF assms(1), of ctx] by simp
  then show ?thesis
    using assms(3) spec_calls_registered [of c ctx frame] by simp
qed

lemma sample_stats_handled:
  "ieee1901_2010_handle_message (Some sample_ctx) (Some sample_stats_frame)
     (of_nat (length sample_stats_frame))
    = Some ([Nw_stats_call 7 [7, 8, 9, 10, 11, 12] \<lparr>nws_da = [20, 21, 22, 23, 24, 25],
        nws_avg_pgy_tx = 62, nws_avg_pgy_rx = 19\<rparr> (Some 9)], EXIT_SUCCESS)"
  using handle_message_refines [of sample_stats_frame sample_ctx]
  by (simp add: sample_stats_spec sample_stats_length)

theorem callbacks_are_registered_witness:
  "call_registered sample_ctx (frame_osa sample_stats_frame)
     (Nw_stats_call 7 [7, 8, 9, 10, 11, 12] \<lparr>nws_da = [20, 21, 22, 23, 24, 25],
        nws_avg_pgy_tx = 62, nws_avg_pgy_rx = 19\<rparr> (Some 9))"
  by (rule callbacks_are_registered [OF _ sample_stats_handled])
    (simp_all add: sample_stats_frame_def)

text \<open>
  C38: a discover list is never reported as handled. Even when every announced station and network is there
  and every callback has run, the return code is \<open>EXIT_FAILURE\<close>, while the parsers of the other messages
  return \<open>EXIT_SUCCESS\<close> in that case.
\<close>
theorem discover_list_reports_failure:
  assumes "length frame < 2 ^ 31" and "frame_accepted frame" and "frame_mmtype frame = 0x0015"
    and "cc_discover_list_confirm_station_information_cb ctx = Some f"
    and "2 \<le> length (frame_asdu frame)"
  shows "\<exists>calls. ieee1901_2010_handle_message (Some ctx) (Some frame) (of_nat (length frame))
      = Some (calls, EXIT_FAILURE)
    \<and> length (body_stations (frame_asdu frame)) \<le> length calls"
  using assms by (simp add: handle_message_refines spec_handle_message_def spec_discover_list_def
      length_calls_of Let_def)

definition sample_discover_ctx :: "(nat, nat) ieee1901_2010_ctx" where
  "sample_discover_ctx = zero_ctx\<lparr>cc_discover_list_confirm_station_information_cb := Some 5\<rparr>"

definition sample_discover_frame :: bytes where
  "sample_discover_frame = [1, 2, 3, 4, 5, 6, 7, 8, 9, 10, 11, 12, 0x88, 0xe1, 1, 0x15, 0, 0, 0,
     1, 20, 21, 22, 23, 24, 25, 1, 1, 1, 0, 60, 61, 0]"

theorem discover_list_reports_failure_witness:
  "\<exists>calls. ieee1901_2010_handle_message (Some sample_discover_ctx) (Some sample_discover_frame)
      (of_nat (length sample_discover_frame)) = Some (calls, EXIT_FAILURE)
    \<and> length (body_stations (frame_asdu sample_discover_frame)) \<le> length calls"
  by (rule discover_list_reports_failure)
    (simp_all add: sample_discover_frame_def sample_discover_ctx_def spec_eval)

text \<open>
  C39: vendor-specific messages are not turned away. The message type is stored least significant byte first,
  but the check that is meant to reject types above \<open>0x7ffc\<close> reads it in network order; a frame with any
  manufacturer or vendor type whose low byte is below \<open>0x7f\<close> passes and is answered with success.
\<close>
theorem vendor_types_pass_the_check:
  assumes "19 \<le> unat len" and "unat len \<le> length frame"
    and "frame ! 12 = 0x88" and "frame ! 13 = 0xe1" and "bitfield 0 4 (frame ! 17) = 0"
    and "0x8000 \<le> frame_mmtype frame" and "frame ! 15 < 0x7f"
  shows "ieee1901_2010_handle_message (Some ctx) (Some frame) len = Some ([], EXIT_SUCCESS)"
proof -
  have "unat (frame ! 15) < 127"
    using assms(7) by (simp add: word_less_nat_alt)
  then have "256 * unat (frame ! 15) + unat (frame ! 16) \<le> 32764"
    using unat_u8_less [of "frame ! 16"] by linarith
  then have "frame_accepted frame"
    using assms by (simp add: frame_accepted_def sizeof_MM_APDU_Standard_Header_def)
  moreover have "frame_mmtype frame \<noteq> w" if "w < 0x8000" for w
    using assms(6) that by auto
  ultimately show ?thesis
    using assms(1,2) by (simp add: handle_message_cases)
qed

definition sample_vendor_frame :: bytes where
  "sample_vendor_frame = [1, 2, 3, 4, 5, 6, 7, 8, 9, 10, 11, 12, 0x88, 0xe1, 1, 0x01, 0xa0, 0, 0xb0]"

theorem vendor_types_pass_the_check_witness:
  "ieee1901_2010_handle_message (Some sample_ctx) (Some sample_vendor_frame) 19 = Some ([], EXIT_SUCCESS)"
  by (rule vendor_types_pass_the_check)
    (simp_all add: sample_vendor_frame_def frame_mmtype_def u16_at_def le16_def bitfield_def)

end
