(* ===== verification/Ieee_Send.thy ===== *)
theory Ieee_Send
  imports Ieee_Handler
begin

text \<open>
  The sending half of \<^verbatim>\<open>src/ieee1901-2010.c\<close>. \<open>write\<close> and \<open>writev\<close> are system calls: what the code hands to
  them is part of the result, what they return is the argument \<open>os\<close>, a function of the call. The address
  arguments point to objects of at least six bytes; a shorter object, or a payload shorter than its length,
  is read outside its bounds (\<^term>\<open>None\<close>).

  \<open>oper\<close> is taken at the 16 bits of the field \<open>type | oper\<close> is stored to.
\<close>

section \<open>ieee1901_2010_message_send\<close>

datatype io_op = Write_op int bytes | Writev_op int "bytes list"

text \<open>The bytes that a system call puts on the wire in one frame.\<close>

fun wire_bytes :: "io_op \<Rightarrow> bytes" where
  "wire_bytes (Write_op fd buf) = buf"
| "wire_bytes (Writev_op fd iov) = concat iov"

definition message_header :: "bytes \<Rightarrow> bytes \<Rightarrow> u8 \<Rightarrow> u16 \<Rightarrow> u16 \<Rightarrow> MM_APDU_Standard_Header" where
  "message_header oda osa mmv type oper = \<lparr>
     sh_l2 = \<lparr>l2_oda = oda, l2_osa = osa, l2_mtype = htons IEEE1901_2010_ETHERTYPE\<rparr>,
     sh_apdu_hdr = \<lparr>ah_mmv = mmv, ah_mmtype = type OR oper\<rparr>,
     sh_nf_mi = 0, sh_fn_mi = 0, sh_fmsn = 0\<rparr>"

definition ieee1901_2010_message_send ::
  "(io_op \<Rightarrow> int) \<Rightarrow> int \<Rightarrow> bytes \<Rightarrow> bytes \<Rightarrow> u8 \<Rightarrow> u16 \<Rightarrow> u16 \<Rightarrow> bytes option \<Rightarrow> u64
     \<Rightarrow> (io_op option \<times> int) option" where
  "ieee1901_2010_message_send os fd oda osa mmv type oper payload len = do {
     hdr_oda \<leftarrow> rd oda 0 6;
     hdr_osa \<leftarrow> rd osa 0 6;
     let hdr = MM_APDU_Standard_Header_bytes (message_header hdr_oda hdr_osa mmv type oper);
     let frame = hdr @ replicate (IEEE1901_2010_MIN_MSG_SIZE - sizeof_MM_APDU_Standard_Header) 0;
     if len = 0 then
       (let call = Write_op fd frame in Some (Some call, os call))
     else
       (case payload of
          None \<Rightarrow> Some (None, - EINVAL)
        | Some payload \<Rightarrow>
            if len > 1500 - of_nat sizeof_MM_APDU_Standard_Header then Some (None, - EINVAL)
            else do {
              body \<leftarrow> rd payload 0 (unat len);
              let apdu_len = sizeof_MM_APDU_Standard_Header + unat len;
              let pad = (if apdu_len < IEEE1901_2010_MIN_MSG_SIZE
                         then [replicate (IEEE1901_2010_MIN_MSG_SIZE - apdu_len) 0] else []);
              let call = Writev_op fd ([hdr, body] @ pad);
              Some (Some call, os call)
            })
   }"

text \<open>\<open>/* TODO */ return 0;\<close>\<close>

definition ieee1901_2010_vendor_message_send ::
  "int \<Rightarrow> bytes \<Rightarrow> bytes \<Rightarrow> u8 \<Rightarrow> u16 \<Rightarrow> u16 \<Rightarrow> bytes \<Rightarrow> bytes option \<Rightarrow> u64 \<Rightarrow> io_op option \<times> int" where
  "ieee1901_2010_vendor_message_send fd oda osa mmv type oper oui payload len = (None, 0)"


section \<open>What is sent\<close>

definition frame_of_message :: "bytes \<Rightarrow> bytes \<Rightarrow> u8 \<Rightarrow> u16 \<Rightarrow> bytes \<Rightarrow> bytes" where
  "frame_of_message oda osa mmv mmtype body =
     MM_APDU_Standard_Header_bytes (message_header oda osa mmv mmtype 0) @ body
     @ replicate (IEEE1901_2010_MIN_MSG_SIZE - (sizeof_MM_APDU_Standard_Header + length body)) 0"

lemma wf_message_header:
  "length oda = 6 \<Longrightarrow> length osa = 6 \<Longrightarrow>
   wf_MM_APDU_Standard_Header (message_header oda osa mmv type oper)"
  by (simp add: message_header_def wf_MM_APDU_Standard_Header_def wf_MM_L2_Header_def
      wf_MM_APDU_Header_def fits_def)

lemma length_message_header:
  "length oda = 6 \<Longrightarrow> length osa = 6 \<Longrightarrow>
   length (MM_APDU_Standard_Header_bytes (message_header oda osa mmv type oper)) = 19"
  using sh.length_enc [OF wf_message_header] by (simp add: sizeof_MM_APDU_Standard_Header_def)

lemma message_header_type:
  "message_header oda osa mmv type oper = message_header oda osa mmv (type OR oper) 0"
  by (simp add: message_header_def)

lemma length_frame_of_message:
  "length oda = 6 \<Longrightarrow> length osa = 6 \<Longrightarrow>
   length (frame_of_message oda osa mmv mmtype body) = max 60 (19 + length body)"
  by (simp add: frame_of_message_def length_message_header IEEE1901_2010_MIN_MSG_SIZE_def
      sizeof_MM_APDU_Standard_Header_def)

text \<open>The three ways a call can end, for addresses of six bytes.\<close>

lemma message_send_empty:
  assumes "length oda = 6" "length osa = 6"
  shows "ieee1901_2010_message_send os fd oda osa mmv type oper payload 0 =
    (let call = Write_op fd (frame_of_message oda osa mmv (type OR oper) [])
     in Some (Some call, os call))"
  using assms message_header_type [of oda osa mmv type oper]
  by (simp add: ieee1901_2010_message_send_def rd_ok frame_of_message_def)

lemma message_send_rejects:
  assumes "length oda = 6" "length osa = 6" "len \<noteq> 0" "payload = None \<or> 1481 < unat len"
  shows "ieee1901_2010_message_send os fd oda osa mmv type oper payload len = Some (None, - EINVAL)"
proof -
  have "1481 < len" if "1481 < unat len"
    using that by (simp add: word_less_nat_alt)
  then show ?thesis
    using assms by (auto simp: ieee1901_2010_message_send_def rd_ok sizeof_MM_APDU_Standard_Header_def
        split: option.split)
qed

lemma message_send_body:
  assumes "length oda = 6" "length osa = 6" "0 < length body" "length body \<le> 1481"
  shows "\<exists>call. ieee1901_2010_message_send os fd oda osa mmv type oper (Some body)
      (of_nat (length body)) = Some (Some call, os call)
    \<and> wire_bytes call = frame_of_message oda osa mmv (type OR oper) body"
proof -
  have len: "unat (of_nat (length body) :: u64) = length body"
    using assms by (simp add: unat_of_nat take_bit_nat_eq_self)
  then have "(of_nat (length body) :: u64) \<noteq> 0" "\<not> 1481 < (of_nat (length body) :: u64)"
    using assms by (auto simp: word_less_nat_alt)
  then show ?thesis
    using assms len message_header_type [of oda osa mmv type oper]
    by (simp add: ieee1901_2010_message_send_def rd_ok frame_of_message_def Let_def
        sizeof_MM_APDU_Standard_Header_def IEEE1901_2010_MIN_MSG_SIZE_def)
qed

end
