(* ===== verification/Ieee_Exchange.thy ===== *)
theory Ieee_Exchange
  imports Ieee_Spec Ieee_Send
begin

text \<open>
  Sending and receiving together: what \<open>ieee1901_2010_handle_message\<close> makes of the frames that
  \<open>ieee1901_2010_message_send\<close> builds.
\<close>

section \<open>The parts of a sent frame\<close>

lemma frame_of_message_bytes:
  "frame_of_message dst src mmv mmtype body = dst @ src
     @ [0x88, 0xe1, mmv, ucast mmtype, ucast (drop_bit 8 mmtype), 0, 0]
     @ body @ replicate (41 - length body) 0"
  by (simp add: frame_of_message_def message_header_def MM_APDU_Standard_Header_bytes_def MM_L2_Header_bytes_def
      MM_APDU_Header_bytes_def le16_bytes_def htons_def IEEE1901_2010_ETHERTYPE_def nibbles_def
      IEEE1901_2010_MIN_MSG_SIZE_def sizeof_MM_APDU_Standard_Header_def)

lemma sent_frame:
  assumes "length dst = 6" "length src = 6"
  shows "frame_osa (frame_of_message dst src mmv mmtype body) = src"
    and "frame_mmtype (frame_of_message dst src mmv mmtype body) = mmtype"
    and "frame_asdu (frame_of_message dst src mmv mmtype body) = body @ replicate (41 - length body) 0"
    and "frame_accepted (frame_of_message dst src mmv mmtype body)
      \<longleftrightarrow> 256 * unat (ucast mmtype :: u8) + unat (ucast (drop_bit 8 mmtype) :: u8) \<le> 0x7ffc"
  using assms
  by (simp_all add: frame_of_message_bytes frame_osa_def frame_mmtype_def frame_asdu_def frame_accepted_def
      u16_at_def nth_append sizeof_MM_APDU_Standard_Header_def bitfield_def)

lemma sent_frame_handled:
  assumes "length dst = 6" "length src = 6" "length body \<le> 1481"
  shows "ieee1901_2010_handle_message (Some ctx) (Some (frame_of_message dst src mmv mmtype body))
      (of_nat (length (frame_of_message dst src mmv mmtype body)))
    = Some (spec_handle_message ctx (frame_of_message dst src mmv mmtype body))"
  using assms by (intro handle_message_refines) (simp add: length_frame_of_message)


section \<open>Records\<close>

lemma unat_count: "length rs < 256 \<Longrightarrow> unat (of_nat (length rs) :: u8) = length rs"
  by (simp add: unat_of_nat take_bit_nat_eq_self)

lemma sent_records:
  "\<forall>r\<in>set rs. wf_nw_stats r \<Longrightarrow> length rs < 256 \<Longrightarrow>
    body_stats (of_nat (length rs) # concat (map nw_stats_bytes rs) @ rest) = rs"
  "\<forall>r\<in>set infos. wf_nwinfo r \<Longrightarrow> length infos < 256 \<Longrightarrow>
    body_nwinfos (of_nat (length infos) # concat (map nwinfo_bytes infos) @ rest) = infos"
  "\<forall>r\<in>set stas. wf_station_information r \<Longrightarrow> length stas < 256 \<Longrightarrow>
    body_stations (of_nat (length stas) # concat (map station_information_bytes stas) @ rest) = stas"
  using nws.records_of_concat_enc [of rs rest] nwi.records_of_concat_enc [of infos rest]
    sta.records_of_concat_enc [of stas rest]
  by (auto simp: body_stats_def body_nwinfos_def body_stations_def unat_count)

lemma length_concat_records:
  "\<forall>r\<in>set rs. wf_nw_stats r \<Longrightarrow> length (concat (map nw_stats_bytes rs)) = 8 * length rs"
  "\<forall>r\<in>set ns. wf_nwinfo r \<Longrightarrow> length (concat (map nwinfo_bytes ns)) = 18 * length ns"
  "\<forall>r\<in>set ss. wf_station_information r \<Longrightarrow> length (concat (map station_information_bytes ss)) = 12 * length ss"
  "\<forall>r\<in>set ts. wf_network_information r \<Longrightarrow> length (concat (map network_information_bytes ts)) = 13 * length ts"
  by (simp_all add: nws.length_concat_enc nwi.length_concat_enc sta.length_concat_enc net.length_concat_enc
      sizeof_defs)

definition discover_list_body :: "station_information list \<Rightarrow> network_information list \<Rightarrow> bytes" where
  "discover_list_body stas nets =
     of_nat (length stas) # concat (map station_information_bytes stas)
     @ of_nat (length nets) # concat (map network_information_bytes nets)"

lemma sent_networks:
  assumes "length stas < 256" "length nets < 256" "\<forall>r\<in>set stas. wf_station_information r"
    "\<forall>r\<in>set nets. wf_network_information r"
  shows "body_networks (discover_list_body stas nets @ rest) = nets"
  using assms net.records_of_concat_enc [of nets rest]
  by (simp add: body_networks_def body_network_pos_def discover_list_body_def unat_count nth_append
      length_concat_records sizeof_station_information_def sizeof_network_information_def)


section \<open>Properties\<close>

text \<open>
  C18: \<^verbatim>\<open>ieee1901_2010_message_send\<close> on every branch, for addresses of six bytes and any payload: a length without
  a payload and a payload of more than 1481 bytes are refused with \<open>-EINVAL\<close> and nothing is sent; otherwise
  exactly one frame goes out, the result of the system call is returned, and the frame has between 60 and
  1500 bytes, begins with the header for the addresses, version and \<open>type | oper\<close>, and continues with the
  payload and zeros.
\<close>
theorem message_send_spec:
  assumes "length dst = 6" and "length src = 6" and "\<forall>p. payload = Some p \<longrightarrow> unat len \<le> length p"
  shows "if len \<noteq> 0 \<and> (payload = None \<or> 1481 < unat len)
    then ieee1901_2010_message_send os fd dst src mmv type oper payload len = Some (None, - EINVAL)
    else \<exists>call. ieee1901_2010_message_send os fd dst src mmv type oper payload len = Some (Some call, os call)
      \<and> 60 \<le> length (wire_bytes call) \<and> length (wire_bytes call) \<le> 1500
      \<and> MM_APDU_Standard_Header_of (take 19 (wire_bytes call)) = message_header dst src mmv type oper
      \<and> frame_asdu (wire_bytes call) = (let body = (if len = 0 then [] else take (unat len) (the payload))
          in body @ replicate (41 - length body) 0)"
proof -
  let ?body = "if len = 0 then [] else take (unat len) (the payload)"
  let ?frame = "frame_of_message dst src mmv (type OR oper) ?body"
  have header: "MM_APDU_Standard_Header_of (take 19 ?frame) = message_header dst src mmv type oper"
    using sh.dec_enc [OF wf_message_header [OF assms(1,2), of mmv "type OR oper" 0]]
      length_message_header [OF assms(1,2), of mmv "type OR oper" 0]
    by (simp add: frame_of_message_def) (simp add: message_header_def)
  show ?thesis
  proof (cases "len \<noteq> 0 \<and> (payload = None \<or> 1481 < unat len)")
    case True
    then show ?thesis
      using message_send_rejects [OF assms(1,2)] by simp
  next
    case False
    have "\<exists>call. ieee1901_2010_message_send os fd dst src mmv type oper payload len = Some (Some call, os call)
        \<and> wire_bytes call = ?frame \<and> length ?body \<le> 1481"
    proof (cases "len = 0")
      case True
      then show ?thesis
        using message_send_empty [OF assms(1,2)] by (simp add: Let_def)
    next
      case nonempty: False
      then obtain p where p: "payload = Some p" "unat len \<le> length p" "unat len \<le> 1481"
        using False assms(3) by auto
      have cut: "ieee1901_2010_message_send os fd dst src mmv type oper (Some p) len
          = ieee1901_2010_message_send os fd dst src mmv type oper (Some (take (unat len) p)) len"
        using p(2) nonempty assms(1,2)
        by (simp add: ieee1901_2010_message_send_def rd_ok Let_def split: if_split)
      have "0 < unat len"
        using nonempty by (simp add: unat_gt_0)
      then show ?thesis
        using message_send_body [OF assms(1,2), of "take (unat len) p" os fd mmv type oper] p nonempty
        by (simp add: cut min_absorb2)
    qed
    then show ?thesis
      using False header sent_frame(3) [OF assms(1,2)] length_frame_of_message [OF assms(1,2)]
      by (auto simp: Let_def simp del: One_nat_def)
  qed
qed

definition sample_dst :: bytes where "sample_dst = [1, 2, 3, 4, 5, 6]"
definition sample_src :: bytes where "sample_src = [7, 8, 9, 10, 11, 12]"

theorem message_send_spec_witness:
  "\<exists>call. ieee1901_2010_message_send (\<lambda>_. 60) 4 sample_dst sample_src 1 0x6048 0 (Some [5, 6, 7]) 2
      = Some (Some call, 60)
    \<and> frame_asdu (wire_bytes call) = [5, 6] @ replicate 39 0"
  using message_send_spec [of sample_dst sample_src "Some [5, 6, 7]" 2 "\<lambda>_. 60" 4 1 "0x6048" 0]
  by (auto simp: sample_dst_def sample_src_def)

text \<open>
  C25: What one side sends as network statistics or network infos, the other side reads: the frame that
  \<^verbatim>\<open>ieee1901_2010_message_send\<close> builds for a confirm message with a count byte and encoded records makes
  \<^verbatim>\<open>ieee1901_2010_handle_message\<close> run the registered callback on exactly these records, in order, with the
  sender's address, and report success.
\<close>
theorem record_lists_roundtrip:
  assumes "length dst = 6" and "length src = 6"
    and "\<forall>r\<in>set rs. wf_nw_stats r" and "length rs \<le> 185"
    and "\<forall>r\<in>set infos. wf_nwinfo r" and "length infos \<le> 82"
    and "cm_nw_stats_confirm_stats_cb ctx = Some f" and "cm_nw_info_confirm_nwinfo_cb ctx = Some g"
  shows "\<exists>call call'.
    ieee1901_2010_message_send os fd dst src mmv MM_TYPE_CM_NW_STATS MMOperationTypeConfirm
      (Some (of_nat (length rs) # concat (map nw_stats_bytes rs))) (of_nat (1 + 8 * length rs)) = Some (Some call, os call)
    \<and> ieee1901_2010_handle_message (Some ctx) (Some (wire_bytes call)) (of_nat (length (wire_bytes call)))
      = Some (map (\<lambda>r. Nw_stats_call f src r (cm_nw_stats_confirm_stats_cb_data ctx)) rs, EXIT_SUCCESS)
    \<and> ieee1901_2010_message_send os fd dst src mmv MM_TYPE_CM_NW_INFO MMOperationTypeConfirm
      (Some (of_nat (length infos) # concat (map nwinfo_bytes infos))) (of_nat (1 + 18 * length infos))
      = Some (Some call', os call')
    \<and> ieee1901_2010_handle_message (Some ctx) (Some (wire_bytes call')) (of_nat (length (wire_bytes call')))
      = Some (map (\<lambda>r. Nwinfo_call g src r (cm_nw_info_confirm_nwinfo_cb_data ctx)) infos, EXIT_SUCCESS)"
proof -
  let ?b = "of_nat (length rs) # concat (map nw_stats_bytes rs)"
  let ?b' = "of_nat (length infos) # concat (map nwinfo_bytes infos)"
  have len: "length ?b = 1 + 8 * length rs" "length ?b' = 1 + 18 * length infos"
    using assms(3,5) by (simp_all add: length_concat_records)
  have stats: "spec_handle_message ctx (frame_of_message dst src mmv 0x6049 ?b)
      = (map (\<lambda>r. Nw_stats_call f src r (cm_nw_stats_confirm_stats_cb_data ctx)) rs, EXIT_SUCCESS)"
    using sent_frame [OF assms(1,2)] sent_records(1) [of rs] assms(3,4,7) len(1)
    by (simp add: spec_handle_message_def spec_nw_stats_def calls_of_def body_complete_def sizeof_nw_stats_def
        unat_count)
  have infos: "spec_handle_message ctx (frame_of_message dst src mmv 0x6039 ?b')
      = (map (\<lambda>r. Nwinfo_call g src r (cm_nw_info_confirm_nwinfo_cb_data ctx)) infos, EXIT_SUCCESS)"
    using sent_frame [OF assms(1,2)] sent_records(2) [of infos] assms(5,6,8) len(2)
    by (simp add: spec_handle_message_def spec_nw_info_def calls_of_def body_complete_def sizeof_nwinfo_def
        unat_count)
  have types: "MM_TYPE_CM_NW_STATS OR MMOperationTypeConfirm = 0x6049" "MM_TYPE_CM_NW_INFO OR MMOperationTypeConfirm = 0x6039"
    by (simp_all add: MM_TYPE_CM_NW_STATS_def MM_TYPE_CM_NW_INFO_def MMOperationTypeConfirm_def)
  obtain call where call: "ieee1901_2010_message_send os fd dst src mmv MM_TYPE_CM_NW_STATS MMOperationTypeConfirm
      (Some ?b) (of_nat (1 + 8 * length rs)) = Some (Some call, os call)"
      "wire_bytes call = frame_of_message dst src mmv 0x6049 ?b"
    using message_send_body [OF assms(1,2), of ?b os fd mmv MM_TYPE_CM_NW_STATS MMOperationTypeConfirm]
      assms(4) unfolding len types by auto
  obtain call' where call': "ieee1901_2010_message_send os fd dst src mmv MM_TYPE_CM_NW_INFO MMOperationTypeConfirm
      (Some ?b') (of_nat (1 + 18 * length infos)) = Some (Some call', os call')"
      "wire_bytes call' = frame_of_message dst src mmv 0x6039 ?b'"
    using message_send_body [OF assms(1,2), of ?b' os fd mmv MM_TYPE_CM_NW_INFO MMOperationTypeConfirm]
      assms(6) unfolding len types by auto
  have "length ?b \<le> 1481" "length ?b' \<le> 1481"
    using assms(4,6) unfolding len by simp_all
  from this [THEN sent_frame_handled [OF assms(1,2)]] show ?thesis
    using call call' stats infos by metis
qed

definition sample_exchange_ctx :: "(nat, nat) ieee1901_2010_ctx" where
  "sample_exchange_ctx = zero_ctx\<lparr>cm_nw_stats_confirm_stats_cb := Some 7, cm_nw_info_confirm_nwinfo_cb := Some 8,
     cc_discover_list_confirm_station_information_cb := Some 9\<rparr>"

definition sample_stats_record :: nw_stats where
  "sample_stats_record = \<lparr>nws_da = [1, 2, 3, 4, 5, 6], nws_avg_pgy_tx = 62, nws_avg_pgy_rx = 19\<rparr>"

theorem record_lists_roundtrip_witness:
  "\<exists>call. ieee1901_2010_message_send (\<lambda>_. 60) 4 sample_dst sample_src 1 MM_TYPE_CM_NW_STATS MMOperationTypeConfirm
      (Some [1, 1, 2, 3, 4, 5, 6, 62, 19]) 9 = Some (Some call, 60)
    \<and> ieee1901_2010_handle_message (Some sample_exchange_ctx) (Some (wire_bytes call))
        (of_nat (length (wire_bytes call)))
      = Some ([Nw_stats_call 7 sample_src sample_stats_record None], EXIT_SUCCESS)"
  using record_lists_roundtrip [of sample_dst sample_src "[sample_stats_record]" "[]" sample_exchange_ctx 7 8
      "\<lambda>_. 60" 4 1]
  by (auto simp: sample_dst_def sample_src_def sample_exchange_ctx_def zero_ctx_def sample_stats_record_def
      wf_nw_stats_def nw_stats_bytes_def)

text \<open>
  C13: A discover list survives the exchange as well: the stations and the networks of the confirm message reach
  their callbacks, all stations before all networks, whatever callbacks are registered. The code reported for
  it is always \<open>EXIT_FAILURE\<close>.
\<close>
theorem discover_list_roundtrip:
  assumes "length dst = 6" and "length src = 6"
    and "\<forall>r\<in>set stas. wf_station_information r" and "\<forall>r\<in>set nets. wf_network_information r"
    and "length stas < 256" and "length nets < 256" and "12 * length stas + 13 * length nets \<le> 1479"
    and "cc_discover_list_confirm_station_information_cb ctx \<noteq> None
      \<or> cc_discover_list_confirm_network_information_cb ctx \<noteq> None"
  shows "\<exists>call. ieee1901_2010_message_send os fd dst src mmv MM_TYPE_CC_DISCOVER_LIST MMOperationTypeConfirm
      (Some (discover_list_body stas nets)) (of_nat (length (discover_list_body stas nets))) = Some (Some call, os call)
    \<and> ieee1901_2010_handle_message (Some ctx) (Some (wire_bytes call)) (of_nat (length (wire_bytes call)))
      = Some (calls_of (cc_discover_list_confirm_station_information_cb ctx)
            (\<lambda>f r. Station_information_call f src r (cc_discover_list_confirm_station_information_cb_data ctx)) stas
        @ calls_of (cc_discover_list_confirm_network_information_cb ctx)
            (\<lambda>f r. Network_information_call f src r (cc_discover_list_confirm_network_information_cb_data ctx)) nets,
        EXIT_FAILURE)"
proof -
  let ?b = "discover_list_body stas nets"
  have len: "length ?b = 2 + 12 * length stas + 13 * length nets"
    using assms(3,4) by (simp add: discover_list_body_def length_concat_records)
  have type: "MM_TYPE_CC_DISCOVER_LIST OR MMOperationTypeConfirm = 0x0015"
    by (simp add: MM_TYPE_CC_DISCOVER_LIST_def MMOperationTypeConfirm_def)
  have bodies: "body_stations (?b @ rest) = stas" "body_networks (?b @ rest) = nets" for rest
    using sent_records(3) [OF assms(3,5)] sent_networks [OF assms(5,6,3,4)] by (simp_all add: discover_list_body_def)
  have spec: "spec_handle_message ctx (frame_of_message dst src mmv 0x0015 ?b) = spec_discover_list ctx src
      (?b @ replicate (41 - length ?b) 0)"
    using sent_frame [OF assms(1,2)] assms(8) by (auto simp: spec_handle_message_def Let_def)
  obtain call where call: "ieee1901_2010_message_send os fd dst src mmv MM_TYPE_CC_DISCOVER_LIST MMOperationTypeConfirm
      (Some ?b) (of_nat (length ?b)) = Some (Some call, os call)"
      "wire_bytes call = frame_of_message dst src mmv 0x0015 ?b"
    using message_send_body [OF assms(1,2), of ?b os fd mmv MM_TYPE_CC_DISCOVER_LIST MMOperationTypeConfirm]
      assms(7) len unfolding type by auto
  have "length ?b \<le> 1481" "2 \<le> length ?b"
    using assms(7) len by simp_all
  then show ?thesis
    using call sent_frame_handled [OF assms(1,2), of ?b ctx mmv "0x0015"]
    by (simp add: spec spec_discover_list_def bodies)
qed

definition sample_station :: station_information where
  "sample_station = station_information_of [1, 2, 3, 4, 5, 6, 7, 1, 3, 4, 9, 9]"

theorem discover_list_roundtrip_witness:
  "\<exists>call. ieee1901_2010_message_send (\<lambda>_. 60) 4 sample_dst sample_src 1 MM_TYPE_CC_DISCOVER_LIST MMOperationTypeConfirm
      (Some (discover_list_body [sample_station] [])) (of_nat (length (discover_list_body [sample_station] [])))
      = Some (Some call, 60)
    \<and> ieee1901_2010_handle_message (Some sample_exchange_ctx) (Some (wire_bytes call)) (of_nat (length (wire_bytes call)))
      = Some ([Station_information_call 9 sample_src sample_station None], EXIT_FAILURE)"
proof -
  have "wf_station_information sample_station"
    unfolding sample_station_def by (rule sta.wf_dec) (simp add: sizeof_station_information_def)
  then show ?thesis
    using discover_list_roundtrip [of sample_dst sample_src "[sample_station]" "[]" sample_exchange_ctx "\<lambda>_. 60" 4 1]
    by (simp add: sample_dst_def sample_src_def sample_exchange_ctx_def zero_ctx_def calls_of_def)
qed

text \<open>
  Every message type of the table, with each of the four operations, passes the checks of
  \<^verbatim>\<open>ieee1901_2010_handle_message\<close>, and only confirm messages have an effect: a request, indication or response
  of a type of the table is reported as handled and runs no callback, whatever its payload. So the programs
  do not react to the requests they send, nor to those of each other.
\<close>
theorem only_confirms_run_callbacks:
  assumes "length dst = 6" and "length src = 6" and "length body \<le> 1481"
    and "t \<in> set MMTypes" and "oper < MMOperationType_EOF" and "oper \<noteq> MMOperationTypeConfirm"
  shows "ieee1901_2010_handle_message (Some ctx) (Some (frame_of_message dst src mmv (type_base t OR oper) body))
      (of_nat (length (frame_of_message dst src mmv (type_base t OR oper) body))) = Some ([], EXIT_SUCCESS)"
proof -
  have "list_all (\<lambda>base. list_all (\<lambda>oper.
      256 * unat (ucast (base OR oper) :: u8) + unat (ucast (drop_bit 8 (base OR oper)) :: u8) \<le> 0x7ffc
      \<and> base OR oper \<notin> {0x0015, 0x6039, 0x6049, 0x604d}) [0, 2, 3]) (map type_base MMTypes)"
    unfolding MMTypes_bases by simp
  moreover have "oper \<in> set [0, 2, 3]"
    using u16_less_4 [of oper] assms(5,6) by (auto simp: mm_operation_defs)
  ultimately have "frame_accepted (frame_of_message dst src mmv (type_base t OR oper) body)
      \<and> type_base t OR oper \<notin> {0x0015, 0x6039, 0x6049, 0x604d}"
    using assms(4) sent_frame(4) [OF assms(1,2)] by (auto simp: list_all_iff)
  then show ?thesis
    using sent_frame(2) [OF assms(1,2)]
    by (simp add: sent_frame_handled [OF assms(1-3)] spec_handle_message_def Let_def)
qed

theorem only_confirms_run_callbacks_witness:
  "ieee1901_2010_handle_message (Some sample_exchange_ctx)
      (Some (frame_of_message sample_dst sample_src 1 (type_base (MMTypes ! 56) OR 0) [5, 6]))
      (of_nat (length (frame_of_message sample_dst sample_src 1 (type_base (MMTypes ! 56) OR 0) [5, 6])))
    = Some ([], EXIT_SUCCESS)"
  by (rule only_confirms_run_callbacks)
    (simp_all add: sample_dst_def sample_src_def MMTypes_def mm_operation_defs)

end
