(* ===== verification/Interfaces.thy ===== *)
theory Interfaces
  imports C_Prelude "HOL-Library.State_Monad" "HOL-Library.Multiset"
begin

text \<open>
  Contracts that several components have in common: objects that own resources between a constructor and a
  destructor, and a detailed step relation that simulates an abstract one. The theories that provide them
  interpret the locales on their own definitions.
\<close>

section \<open>Running the state monad\<close>

lemma run_state_return [simp]: "run_state (State_Monad.return x) s = (x, s)"
  by (simp add: State_Monad.return_def)

lemma run_state_if [simp]:
  "run_state (if b then m else m') s = (if b then run_state m s else run_state m' s)"
  by simp

section \<open>Resources\<close>

text \<open>
  A constructor and a destructor of an object that owns resources: a failing constructor holds nothing
  more, a successful one holds what the object owns, and the destructor gives exactly that back.
\<close>

locale lifecycle =
  fixes create :: "'s \<Rightarrow> 'c option \<times> 's"
    and destroy :: "'c \<Rightarrow> 's \<Rightarrow> 's"
    and held :: "'s \<Rightarrow> 'r multiset option"
    and owned :: "'c \<Rightarrow> 'r multiset"
    and valid :: "'c \<Rightarrow> bool"
  assumes create_fails: "create s = (None, s') \<Longrightarrow> held s = Some h \<Longrightarrow> held s' = Some h"
    and create_holds: "create s = (Some c, s') \<Longrightarrow> held s = Some h \<Longrightarrow> valid c \<and> held s' = Some (owned c + h)"
    and destroy_releases: "valid c \<Longrightarrow> held s = Some (owned c + h) \<Longrightarrow> held (destroy c s) = Some h"
begin

text \<open>A program that uses the object between the two leaves nothing behind.\<close>

lemma no_leak:
  assumes "held s = Some h" and "create s = (r, s')"
    and "\<And>c. r = Some c \<Longrightarrow> valid c \<Longrightarrow> valid (use c) \<and> owned (use c) = owned c"
  shows "held (case r of None \<Rightarrow> s' | Some c \<Rightarrow> destroy (use c) s') = Some h"
  using assms create_fails [of s s' h] create_holds [of s _ s' h] destroy_releases [of _ s' h]
  by (cases r) fastforce+

end


section \<open>Simulation\<close>

text \<open>
  Every step of the detailed relation is matched by steps of the abstract one, through the relation \<open>rep\<close>
  between their states.
\<close>

locale simulation =
  fixes cstep :: "'s \<Rightarrow> 's \<Rightarrow> bool"
    and astep :: "'a \<Rightarrow> 'a \<Rightarrow> bool"
    and rep :: "'s \<Rightarrow> 'a \<Rightarrow> bool"
  assumes simulates: "rep s a \<Longrightarrow> cstep s s' \<Longrightarrow> \<exists>a'. astep\<^sup>*\<^sup>* a a' \<and> rep s' a'"
begin

lemma reachable:
  assumes "cstep\<^sup>*\<^sup>* s s'" "rep s a"
  shows "\<exists>a'. astep\<^sup>*\<^sup>* a a' \<and> rep s' a'"
  using assms
proof (induction rule: rtranclp_induct)
  case base
  then show ?case by blast
next
  case (step s1 s2)
  then obtain a1 where "astep\<^sup>*\<^sup>* a a1" "rep s1 a1" by blast
  then show ?case
    using simulates [of s1 a1 s2] step.hyps(2) by (meson rtranclp_trans)
qed

text \<open>An invariant of the abstract relation is one of the detailed relation.\<close>

lemma invariant:
  assumes "cstep\<^sup>*\<^sup>* s s'" "rep s a" "I a" "\<And>a a'. I a \<Longrightarrow> astep a a' \<Longrightarrow> I a'"
  shows "\<exists>a'. rep s' a' \<and> I a'"
proof -
  obtain a' where a': "astep\<^sup>*\<^sup>* a a'" "rep s' a'"
    using reachable [OF assms(1,2)] by blast
  have "I a'"
    using a'(1) by (induction rule: rtranclp_induct) (use assms in blast)+
  with a'(2) show ?thesis by blast
qed

end

end
