(* ===== verification/Net.thy ===== *)
theory Net
  imports C_Text Interfaces
begin

text \<open>
  \<^verbatim>\<open>src/net.c\<close>: opening a packet socket on an interface. System calls and the allocation of the context go
  through \<open>sys\<close>, which asks the kernel for its answer and records both; what the kernel answers is an
  argument and may depend on everything that was called before. The functions are written in the state
  monad over that record.
\<close>

section \<open>The kernel\<close>

definition PF_INET :: int where "PF_INET = 2"
definition AF_PACKET :: int where "AF_PACKET = 17"
definition SOCK_DGRAM :: int where "SOCK_DGRAM = 2"
definition SOCK_RAW :: int where "SOCK_RAW = 3"
definition SOCK_NONBLOCK :: int where "SOCK_NONBLOCK = 2048"
definition IPPROTO_IP :: int where "IPPROTO_IP = 0"
definition SIOCGIFHWADDR :: int where "SIOCGIFHWADDR = 0x8927"
definition SIOCGIFINDEX :: int where "SIOCGIFINDEX = 0x8933"
definition IFNAMSIZ :: nat where "IFNAMSIZ = 16"

record sockaddr_ll =
  sll_family :: u16
  sll_protocol :: u16
  sll_ifindex :: i32
  sll_addr :: bytes

record net_ctx =
  sock :: int
  if_cfg :: sockaddr_ll

datatype net_call =
    Calloc_ctx
  | Free_ctx
  | Socket int int int
  | Ioctl int int string
  | Bind int sockaddr_ll
  | Close int

type_synonym net_trace = "(net_call \<times> int) list"

text \<open>
  \<open>answer\<close> is the return value of a call (for the allocation: 0 when it fails); \<open>hwaddr\<close> and \<open>ifindex\<close> are
  what the two \<open>ioctl\<close> requests put into the request structure for an interface name.
\<close>

record net_os =
  answer :: "net_trace \<Rightarrow> net_call \<Rightarrow> int"
  hwaddr :: "string \<Rightarrow> bytes"
  ifindex :: "string \<Rightarrow> i32"

definition sys :: "net_os \<Rightarrow> net_call \<Rightarrow> (net_trace, int) state" where
  "sys os c = State (\<lambda>tr. (answer os tr c, tr @ [(c, answer os tr c)]))"


section \<open>The functions\<close>

definition get_if_cfg ::
  "net_os \<Rightarrow> string \<Rightarrow> sockaddr_ll \<Rightarrow> (net_trace, int \<times> sockaddr_ll) state" where
  "get_if_cfg os if_name ll_cfg = do {
     rq_fd \<leftarrow> sys os (Socket PF_INET SOCK_DGRAM IPPROTO_IP);
     if rq_fd < 0 then State_Monad.return (EXIT_FAILURE, ll_cfg)
     else do {
       let ifr_name = strncpy if_name IFNAMSIZ;
       rc \<leftarrow> sys os (Ioctl rq_fd SIOCGIFHWADDR ifr_name);
       if rc \<noteq> 0 then do {
         sys os (Close rq_fd);
         State_Monad.return (EXIT_FAILURE, ll_cfg)
       }
       else do {
         let ll_cfg = ll_cfg\<lparr>sll_addr := take 6 (hwaddr os ifr_name) @ drop 6 (sll_addr ll_cfg)\<rparr>;
         rc \<leftarrow> sys os (Ioctl rq_fd SIOCGIFINDEX ifr_name);
         if rc \<noteq> 0 then do {
           sys os (Close rq_fd);
           State_Monad.return (EXIT_FAILURE, ll_cfg)
         }
         else do {
           let ll_cfg = ll_cfg\<lparr>sll_ifindex := ifindex os ifr_name\<rparr>;
           sys os (Close rq_fd);
           State_Monad.return (EXIT_SUCCESS, ll_cfg)
         }
       }
     }
   }"

definition zero_sockaddr_ll :: sockaddr_ll where
  "zero_sockaddr_ll = \<lparr>sll_family = 0, sll_protocol = 0, sll_ifindex = 0, sll_addr = replicate 8 0\<rparr>"

definition net_create :: "net_os \<Rightarrow> string \<Rightarrow> u16 \<Rightarrow> (net_trace, net_ctx option) state" where
  "net_create os if_name l3_proto = do {
     p \<leftarrow> sys os Calloc_ctx;
     if p = 0 then State_Monad.return None
     else do {
       (rc, ll_cfg) \<leftarrow> get_if_cfg os if_name zero_sockaddr_ll;
       if rc = EXIT_FAILURE then do {
         sys os Free_ctx;
         State_Monad.return None
       }
       else do {
         fd \<leftarrow> sys os (Socket AF_PACKET (SOCK_RAW OR SOCK_NONBLOCK) (uint (htons l3_proto)));
         if fd < 0 then do {
           sys os Free_ctx;
           State_Monad.return None
         }
         else do {
           let ll_cfg = ll_cfg\<lparr>sll_family := of_int AF_PACKET, sll_protocol := htons l3_proto\<rparr>;
           rc \<leftarrow> sys os (Bind fd ll_cfg);
           if rc \<noteq> 0 then do {
             sys os (Close fd);
             sys os Free_ctx;
             State_Monad.return None
           }
           else State_Monad.return (Some \<lparr>sock = fd, if_cfg = ll_cfg\<rparr>)
         }
       }
     }
   }"

definition net_destroy :: "net_os \<Rightarrow> net_ctx \<Rightarrow> (net_trace, unit) state" where
  "net_destroy os ctx = do {
     sys os (Close (sock ctx));
     sys os Free_ctx;
     State_Monad.return ()
   }"


section \<open>Resources\<close>

text \<open>
  What a process holds after a sequence of calls, from what it held before; \<^term>\<open>None\<close> when something
  is released that is not held.
\<close>

datatype net_resource = Descriptor int | Context_block

fun net_account1 :: "net_call \<times> int \<Rightarrow> net_resource multiset \<Rightarrow> net_resource multiset option" where
  "net_account1 (Calloc_ctx, rc) held = Some (if rc = 0 then held else add_mset Context_block held)"
| "net_account1 (Free_ctx, rc) held =
     (if Context_block \<in># held then Some (held - {#Context_block#}) else None)"
| "net_account1 (Socket d t p, rc) held = Some (if rc < 0 then held else add_mset (Descriptor rc) held)"
| "net_account1 (Close fd, rc) held =
     (if Descriptor fd \<in># held then Some (held - {#Descriptor fd#}) else None)"
| "net_account1 (Ioctl fd req name, rc) held = (if Descriptor fd \<in># held then Some held else None)"
| "net_account1 (Bind fd a, rc) held = (if Descriptor fd \<in># held then Some held else None)"

fun net_account :: "net_trace \<Rightarrow> net_resource multiset \<Rightarrow> net_resource multiset option" where
  "net_account [] held = Some held"
| "net_account (c # tr) held = Option.bind (net_account1 c held) (net_account tr)"

lemma net_account_append [simp]:
  "net_account (tr @ tr') held = Option.bind (net_account tr held) (net_account tr')"
  by (induction tr arbitrary: held) (auto split: Option.bind_split)

definition net_owned :: "net_ctx \<Rightarrow> net_resource multiset" where
  "net_owned ctx = {#Context_block, Descriptor (sock ctx)#}"

lemma run_sys [simp]: "run_state (sys os c) tr = (answer os tr c, tr @ [(c, answer os tr c)])"
  by (simp add: sys_def)

text \<open>Every run of the two functions: the calls they add and what these leave held.\<close>

lemma get_if_cfg_account:
  assumes "run_state (get_if_cfg os if_name ll) tr = (r, tr')"
  shows "net_account tr' held = net_account tr held"
  using assms
  by (auto simp: get_if_cfg_def Let_def IFNAMSIZ_def split: if_splits Option.bind_split)

lemma net_create_account:
  assumes "run_state (net_create os if_name l3_proto) tr = (r, tr')"
    and "net_account tr held = Some h"
  shows "net_account tr' held = Some ((case r of None \<Rightarrow> {#} | Some ctx \<Rightarrow> net_owned ctx) + h)"
  using assms
  by (auto simp: net_create_def Let_def net_owned_def split: if_splits prod.splits
      dest!: get_if_cfg_account [of _ _ _ _ _ _ held])

interpretation packet_socket: lifecycle
  "run_state (net_create os if_name l3_proto)" "\<lambda>ctx tr. snd (run_state (net_destroy os ctx) tr)"
  "\<lambda>tr. net_account tr {#}" net_owned "\<lambda>_. True"
  for os if_name l3_proto
proof
  fix tr tr' h
  assume "run_state (net_create os if_name l3_proto) tr = (None, tr')" "net_account tr {#} = Some h"
  then show "net_account tr' {#} = Some h"
    using net_create_account by fastforce
next
  fix tr tr' ctx h
  assume "run_state (net_create os if_name l3_proto) tr = (Some ctx, tr')" "net_account tr {#} = Some h"
  then show "True \<and> net_account tr' {#} = Some (net_owned ctx + h)"
    using net_create_account by fastforce
next
  fix tr ctx h
  assume "net_account tr {#} = Some (net_owned ctx + h)"
  then show "net_account (snd (run_state (net_destroy os ctx) tr)) {#} = Some h"
    by (auto simp: net_destroy_def net_owned_def)
qed

text \<open>
  C16: Whatever the kernel answers, a program that opens a packet socket with \<^verbatim>\<open>net_create\<close>
  and, if that succeeds, closes it with \<^verbatim>\<open>net_destroy\<close> ends with exactly the descriptors and the memory it had
  before: every error path of \<^verbatim>\<open>net_create\<close> and \<^verbatim>\<open>_get_if_cfg\<close> closes what it opened, nothing is closed or
  freed twice, and no \<open>ioctl\<close> or \<open>bind\<close> uses a descriptor that is not open.
\<close>
theorem net_session_balanced:
  assumes "net_account tr {#} = Some h"
    and "run_state (net_create os if_name l3_proto) tr = (r, tr')"
  shows "net_account (case r of None \<Rightarrow> tr' | Some ctx \<Rightarrow> snd (run_state (net_destroy os ctx) tr')) {#} = Some h"
  using packet_socket.no_leak [where use = "\<lambda>ctx. ctx", OF assms(1,2)] by simp

definition sample_os :: net_os where
  "sample_os = \<lparr>
     answer = (\<lambda>tr c. case c of Calloc_ctx \<Rightarrow> 4096 | Socket d t p \<Rightarrow> if d = AF_PACKET then 4 else 3
       | Bind fd a \<Rightarrow> if sll_ifindex a = 9 then - 1 else 0 | _ \<Rightarrow> 0),
     hwaddr = (\<lambda>name. [2, 0, 0, 0, 0, 1, 0, 0, 0, 0, 0, 0, 0, 0]),
     ifindex = (\<lambda>name. if take 4 name = ''eth9'' then 9 else 7)\<rparr>"

lemmas sample_net_simps = net_create_def net_destroy_def get_if_cfg_def sample_os_def IFNAMSIZ_def
  exit_code_defs PF_INET_def AF_PACKET_def zero_sockaddr_ll_def strncpy_def Let_def

theorem net_session_balanced_witness:
  "net_account (snd (run_state (net_destroy sample_os (the (fst (run_state (net_create sample_os ''eth0'' 0x88E1) []))))
       (snd (run_state (net_create sample_os ''eth0'' 0x88E1) [])))) {#} = Some {#}
   \<and> fst (run_state (net_create sample_os ''eth0'' 0x88E1) []) \<noteq> None
   \<and> fst (run_state (net_create sample_os ''eth9'' 0x88E1) []) = None
   \<and> net_account (snd (run_state (net_create sample_os ''eth9'' 0x88E1) [])) {#} = Some {#}"
proof -
  obtain ctx tr where ok: "run_state (net_create sample_os ''eth0'' 0x88E1) [] = (Some ctx, tr)"
    by (simp add: sample_net_simps)
  obtain tr' where fails: "run_state (net_create sample_os ''eth9'' 0x88E1) [] = (None, tr')"
    by (simp add: sample_net_simps)
  show ?thesis
    using net_session_balanced [of "[]" "{#}", OF _ ok] net_session_balanced [of "[]" "{#}", OF _ fails]
    by (simp add: ok fails)
qed

definition net_failed :: "net_call \<times> int \<Rightarrow> bool" where
  "net_failed p = (case p of (Calloc_ctx, rc) \<Rightarrow> rc = 0 | (Socket d t p, rc) \<Rightarrow> rc < 0
     | (Ioctl fd req name, rc) \<Rightarrow> rc \<noteq> 0 | (Bind fd a, rc) \<Rightarrow> rc \<noteq> 0 | _ \<Rightarrow> False)"

text \<open>
  C29: \<^verbatim>\<open>net_create\<close> returns a context exactly when none of its calls fails. The context then holds the packet
  socket, bound to the interface's index, hardware address and the protocol in network byte order, and the
  calls are the seven of the success path, with the auxiliary socket closed before the packet socket opens.
\<close>
theorem net_create_spec:
  assumes "run_state (net_create os if_name l3_proto) tr = (r, tr @ calls)"
  shows "(r = None \<longleftrightarrow> (\<exists>c\<in>set calls. net_failed c))
    \<and> (\<forall>ctx. r = Some ctx \<longrightarrow>
         if_cfg ctx = \<lparr>sll_family = 17, sll_protocol = htons l3_proto,
           sll_ifindex = ifindex os (strncpy if_name 16),
           sll_addr = take 6 (hwaddr os (strncpy if_name 16)) @ [0, 0]\<rparr>
         \<and> (\<exists>cfg_fd. map fst calls = [Calloc_ctx, Socket PF_INET SOCK_DGRAM IPPROTO_IP,
              Ioctl cfg_fd SIOCGIFHWADDR (strncpy if_name 16),
              Ioctl cfg_fd SIOCGIFINDEX (strncpy if_name 16), Close cfg_fd,
              Socket AF_PACKET (SOCK_RAW OR SOCK_NONBLOCK) (uint (htons l3_proto)),
              Bind (sock ctx) (if_cfg ctx)]))"
  using assms
  by (auto simp: net_create_def get_if_cfg_def Let_def zero_sockaddr_ll_def net_failed_def AF_PACKET_def
      IFNAMSIZ_def exit_code_defs eval_nat_numeral split: if_splits)

theorem net_create_spec_witness:
  "\<exists>calls. snd (run_state (net_create sample_os ''eth9'' 0x88E1) []) = calls
     \<and> (\<exists>c\<in>set calls. net_failed c)"
proof -
  obtain calls where run: "run_state (net_create sample_os ''eth9'' 0x88E1) [] = (None, [] @ calls)"
    by (simp add: sample_net_simps)
  then show ?thesis
    using net_create_spec [OF run] by simp
qed

end
