(* ===== verification/Program.thy ===== *)
theory Program
  imports Argp Ieee_Exchange Net
begin

text \<open>
  What the three programs have in common: the addresses and versions of the frames they send, the actions
  of a \<open>main\<close> function, the panic exit and the reader callback \<open>_handle_data\<close>.
\<close>

definition QUALCOMM_ATHEROS_LOCAL_MANAGEMENT_ADDRESS :: bytes where
  "QUALCOMM_ATHEROS_LOCAL_MANAGEMENT_ADDRESS = [0x00, 0xb0, 0x52, 0x00, 0x00, 0x01]"

definition ETHERNET_BROADCAST_ADDRESS :: bytes where
  "ETHERNET_BROADCAST_ADDRESS = [0xff, 0xff, 0xff, 0xff, 0xff, 0xff]"

definition MM_APDU_MMV_1_0 :: u8 where "MM_APDU_MMV_1_0 = 0x00"
definition MM_APDU_MMV_1_1 :: u8 where "MM_APDU_MMV_1_1 = 0x01"

definition IF_NAMESIZE :: nat where "IF_NAMESIZE = 16"

text \<open>The fields with which \<open>struct cmd_cnf\<close> begins in every program; each of them extends the record.\<close>

record cmd_cnf =
  if_name :: string
  oda :: bytes
  hpav_ver :: u8

definition wf_cmd_cnf :: "'a cmd_cnf_scheme \<Rightarrow> bool" where
  "wf_cmd_cnf cnf \<longleftrightarrow> length (if_name cnf) = 16 \<and> length (oda cnf) = 6
     \<and> (hpav_ver cnf = MM_APDU_MMV_1_0 \<or> hpav_ver cnf = MM_APDU_MMV_1_1)"

text \<open>Lines of the output.\<close>

definition number_line :: "string \<Rightarrow> 'a::len word \<Rightarrow> string" where
  "number_line label n = ''  '' @ label @ '': '' @ print_dec (unat n)"

definition hex_line :: "string \<Rightarrow> u8 \<Rightarrow> string" where
  "hex_line label b = ''  '' @ label @ '': 0x'' @ print_02x b"

definition address_line :: "string \<Rightarrow> bytes \<Rightarrow> string" where
  "address_line label bs = ''  '' @ label @ '': '' @ print_address bs"

definition text_line :: "string \<Rightarrow> string \<Rightarrow> string" where
  "text_line label s = ''  '' @ label @ '': '' @ s"

definition head_line :: "string \<Rightarrow> u64 \<Rightarrow> string" where
  "head_line label n = label @ print_dec (unat n) @ '':''"


text \<open>
  What a program does after it has opened its interface. \<open>Assign\<close> is an assignment to a variable that the
  callbacks of the event thread read.
\<close>

datatype 'x action = Send io_op | Usleep u32 | Print string | Assign 'x

text \<open>A call of \<open>ieee1901_2010_message_send\<close> whose return value is not looked at.\<close>

definition send_action :: "(io_op option \<times> int) option \<Rightarrow> 'x action list outcome" where
  "send_action r =
    (case r of None \<Rightarrow> Fault | Some (None, rc) \<Rightarrow> Continue [] | Some (Some call, rc) \<Rightarrow> Continue [Send call])"

lemma message_send_ops:
  assumes "length dst = 6" "6 \<le> length src" "0 < length body" "length body \<le> 1481"
  shows "\<exists>call. ieee1901_2010_message_send wr fd dst src mmv type oper (Some body) (of_nat (length body))
      = Some (Some call, wr call)
    \<and> wire_bytes call = frame_of_message dst (take 6 src) mmv (type OR oper) body"
    and "\<exists>call. ieee1901_2010_message_send wr fd dst src mmv type oper None 0 = Some (Some call, wr call)
    \<and> wire_bytes call = frame_of_message dst (take 6 src) mmv (type OR oper) []"
proof -
  have same: "ieee1901_2010_message_send wr fd dst src = ieee1901_2010_message_send wr fd dst (take 6 src)"
    using assms(2) by (intro ext) (simp add: ieee1901_2010_message_send_def rd_ok)
  show "\<exists>call. ieee1901_2010_message_send wr fd dst src mmv type oper (Some body) (of_nat (length body))
      = Some (Some call, wr call)
    \<and> wire_bytes call = frame_of_message dst (take 6 src) mmv (type OR oper) body"
    unfolding same using assms by (intro message_send_body) auto
  show "\<exists>call. ieee1901_2010_message_send wr fd dst src mmv type oper None 0 = Some (Some call, wr call)
    \<and> wire_bytes call = frame_of_message dst (take 6 src) mmv (type OR oper) []"
    unfolding same using assms by (simp add: message_send_empty Let_def)
qed

lemma send_without_payload:
  assumes "length dst = 6" "6 \<le> length src"
  shows "send_action (ieee1901_2010_message_send wr fd dst src mmv type oper None 0)
    = Continue [Send (Write_op fd (frame_of_message dst (take 6 src) mmv (type OR oper) []))]"
proof -
  have "ieee1901_2010_message_send wr fd dst src = ieee1901_2010_message_send wr fd dst (take 6 src)"
    using assms(2) by (intro ext) (simp add: ieee1901_2010_message_send_def rd_ok)
  then show ?thesis
    using assms by (simp add: message_send_empty send_action_def Let_def)
qed

text \<open>The frames that a sequence of actions puts on the wire.\<close>

fun frames :: "'x action list \<Rightarrow> bytes list" where
  "frames [] = []"
| "frames (Send call # acts) = wire_bytes call # frames acts"
| "frames (Usleep us # acts) = frames acts"
| "frames (Print s # acts) = frames acts"
| "frames (Assign x # acts) = frames acts"

text \<open>The lines that it prints.\<close>

fun printed_lines :: "'x action list \<Rightarrow> string list" where
  "printed_lines [] = []"
| "printed_lines (Print s # acts) = s # printed_lines acts"
| "printed_lines (Send call # acts) = printed_lines acts"
| "printed_lines (Usleep us # acts) = printed_lines acts"
| "printed_lines (Assign x # acts) = printed_lines acts"

lemma printed_lines_append [simp]: "printed_lines (xs @ ys) = printed_lines xs @ printed_lines ys"
  by (induction xs rule: printed_lines.induct) simp_all

lemma map_Print [simp]: "frames (map Print ls) = []" "printed_lines (map Print ls) = ls"
  by (induction ls) simp_all

lemma frames_append [simp]: "frames (xs @ ys) = frames xs @ frames ys"
  by (induction xs rule: frames.induct) simp_all

text \<open>The C string in a character array; \<^term>\<open>None\<close> when the array has no terminator.\<close>

definition c_string :: "string \<Rightarrow> string option" where
  "c_string cs = (if CHR 0x00 \<in> set cs then Some (takeWhile (\<lambda>c. c \<noteq> CHR 0x00) cs) else None)"

text \<open>
  \<open>strncpy(ifr_name, if_name, IFNAMSIZ)\<close> in \<^verbatim>\<open>net.c\<close> reads at most the 16 characters of the array, terminated
  or not.
\<close>

definition bounded_string :: "string \<Rightarrow> string" where
  "bounded_string cs = takeWhile (\<lambda>c. c \<noteq> CHR 0x00) cs"

text \<open>
  Opening the interface. \<open>_PANIC\<close> prints its message and exits with status -1; the message prints the interface
  name as a string.
\<close>

definition open_interface :: "net_os \<Rightarrow> string \<Rightarrow> (net_ctx \<times> net_trace) outcome" where
  "open_interface os name =
    (case run_state (net_create os (bounded_string name) IEEE1901_2010_ETHERTYPE) [] of
       (None, tr) \<Rightarrow> and_then (defined (c_string name)) (\<lambda>_. Exit (- 1))
     | (Some nctx, tr) \<Rightarrow> Continue (nctx, tr))"

text \<open>
  \<open>_handle_data\<close>: \<open>usr\<close> is the context it was registered with, of which it uses the part of the message layer,
  and \<open>received\<close> are the bytes of the next frame, \<^term>\<open>None\<close> when \<open>read\<close> fails. \<open>read\<close> puts at most 1500 of
  them into the buffer; the bytes of the buffer behind them are indeterminate, and reading one of them
  counts as undefined behaviour here.
\<close>

definition handle_data ::
  "('f, 'u) ieee1901_2010_ctx option \<Rightarrow> bytes option \<Rightarrow> ('f, 'u) cb_call list outcome" where
  "handle_data usr received =
    (case usr of None \<Rightarrow> Continue []
     | Some ctx \<Rightarrow>
        (case received of None \<Rightarrow> Continue []
         | Some bs \<Rightarrow>
             let buf = take 1500 bs; inb = length buf
             in if inb < IEEE1901_2010_MIN_MSG_SIZE then Continue []
                else and_then (defined (ieee1901_2010_handle_message (Some ctx) (Some buf) (of_nat inb)))
                  (\<lambda>(calls, rc). Continue calls)))"


text \<open>With the specification of \<open>ieee1901_2010_handle_message\<close>: what a frame triggers.\<close>

definition received_message :: "bytes \<Rightarrow> bytes option" where
  "received_message bs = (if length bs < 60 then None else Some (take 1500 bs))"

lemma handle_data_eq:
  "handle_data (Some ctx) received = Continue
    (case Option.bind received received_message of None \<Rightarrow> [] | Some msg \<Rightarrow> fst (spec_handle_message ctx msg))"
proof (cases received)
  case None
  then show ?thesis by (simp add: handle_data_def)
next
  case (Some bs)
  have spec: "ieee1901_2010_handle_message (Some ctx) (Some (take 1500 bs)) (of_nat (length (take 1500 bs)))
      = Some (spec_handle_message ctx (take 1500 bs))"
    by (rule handle_message_refines) simp
  then show ?thesis
    by (auto simp: Some handle_data_def received_message_def IEEE1901_2010_MIN_MSG_SIZE_def Let_def split_def)
qed

text \<open>Every callback that a frame triggers is a registered one with the arguments of its kind.\<close>

lemma handle_data_ensures:
  "ensures False (\<lambda>calls. \<exists>osa. length osa = 6 \<and> (\<forall>c\<in>set calls. call_registered ctx osa c)
      \<and> (\<forall>osa' f h p n d. Link_stats_call f osa' h p n d \<in> set calls \<longrightarrow> length p \<le> 1479))
    (handle_data (Some ctx) received)"
proof (cases "Option.bind received received_message")
  case None
  then show ?thesis
    by (auto simp: handle_data_eq ensures_def intro: exI [of _ "replicate 6 0"])
next
  case (Some msg)
  have len: "60 \<le> length msg" "length msg \<le> 1500"
    using Some by (auto simp: received_message_def split: bind_splits if_splits)
  have osa: "length (frame_osa msg) = 6"
    using len by (simp add: frame_osa_def)
  have p: "length p \<le> 1479"
    if "Link_stats_call f osa' h p n d \<in> set (fst (spec_handle_message ctx msg))" for f osa' h p n d
    using that len by (auto simp: spec_handle_message_def spec_link_stats_def spec_nw_stats_def
        spec_nw_info_def spec_discover_list_def set_calls_of frame_asdu_def sizeof_defs Let_def
        split: if_splits)
  show ?thesis
    using Some osa p spec_calls_registered [of _ ctx msg] by (auto simp: handle_data_eq ensures_def)
qed


text \<open>
  An opened interface has its address and a trace that \<open>net_destroy\<close> balances. \<open>sa_data\<close>, from which the address
  is copied, has 14 bytes.
\<close>

lemma net_create_address:
  "run_state (net_create os name proto) tr = (Some ctx, tr')
    \<Longrightarrow> sll_addr (if_cfg ctx) = take 6 (hwaddr os (strncpy name 16)) @ [0, 0]"
  by (auto simp: net_create_def get_if_cfg_def Let_def zero_sockaddr_ll_def IFNAMSIZ_def eval_nat_numeral
      split: if_splits)

lemma open_interface_opened:
  assumes "\<And>name. 6 \<le> length (hwaddr os name)"
    and "run_state (net_create os name IEEE1901_2010_ETHERTYPE) [] = (Some nctx, tr)"
  shows "6 \<le> length (sll_addr (if_cfg nctx))"
    and "net_account (snd (run_state (net_destroy os nctx) tr)) {#} = Some {#}"
  using assms(1) net_create_address [OF assms(2)] packet_socket.no_leak [where use = "\<lambda>c. c", OF _ assms(2), of "{#}"]
  by auto

text \<open>
  The message for an interface name that fills the whole array: \<open>strncpy\<close> has stored no terminator, and
  printing the name reads on behind the array.
\<close>

lemma long_interface_name_faults:
  assumes "IF_NAMESIZE \<le> length name" "CHR 0x00 \<notin> set name"
    and "fst (run_state (net_create os (bounded_string (strncpy name IF_NAMESIZE)) IEEE1901_2010_ETHERTYPE) []) = None"
  shows "open_interface os (strncpy name IF_NAMESIZE) = Fault"
proof -
  have "strncpy name IF_NAMESIZE = take IF_NAMESIZE name"
    using assms(1,2) by (simp add: strncpy_def)
  then have "c_string (strncpy name IF_NAMESIZE) = None"
    using assms(2) set_take_subset [of IF_NAMESIZE name] by (auto simp: c_string_def)
  moreover obtain tr where "run_state (net_create os (bounded_string (strncpy name IF_NAMESIZE)) IEEE1901_2010_ETHERTYPE) [] = (None, tr)"
    using assms(3) by (metis prod.collapse)
  ultimately show ?thesis
    by (simp add: open_interface_def)
qed

section \<open>The callbacks of a program\<close>

text \<open>
  The invocations for one frame run one after the other on the static data of the program; \<open>run\<close> is given
  the number of invocations to follow.
\<close>

fun run_calls :: "(nat \<Rightarrow> 'c \<Rightarrow> 's \<Rightarrow> ('s \<times> 'o list) outcome) \<Rightarrow> 'c list \<Rightarrow> 's \<Rightarrow> ('s \<times> 'o list) outcome" where
  "run_calls run [] s = Continue (s, [])"
| "run_calls run (c # cs) s =
     and_then (run (length cs) c s) (\<lambda>(s, out).
     and_then (run_calls run cs s) (\<lambda>(s, out'). Continue (s, out @ out')))"

text \<open>
  What a program promises about its callbacks: an invocation with the arguments it registered for is defined
  and has an effect that is closed under composition. Then the reaction to a whole frame has that effect.
\<close>

locale callbacks =
  fixes run :: "nat \<Rightarrow> 'c \<Rightarrow> 's \<Rightarrow> ('s \<times> 'o list) outcome"
    and call_ok :: "'c \<Rightarrow> bool"
    and effect :: "'s \<Rightarrow> 's \<times> 'o list \<Rightarrow> bool"
  assumes idle: "effect s (s, [])"
    and sequel: "effect s (s', out) \<Longrightarrow> effect s' (s'', out') \<Longrightarrow> effect s (s'', out @ out')"
    and runs: "call_ok c \<Longrightarrow> ensures False (effect s) (run k c s)"
begin

lemma run_calls_effect:
  "\<forall>c\<in>set cs. call_ok c \<Longrightarrow> ensures False (effect s) (run_calls run cs s)"
proof (induction cs arbitrary: s)
  case Nil
  then show ?case by (simp add: ensures_def idle)
next
  case (Cons c cs)
  have first: "ensures False (effect s) (run (length cs) c s)"
    using Cons.prems by (intro runs) simp
  have rest: "ensures False (effect s') (run_calls run cs s')" for s'
    using Cons by simp
  show ?case
    unfolding run_calls.simps
  proof (rule ensures_and_then [OF first])
    fix r
    assume "effect s r"
    then show "ensures False (effect s) (case r of (s', out) \<Rightarrow>
        and_then (run_calls run cs s') (\<lambda>(s', out'). Continue (s', out @ out')))"
      using sequel [of s "fst r" "snd r"]
      by (auto intro!: ensures_rules ensures_and_then [OF rest])
  qed
qed

end


section \<open>Samples\<close>

text \<open>An interface for the witnesses.\<close>

definition sample_nctx :: net_ctx where
  "sample_nctx = \<lparr>sock = 4, if_cfg = \<lparr>sll_family = 17, sll_protocol = 0xE188, sll_ifindex = 7,
     sll_addr = [2, 0, 0, 0, 0, 1, 0, 0]\<rparr>\<rparr>"

end
