(* ===== verification/Hpav_Stats_Options.thy ===== *)
theory Hpav_Stats_Options
  imports Program
begin

text \<open>
  The command line of \<^verbatim>\<open>bin/hpav-stats.c\<close>: the configuration, the option table and \<open>_parse_opt\<close>. The two static
  variables of \<open>_parse_opt\<close> and \<open>errno\<close>, which it reads after \<open>strtoul\<close> without having reset it, are part of
  the state.
\<close>

section \<open>The configuration\<close>

definition REQ_ALL_STATS :: u32 where "REQ_ALL_STATS = 0"
definition REQ_NETWORK_STATS :: u32 where "REQ_NETWORK_STATS = 1"
definition REQ_LINK_STATS :: u32 where "REQ_LINK_STATS = 2"

definition REQ_RX_TX_LINK_STATS :: u32 where "REQ_RX_TX_LINK_STATS = 0"
definition REQ_RX_LINK_STATS :: u32 where "REQ_RX_LINK_STATS = 1"
definition REQ_TX_LINK_STATS :: u32 where "REQ_TX_LINK_STATS = 2"

definition REQ_LID_TYPE_PRIORITY_LINK :: u32 where "REQ_LID_TYPE_PRIORITY_LINK = 1"
definition REQ_LID_TYPE_LOCAL_LINK :: u32 where "REQ_LID_TYPE_LOCAL_LINK = 2"
definition REQ_LID_TYPE_GLOBAL_LINK :: u32 where "REQ_LID_TYPE_GLOBAL_LINK = 4"

definition REQ_LID_TYPE_ALL :: u32 where
  "REQ_LID_TYPE_ALL = REQ_LID_TYPE_GLOBAL_LINK OR REQ_LID_TYPE_LOCAL_LINK OR REQ_LID_TYPE_PRIORITY_LINK"

lemmas stats_constant_defs = REQ_ALL_STATS_def REQ_NETWORK_STATS_def REQ_LINK_STATS_def
  REQ_RX_TX_LINK_STATS_def REQ_RX_LINK_STATS_def REQ_TX_LINK_STATS_def REQ_LID_TYPE_PRIORITY_LINK_def
  REQ_LID_TYPE_LOCAL_LINK_def REQ_LID_TYPE_GLOBAL_LINK_def REQ_LID_TYPE_ALL_def

record stats_cnf = cmd_cnf +
  req_what :: u32
  req_link_dir :: u32
  nid :: bytes
  lid :: i32
  da_sa_mac :: bytes
  lid_range_type :: u32
  message_gap_usec :: u32

text \<open>The configuration that \<open>main\<close> sets up before it parses the command line.\<close>

definition default_stats_cnf :: stats_cnf where
  "default_stats_cnf = \<lparr>
     if_name = replicate IF_NAMESIZE (CHR 0x00),
     oda = ETHERNET_BROADCAST_ADDRESS,
     hpav_ver = MM_APDU_MMV_1_1,
     req_what = REQ_ALL_STATS,
     req_link_dir = REQ_RX_TX_LINK_STATS,
     nid = replicate 7 0,
     lid = - 1,
     da_sa_mac = replicate 6 0,
     lid_range_type = REQ_LID_TYPE_PRIORITY_LINK,
     message_gap_usec = 200000\<rparr>"


section \<open>The option parser\<close>

definition stats_cmd_options :: "argp_option list" where
  "stats_cmd_options =
    [(''broadcast'', CHR ''b'', None),
     (''localcast'', CHR ''l'', None),
     (''oda'', CHR ''d'', Some ''DST-MAC''),
     (''v1-0'', CHR ''0'', None),
     (''v1-1'', CHR ''1'', None),
     (''nw-stats'', CHR ''N'', None),
     (''link-stats'', CHR ''L'', None),
     (''link-stats-rx'', CHR ''r'', None),
     (''link-stats-tx'', CHR ''t'', None),
     (''nid'', CHR ''n'', Some ''NETZWORK-ID''),
     (''lid'', CHR ''i'', Some ''LINK-ID''),
     (''all-lids'', CHR ''a'', None),
     (''link-stats-da-sa'', CHR ''m'', Some ''DA-SA-MAC''),
     (''inter-message-gap'', CHR ''g'', Some ''USEC'')]"

record stats_input =
  conf :: stats_cnf
  nid_set :: bool
  da_sa_mac_set :: bool
  errno_range :: bool

definition stats_option :: "bool \<Rightarrow> char \<Rightarrow> string option \<Rightarrow> stats_input \<Rightarrow> stats_input outcome" where
  "stats_option mem key arg st =
    (let cnf = conf st in
     if key = CHR ''b'' then Continue (st\<lparr>conf := cnf\<lparr>oda := ETHERNET_BROADCAST_ADDRESS\<rparr>\<rparr>)
     else if key = CHR ''l'' then
       Continue (st\<lparr>conf := cnf\<lparr>oda := QUALCOMM_ATHEROS_LOCAL_MANAGEMENT_ADDRESS\<rparr>\<rparr>)
     else if key = CHR ''0'' then Continue (st\<lparr>conf := cnf\<lparr>hpav_ver := MM_APDU_MMV_1_0\<rparr>\<rparr>)
     else if key = CHR ''1'' then Continue (st\<lparr>conf := cnf\<lparr>hpav_ver := MM_APDU_MMV_1_1\<rparr>\<rparr>)
     else if key = CHR ''d'' then
       (let (rc, mac) = hpav_parse_mac mem (oda cnf) arg
        in if rc \<noteq> EXIT_SUCCESS then argp_usage else Continue (st\<lparr>conf := cnf\<lparr>oda := mac\<rparr>\<rparr>))
     else if key = CHR ''N'' then
       Continue (st\<lparr>conf := cnf\<lparr>req_what := req_what cnf OR REQ_NETWORK_STATS\<rparr>\<rparr>)
     else if key = CHR ''L'' then
       Continue (st\<lparr>conf := cnf\<lparr>req_what := req_what cnf OR REQ_LINK_STATS\<rparr>\<rparr>)
     else if key = CHR ''r'' then
       Continue (st\<lparr>conf := cnf\<lparr>req_link_dir := req_link_dir cnf OR REQ_RX_LINK_STATS\<rparr>\<rparr>)
     else if key = CHR ''t'' then
       Continue (st\<lparr>conf := cnf\<lparr>req_link_dir := req_link_dir cnf OR REQ_TX_LINK_STATS\<rparr>\<rparr>)
     else if key = CHR ''n'' then
       (let (rc, id) = hpav_parse_nid mem (nid cnf) arg
        in if rc \<noteq> EXIT_SUCCESS then argp_usage
           else Continue (st\<lparr>conf := cnf\<lparr>nid := id\<rparr>, nid_set := True\<rparr>))
     else if key = CHR ''i'' then
       (case arg of None \<Rightarrow> Fault
        | Some arg \<Rightarrow>
            (case scan_d arg of None \<Rightarrow> argp_usage
             | Some (v, _) \<Rightarrow>
                 if sint v < 0 \<or> 255 < sint v then argp_usage
                 else Continue (st\<lparr>conf := cnf\<lparr>lid := v\<rparr>, errno_range := errno_range st \<or> scan_d_range arg\<rparr>)))
     else if key = CHR ''m'' then
       (let (rc, mac) = hpav_parse_mac mem (da_sa_mac cnf) arg
        in if rc \<noteq> EXIT_SUCCESS then argp_usage
           else Continue (st\<lparr>conf := cnf\<lparr>da_sa_mac := mac\<rparr>, da_sa_mac_set := True\<rparr>))
     else if key = CHR ''a'' then Continue (st\<lparr>conf := cnf\<lparr>lid_range_type := REQ_LID_TYPE_ALL\<rparr>\<rparr>)
     else if key = CHR ''g'' then
       (case arg of None \<Rightarrow> Fault
        | Some arg \<Rightarrow>
            (let (v, rest, range) = strtoul 10 arg; range = (errno_range st \<or> range)
             in if range \<or> rest \<noteq> [] then argp_error
                else Continue (st\<lparr>conf := cnf\<lparr>message_gap_usec := ucast v\<rparr>, errno_range := range\<rparr>)))
     else Continue st)"

definition stats_arg :: "string option \<Rightarrow> nat \<Rightarrow> stats_input \<Rightarrow> stats_input outcome" where
  "stats_arg arg arg_num st =
    (if arg_num > 0 then argp_error
     else (case arg of None \<Rightarrow> Fault
       | Some arg \<Rightarrow> Continue (st\<lparr>conf := (conf st)\<lparr>if_name := strncpy arg IF_NAMESIZE\<rparr>\<rparr>)))"

definition stats_end :: "nat \<Rightarrow> stats_input \<Rightarrow> stats_input outcome" where
  "stats_end arg_num st =
    (if arg_num \<noteq> 1 then argp_error
     else
       let cnf = conf st;
           cnf = (if req_what cnf = REQ_ALL_STATS
                  then cnf\<lparr>req_what := REQ_LINK_STATS OR REQ_NETWORK_STATS\<rparr> else cnf);
           cnf = (if req_link_dir cnf = REQ_RX_TX_LINK_STATS
                  then cnf\<lparr>req_link_dir := REQ_RX_LINK_STATS OR REQ_TX_LINK_STATS\<rparr> else cnf)
       in if req_what cnf AND REQ_LINK_STATS \<noteq> 0 \<and> \<not> nid_set st then argp_error
          else if req_what cnf AND REQ_LINK_STATS \<noteq> 0 \<and> \<not> da_sa_mac_set st then argp_error
          else Continue (st\<lparr>conf := cnf\<rparr>))"

definition stats_parse_opt :: "stats_input argp_parser" where
  "stats_parse_opt mem key arg arg_num st =
    (case key of Key c \<Rightarrow> stats_option mem c arg st
     | ARGP_KEY_ARG \<Rightarrow> stats_arg arg arg_num st
     | ARGP_KEY_END \<Rightarrow> stats_end arg_num st)"

text \<open>\<open>argp_parse(&_argp, argc, argv, 0, 0, &ctx.conf)\<close> on the default configuration.\<close>

definition stats_command_line :: "(nat \<Rightarrow> bool) \<Rightarrow> argp_item list \<Rightarrow> stats_cnf outcome" where
  "stats_command_line mem items =
     and_then (argp_parse stats_parse_opt mem 0 items
       \<lparr>conf = default_stats_cnf, nid_set = False, da_sa_mac_set = False, errno_range = False\<rparr>)
     (\<lambda>st. Continue (conf st))"


section \<open>The contract of the parser\<close>

definition wf_stats_cnf :: "stats_cnf \<Rightarrow> bool" where
  "wf_stats_cnf cnf \<longleftrightarrow> wf_cmd_cnf cnf \<and> length (nid cnf) = 7
     \<and> length (da_sa_mac cnf) = 6 \<and> (lid cnf = - 1 \<or> 0 \<le> sint (lid cnf) \<and> sint (lid cnf) \<le> 255)
     \<and> (lid_range_type cnf = REQ_LID_TYPE_PRIORITY_LINK \<or> lid_range_type cnf = REQ_LID_TYPE_ALL)
     \<and> req_what cnf < 4 \<and> req_link_dir cnf < 4"

lemma or_less_4:
  assumes "(w :: u32) < 4" "v < 4"
  shows "w OR v < 4"
proof -
  have "uint w < 2 ^ 2" "uint v < 2 ^ 2"
    using assms by (simp_all add: word_less_def)
  then have "uint w OR uint v < 2 ^ 2"
    by (intro OR_upper) simp_all
  then show ?thesis
    by (simp add: word_less_def uint_or)
qed

definition stats_inv :: "stats_input \<Rightarrow> bool" where
  "stats_inv st \<longleftrightarrow> wf_stats_cnf (conf st)"

lemma stats_option_ensures:
  assumes "stats_inv st"
  shows "ensures (arg = None \<and> (key = CHR ''i'' \<or> key = CHR ''g'')) stats_inv (stats_option mem key arg st)"
  using assms unfolding stats_option_def Let_def
  by (intro ensures_rules)
    (simp_all add: stats_inv_def wf_stats_cnf_def wf_cmd_cnf_def or_less_4
      REQ_NETWORK_STATS_def REQ_LINK_STATS_def REQ_RX_LINK_STATS_def REQ_TX_LINK_STATS_def
      ETHERNET_BROADCAST_ADDRESS_def QUALCOMM_ATHEROS_LOCAL_MANAGEMENT_ADDRESS_def)

lemma stats_option_if_name:
  "ensures True (\<lambda>st'. if_name (conf st') = if_name (conf st)) (stats_option mem key arg st)"
  unfolding stats_option_def Let_def by (intro ensures_rules) simp_all

lemma stats_arg_ensures:
  assumes "stats_inv st"
  shows "ensures (arg = None) stats_inv (stats_arg arg n st)"
  using assms unfolding stats_arg_def
  by (intro ensures_rules) (simp_all add: stats_inv_def wf_stats_cnf_def wf_cmd_cnf_def IF_NAMESIZE_def)

definition with_defaults :: "stats_cnf \<Rightarrow> stats_cnf" where
  "with_defaults cnf = cnf\<lparr>
     req_what := (if req_what cnf = 0 then 3 else req_what cnf),
     req_link_dir := (if req_link_dir cnf = 0 then 3 else req_link_dir cnf)\<rparr>"

lemma stats_end_eq:
  "stats_end n st =
    (let cnf = with_defaults (conf st) in
     if n \<noteq> 1 \<or> req_what cnf AND 2 \<noteq> 0 \<and> \<not> (nid_set st \<and> da_sa_mac_set st) then Exit 64
     else Continue (st\<lparr>conf := cnf\<rparr>))"
proof -
  have "(let cnf = conf st; cnf = (if req_what cnf = REQ_ALL_STATS
             then cnf\<lparr>req_what := REQ_LINK_STATS OR REQ_NETWORK_STATS\<rparr> else cnf)
         in if req_link_dir cnf = REQ_RX_TX_LINK_STATS
            then cnf\<lparr>req_link_dir := REQ_RX_LINK_STATS OR REQ_TX_LINK_STATS\<rparr> else cnf)
     = with_defaults (conf st)"
    by (simp add: with_defaults_def stats_constant_defs)
  then show ?thesis
    unfolding stats_end_def Let_def
    by (simp only: argp_error_def EX_USAGE_def REQ_LINK_STATS_def split: if_split) blast
qed

lemma stats_end_Continue:
  "stats_end n st = Continue st' \<longleftrightarrow> n = 1 \<and> st' = st\<lparr>conf := with_defaults (conf st)\<rparr>
    \<and> (req_what (conf st') AND 2 \<noteq> 0 \<longrightarrow> nid_set st \<and> da_sa_mac_set st)"
  by (auto simp: stats_end_eq Let_def)

lemma with_defaults_fields [simp]:
  "req_what (with_defaults cnf) \<noteq> 0" "req_link_dir (with_defaults cnf) \<noteq> 0"
  "if_name (with_defaults cnf) = if_name cnf"
  by (simp_all add: with_defaults_def)

lemma stats_end_inv:
  "stats_inv st \<Longrightarrow> stats_end n st = Continue st' \<Longrightarrow> stats_inv st'"
  by (auto simp: stats_end_Continue stats_inv_def wf_stats_cnf_def wf_cmd_cnf_def with_defaults_def)

interpretation stats_cmd: argp_client stats_parse_opt stats_cmd_options stats_inv "\<lambda>st. if_name (conf st)"
proof (unfold_locales, goal_cases)
  case (1 s ok k a n s')
  then show ?case
    by (cases k) (auto simp: stats_parse_opt_def intro: ensuresD [OF stats_option_ensures]
        ensuresD [OF stats_arg_ensures] stats_end_inv)
next
  case (2 s c a ok n)
  then show ?case
    using ensures_not_Fault [OF stats_option_ensures [of s a c ok]]
    by (auto simp: stats_parse_opt_def stats_cmd_options_def)
next
  case (3 ok c a n s s')
  then show ?case
    using ensuresD [OF stats_option_if_name] by (simp add: stats_parse_opt_def)
next
  case (4 ok b s s')
  then show ?case
    by (auto simp: stats_parse_opt_def stats_arg_def IF_NAMESIZE_def)
next
  case (5 ok b n s)
  then show ?case
    by (simp add: stats_parse_opt_def stats_arg_def argp_error_def)
next
  case (6 n ok b s)
  then show ?case
    by (simp add: stats_parse_opt_def stats_arg_def argp_error_def)
next
  case (7 ok n s)
  then show ?case
    by (simp add: stats_parse_opt_def stats_end_eq Let_def)
next
  case (8 n ok s)
  then show ?case
    by (simp add: stats_parse_opt_def stats_end_eq EX_USAGE_def)
next
  case (9 ok n s s')
  then show ?case
    by (auto simp: stats_parse_opt_def stats_end_Continue)
qed


section \<open>Properties\<close>

lemma default_stats_inv: "wf_stats_cnf default_stats_cnf"
  by (simp add: wf_stats_cnf_def wf_cmd_cnf_def default_stats_cnf_def IF_NAMESIZE_def ETHERNET_BROADCAST_ADDRESS_def
      stats_constant_defs)

lemma stats_command_line_ensures:
  assumes "list_all (item_ok stats_cmd_options) items"
  shows "ensures False
    (\<lambda>cnf. wf_stats_cnf cnf \<and> req_what cnf \<noteq> 0 \<and> req_link_dir cnf \<noteq> 0
       \<and> (\<exists>name. interfaces items = [name] \<and> if_name cnf = strncpy name 16))
    (stats_command_line mem items)"
proof -
  let ?st = "\<lparr>conf = default_stats_cnf, nid_set = False, da_sa_mac_set = False, errno_range = False\<rparr>"
  have inv: "stats_inv ?st"
    by (simp add: stats_inv_def default_stats_inv)
  have kinds: "req_what (conf st) \<noteq> 0 \<and> req_link_dir (conf st) \<noteq> 0"
    if "argp_parse stats_parse_opt mem 0 items ?st = Continue st" for st
    using argp_parse_end [OF that, of "\<lambda>_. True"]
    by (auto simp: stats_parse_opt_def stats_end_Continue)
  show ?thesis
    unfolding stats_command_line_def
    using stats_cmd.parse_defined [OF inv assms, of mem 0] stats_cmd.parse_inv [OF inv, of mem 0 items]
      stats_cmd.parse_interface [of mem items ?st] kinds
    by (cases "argp_parse stats_parse_opt mem 0 items ?st") (auto simp: ensures_def stats_inv_def)
qed

text \<open>
  C24: Whatever options and arguments the option table lets through, parsing the command line of \<^verbatim>\<open>hpav-stats\<close> has
  no undefined behaviour, and a command line that is accepted names exactly one interface and yields a
  well-formed configuration: addresses of six bytes, a network identifier of seven, a link identifier that
  is unset or between 0 and 255, at least one kind of statistics and one direction.
\<close>
theorem stats_command_line_ok:
  assumes "list_all (item_ok stats_cmd_options) items"
  shows "ensures False
    (\<lambda>cnf. wf_stats_cnf cnf \<and> req_what cnf \<noteq> 0 \<and> req_link_dir cnf \<noteq> 0
       \<and> (\<exists>name. interfaces items = [name] \<and> if_name cnf = strncpy name 16))
    (stats_command_line mem items)"
  by (rule stats_command_line_ensures [OF assms])

definition sample_stats_items :: "argp_item list" where
  "sample_stats_items = [Opt (CHR ''N'') None, Opt (CHR ''i'') (Some ''7''), Arg ''eth0'']"

theorem stats_command_line_ok_witness:
  "ensures False
    (\<lambda>cnf. wf_stats_cnf cnf \<and> req_what cnf \<noteq> 0 \<and> req_link_dir cnf \<noteq> 0
       \<and> (\<exists>name. interfaces sample_stats_items = [name] \<and> if_name cnf = strncpy name 16))
    (stats_command_line (\<lambda>_. True) sample_stats_items)
   \<and> (\<exists>cnf. stats_command_line (\<lambda>_. True) sample_stats_items = Continue cnf \<and> lid cnf = 7)"
  using stats_command_line_ok [of sample_stats_items "\<lambda>_. True"]
  by (simp add: sample_stats_items_def stats_cmd_options_def stats_command_line_def stats_parse_opt_def
      stats_option_def stats_arg_def stats_end_eq with_defaults_def default_stats_cnf_def
      stats_constant_defs scan_d_def scan_number_def is_space_def in_range_def take_sign_def is_digit_def
      is_hex_digit_def digit_val_def number_def signed_value_def Let_def)

text \<open>
  C30: Link statistics are only requested with the network identifier and the station address they need: a
  command line of \<^verbatim>\<open>hpav-stats\<close> that asks for them, explicitly or by default, is accepted only when it has both
  a \<open>-n\<close> and a \<open>-m\<close> option.
\<close>
theorem stats_link_needs_nid_and_mac:
  assumes "stats_command_line mem items = Continue cnf" and "req_what cnf AND REQ_LINK_STATS \<noteq> 0"
  shows "(\<exists>a. Opt (CHR ''n'') a \<in> set items) \<and> (\<exists>a. Opt (CHR ''m'') a \<in> set items)"
proof -
  let ?Q = "\<lambda>st. (nid_set st \<longrightarrow> (\<exists>a. Opt (CHR ''n'') a \<in> set items))
    \<and> (da_sa_mac_set st \<longrightarrow> (\<exists>a. Opt (CHR ''m'') a \<in> set items))"
  have option: "ensures True (\<lambda>st'. (nid_set st' \<longrightarrow> nid_set st \<or> key = CHR ''n'')
      \<and> (da_sa_mac_set st' \<longrightarrow> da_sa_mac_set st \<or> key = CHR ''m'')) (stats_option ok key arg st)"
    for ok key arg st
    unfolding stats_option_def Let_def by (intro ensures_rules) simp_all
  obtain st where st: "argp_parse stats_parse_opt mem 0 items \<lparr>conf = default_stats_cnf,
      nid_set = False, da_sa_mac_set = False, errno_range = False\<rparr> = Continue st" "conf st = cnf"
    using assms(1) by (auto simp: stats_command_line_def)
  have "\<exists>st' ok n. ?Q st' \<and> stats_parse_opt ok ARGP_KEY_END None n st' = Continue st"
  proof (rule argp_parse_end [OF st(1), of ?Q])
    fix ok c a k s s'
    assume "Opt c a \<in> set items" "?Q s" "stats_parse_opt ok (Key c) a k s = Continue s'"
    then show "?Q s'"
      using ensuresD [OF option [of s c ok a], of s'] by (auto simp: stats_parse_opt_def)
  next
    fix ok a k s s'
    assume "?Q s" "stats_parse_opt ok ARGP_KEY_ARG (Some a) k s = Continue s'"
    then show "?Q s'"
      by (auto simp: stats_parse_opt_def stats_arg_def argp_error_def split: if_splits)
  qed auto
  then show ?thesis
    using assms(2) st(2)
    by (auto simp: stats_parse_opt_def stats_end_Continue REQ_LINK_STATS_def)
qed

definition sample_link_items :: "argp_item list" where
  "sample_link_items = [Opt (CHR ''L'') None, Opt (CHR ''n'') (Some ''01:02:03:04:05:06:07''),
     Opt (CHR ''m'') (Some ''00:b0:52:00:00:0f''), Arg ''eth0'']"

definition sample_link_cnf :: stats_cnf where
  "sample_link_cnf = default_stats_cnf\<lparr>if_name := strncpy ''eth0'' 16, req_what := 2, req_link_dir := 3,
     nid := [1, 2, 3, 4, 5, 6, 7], da_sa_mac := [0, 0xB0, 0x52, 0, 0, 0x0F]\<rparr>"

lemma sample_addresses:
  "length dst = 7 \<Longrightarrow> hpav_parse_nid True dst (Some ''01:02:03:04:05:06:07'') = (0, [1, 2, 3, 4, 5, 6, 7])"
  "length dst = 6 \<Longrightarrow> hpav_parse_mac True dst (Some ''00:b0:52:00:00:0f'') = (0, [0, 0xB0, 0x52, 0, 0, 0x0F])"
  by (simp_all add: nid.parse_text mac.parse_text eval_nat_numeral is_hex_digit_def in_range_def
      hex_pair_def digit_val_def exit_code_defs)

lemma sample_link_command:
  "stats_command_line (\<lambda>_. True) sample_link_items = Continue sample_link_cnf"
  by (simp add: sample_link_items_def sample_link_cnf_def stats_command_line_def stats_parse_opt_def
      stats_option_def stats_arg_def stats_end_eq with_defaults_def default_stats_cnf_def
      stats_constant_defs sample_addresses exit_code_defs IF_NAMESIZE_def Let_def)

theorem stats_link_needs_nid_and_mac_witness:
  "(\<exists>a. Opt (CHR ''n'') a \<in> set sample_link_items) \<and> (\<exists>a. Opt (CHR ''m'') a \<in> set sample_link_items)"
  using stats_link_needs_nid_and_mac [OF sample_link_command]
  by (simp add: sample_link_cnf_def REQ_LINK_STATS_def)


text \<open>Nothing resets \<open>errno\<close>, and with a range error in it no \<open>-g\<close> is accepted.\<close>

lemma stats_option_errno:
  "ensures True (\<lambda>st'. errno_range st \<longrightarrow> errno_range st') (stats_option mem key arg st)"
  unfolding stats_option_def Let_def by (intro ensures_rules) simp_all

lemma stale_errno_gap: "errno_range st \<Longrightarrow> stats_option mem (CHR ''g'') (Some gap) st = argp_error"
  by (simp add: stats_option_def split: prod.split)

lemma stale_errno_line:
  "errno_range st \<Longrightarrow> argp_parse stats_parse_opt mem n (mid @ Opt (CHR ''g'') (Some gap) # post) st \<noteq> Continue st'"
proof (induction mid arbitrary: n st)
  case Nil
  then show ?case by (simp add: stats_parse_opt_def stale_errno_gap argp_error_def)
next
  case (Cons it mid)
  show ?case
  proof (cases it)
    case (Opt c a)
    then show ?thesis
      using Cons ensuresD [OF stats_option_errno] by (auto simp: stats_parse_opt_def)
  next
    case (Arg b)
    then show ?thesis
      using Cons by (auto simp: stats_parse_opt_def stats_arg_def argp_error_def split: if_splits)
  qed
qed

text \<open>
  C32: A range error of one option makes another one fail. An over-long negative \<open>-i\<close> is accepted, as link
  identifier 0, because \<open>sscanf\<close> saturates and the result is cut to an \<open>int\<close>; it leaves \<open>errno\<close> set, and since
  \<open>_parse_opt\<close> does not reset \<open>errno\<close> before \<open>strtoul\<close>, every \<open>-g\<close> behind it is rejected, whatever its value and
  whatever stands before, between and behind the two: no such command line is accepted, and with options and
  arguments as the option table has them it ends the process with an error status.
\<close>
theorem stale_errno_rejects_gap:
  assumes "scan_number 10 text = Some (True, n, rest)" and "2 ^ 63 < n"
  shows "(\<exists>st'. stats_option mem (CHR ''i'') (Some text) st = Continue st' \<and> lid (conf st') = 0)
    \<and> (\<forall>mem' pre mid gap post. let items = pre @ Opt (CHR ''i'') (Some text) # mid @ Opt (CHR ''g'') (Some gap) # post in
        (\<forall>cnf. stats_command_line mem' items \<noteq> Continue cnf)
        \<and> (list_all (item_ok stats_cmd_options) items \<longrightarrow> (\<exists>code. stats_command_line mem' items = Exit code)))"
proof -
  have "signed_value True n = - (2 ^ 63)"
    using assms(2) by (simp add: signed_value_def)
  then have scan: "scan_d text = Some (0, rest)" "scan_d_range text"
    using assms by (simp_all add: scan_d_def scan_d_range_def)
  then have accepted: "\<exists>st'. stats_option mem (CHR ''i'') (Some text) st = Continue st' \<and> lid (conf st') = 0 \<and> errno_range st'"
    for mem st
    by (simp add: stats_option_def)
  have rejected: "stats_command_line mem (pre @ Opt (CHR ''i'') (Some text) # mid @ Opt (CHR ''g'') (Some gap) # post) \<noteq> Continue cnf"
    for mem pre mid gap post cnf
  proof
    assume "stats_command_line mem (pre @ Opt (CHR ''i'') (Some text) # mid @ Opt (CHR ''g'') (Some gap) # post) = Continue cnf"
    then obtain s' s0 where "argp_parse stats_parse_opt mem 0
        (pre @ Opt (CHR ''i'') (Some text) # mid @ Opt (CHR ''g'') (Some gap) # post) s0 = Continue s'"
      unfolding stats_command_line_def and_then_eq_Continue by blast
    from argp_parse_rest [OF this] obtain m s where "argp_parse stats_parse_opt mem m
        (Opt (CHR ''i'') (Some text) # mid @ Opt (CHR ''g'') (Some gap) # post) s = Continue s'"
      by blast
    then obtain st where "stats_option (mem (Suc (length (mid @ Opt (CHR ''g'') (Some gap) # post)))) (CHR ''i'') (Some text) s
          = Continue st"
        and rest: "argp_parse stats_parse_opt mem m (mid @ Opt (CHR ''g'') (Some gap) # post) st = Continue s'"
      by (auto simp: stats_parse_opt_def)
    with accepted have "errno_range st" by (metis outcome.inject(1))
    with rest show False using stale_errno_line by blast
  qed
  have "\<exists>code. stats_command_line mem items = Exit code"
    if "list_all (item_ok stats_cmd_options) items" "\<And>cnf. stats_command_line mem items \<noteq> Continue cnf" for mem items
    using stats_command_line_ensures [OF that(1), of mem] that(2)
    by (cases "stats_command_line mem items") (auto simp: ensures_def)
  then show ?thesis
    using accepted rejected unfolding Let_def by blast
qed

theorem stale_errno_rejects_gap_witness:
  "(\<exists>code. stats_command_line (\<lambda>_. True) [Opt (CHR ''N'') None, Opt (CHR ''i'') (Some ''-99999999999999999999''),
      Opt (CHR ''b'') None, Opt (CHR ''g'') (Some ''200000''), Arg ''eth0''] = Exit code)
    \<and> (\<exists>cnf. stats_command_line (\<lambda>_. True) [Opt (CHR ''N'') None, Opt (CHR ''i'') (Some ''-99999999999999999999''),
      Opt (CHR ''b'') None, Arg ''eth0''] = Continue cnf \<and> lid cnf = 0)
    \<and> (\<exists>cnf. stats_command_line (\<lambda>_. True) [Opt (CHR ''N'') None,
      Opt (CHR ''b'') None, Opt (CHR ''g'') (Some ''200000''), Arg ''eth0''] = Continue cnf)"
proof -
  note eval = scan_number_def is_space_def in_range_def take_sign_def is_digit_def is_hex_digit_def digit_val_def number_def
  have digits: "scan_number 10 ''-99999999999999999999'' = Some (True, 99999999999999999999, [])"
    by (simp add: eval)
  note stale = stale_errno_rejects_gap [OF digits, THEN conjunct2, rule_format, unfolded Let_def,
      of "\<lambda>_. True" "[Opt (CHR ''N'') None]" "[Opt (CHR ''b'') None]" "''200000''" "[Arg ''eth0'']", simplified]
  have "\<exists>code. stats_command_line (\<lambda>_. True) [Opt (CHR ''N'') None, Opt (CHR ''i'') (Some ''-99999999999999999999''),
      Opt (CHR ''b'') None, Opt (CHR ''g'') (Some ''200000''), Arg ''eth0''] = Exit code"
    using stale by (simp add: stats_cmd_options_def)
  moreover have "\<exists>cnf. stats_command_line (\<lambda>_. True) [Opt (CHR ''N'') None, Opt (CHR ''i'') (Some ''-99999999999999999999''),
      Opt (CHR ''b'') None, Arg ''eth0''] = Continue cnf \<and> lid cnf = 0"
    by (simp add: stats_command_line_def stats_parse_opt_def stats_option_def stats_arg_def stats_end_eq with_defaults_def
        default_stats_cnf_def stats_constant_defs scan_d_def signed_value_def digits)
  moreover have "\<exists>cnf. stats_command_line (\<lambda>_. True) [Opt (CHR ''N'') None,
      Opt (CHR ''b'') None, Opt (CHR ''g'') (Some ''200000''), Arg ''eth0''] = Continue cnf"
    by (simp add: stats_command_line_def stats_parse_opt_def stats_option_def stats_arg_def stats_end_eq with_defaults_def
        default_stats_cnf_def stats_constant_defs strtoul_def eval)
  ultimately show ?thesis by blast
qed

end
