(* ===== verification/Hpav_Stats.thy ===== *)
theory Hpav_Stats
  imports Hpav_Stats_Options
begin

text \<open>
  \<^verbatim>\<open>bin/hpav-stats.c\<close> behind the command line: the request sequence of \<open>main\<close> and the two callbacks that
  print the statistics. \<open>main\<close> and the callbacks, which run in the event thread, share the variable
  \<open>link_stats_req_type\<close>; the last section lets them interleave.
\<close>

section \<open>Requests\<close>

definition CM_LINK_STATS_REQUEST_TYPE_STATISTIC_GET :: u8 where
  "CM_LINK_STATS_REQUEST_TYPE_STATISTIC_GET = 0x01"

definition CM_LINK_STATS_TL_FLAG_TRANSMIT_LINK :: u8 where
  "CM_LINK_STATS_TL_FLAG_TRANSMIT_LINK = 0x00"

definition CM_LINK_STATS_TL_FLAG_RECEIVE_LINK :: u8 where
  "CM_LINK_STATS_TL_FLAG_RECEIVE_LINK = 0x01"

definition CM_LINK_STATS_MGMT_FLAG_NOT_MANAGEMENT_LINK :: u8 where
  "CM_LINK_STATS_MGMT_FLAG_NOT_MANAGEMENT_LINK = 0x00"

definition LINK_STATS_REQ_TYPE_TRANSMIT :: u32 where
  "LINK_STATS_REQ_TYPE_TRANSMIT = 0"

definition LINK_STATS_REQ_TYPE_RECEIVE :: u32 where
  "LINK_STATS_REQ_TYPE_RECEIVE = 1"

text \<open>\<open>_req_link_stats\<close>\<close>

definition req_link_stats ::
  "(io_op \<Rightarrow> int) \<Rightarrow> net_ctx \<Rightarrow> stats_cnf \<Rightarrow> link_stats_request \<Rightarrow> u32 action list outcome" where
  "req_link_stats wr nctx cnf link_req_cfg =
     send_action (ieee1901_2010_message_send wr (sock nctx) (oda cnf) (sll_addr (if_cfg nctx))
       (hpav_ver cnf) MM_TYPE_CM_LINK_STATS MMOperationTypeRequest
       (Some (link_stats_request_bytes link_req_cfg)) (of_nat sizeof_link_stats_request))"

text \<open>
  \<open>for (lid = 0; lid <= lid_lim; lid++)\<close> with \<open>uint16_t\<close> variables. The loop does not end when the limit is
  the largest \<open>uint16_t\<close>; then the value is \<^term>\<open>None\<close>.
\<close>

partial_function (option) lid_loop ::
  "(u16 \<Rightarrow> 'x action list outcome) \<Rightarrow> u16 \<Rightarrow> u16 \<Rightarrow> 'x action list outcome option" where
  "lid_loop body lid_lim l =
    (if l \<le> lid_lim
     then Option.bind (lid_loop body lid_lim (l + 1)) (\<lambda>rest.
       Some (and_then (body l) (\<lambda>acts. and_then rest (\<lambda>rest. Continue (acts @ rest)))))
     else Some (Continue []))"

declare lid_loop.simps [code]

text \<open>The requests for one direction; \<open>cm_link_stats_request\<close> is updated and used in each of them.\<close>

definition link_direction_requests ::
  "(io_op \<Rightarrow> int) \<Rightarrow> net_ctx \<Rightarrow> stats_cnf \<Rightarrow> u16 \<Rightarrow> link_stats_request \<Rightarrow> u32 action list outcome option" where
  "link_direction_requests wr nctx cnf lid_lim req =
    (if lid cnf \<noteq> - 1 then
       let l = ucast (lid cnf AND 0xff)
       in Some (req_link_stats wr nctx cnf (req\<lparr>lsr_lid := l, lsr_req_id := l\<rparr>))
     else
       lid_loop (\<lambda>l. and_then (req_link_stats wr nctx cnf (req\<lparr>lsr_lid := ucast l, lsr_req_id := ucast l\<rparr>))
         (\<lambda>acts. Continue (acts @ [Usleep (message_gap_usec cnf)]))) lid_lim 0)"

definition append_actions ::
  "'x action list outcome option \<Rightarrow> 'x action list outcome option \<Rightarrow> 'x action list outcome option" where
  "append_actions m m' = do {
     a \<leftarrow> m;
     b \<leftarrow> m';
     Some (and_then a (\<lambda>xs. and_then b (\<lambda>ys. Continue (xs @ ys))))
   }"

text \<open>
  \<open>main\<close> after the reader has been added, up to the final sleep. \<open>cm_link_stats_request\<close> is not initialised;
  \<open>junk\<close> is its content.
\<close>

definition link_stats_template :: "stats_cnf \<Rightarrow> link_stats_request \<Rightarrow> link_stats_request" where
  "link_stats_template cnf junk = junk\<lparr>
     lsr_req_type := CM_LINK_STATS_REQUEST_TYPE_STATISTIC_GET,
     lsr_da_sa := take 6 (da_sa_mac cnf),
     lsr_nid := take 7 (nid cnf),
     lsr_mgmt_flag := CM_LINK_STATS_MGMT_FLAG_NOT_MANAGEMENT_LINK\<rparr>"

definition stats_requests ::
  "(io_op \<Rightarrow> int) \<Rightarrow> net_ctx \<Rightarrow> stats_cnf \<Rightarrow> link_stats_request \<Rightarrow> u32 action list outcome option" where
  "stats_requests wr nctx cnf junk =
    (let lid_lim = (if lid_range_type cnf = REQ_LID_TYPE_ALL then 255 else 4);
         gap = message_gap_usec cnf;
         req = link_stats_template cnf junk
     in append_actions
       (if req_what cnf AND REQ_NETWORK_STATS \<noteq> 0
        then Some (send_action (ieee1901_2010_message_send wr (sock nctx) (oda cnf) (sll_addr (if_cfg nctx))
          (hpav_ver cnf) MM_TYPE_CM_NW_STATS MMOperationTypeRequest None 0))
        else Some (Continue []))
       (append_actions
         (if req_what cnf AND REQ_LINK_STATS \<noteq> 0
          then append_actions (Some (Continue [Usleep (gap * 2), Assign LINK_STATS_REQ_TYPE_TRANSMIT]))
            (append_actions
              (if req_link_dir cnf AND REQ_TX_LINK_STATS \<noteq> 0
               then link_direction_requests wr nctx cnf lid_lim
                 (req\<lparr>lsr_tl_flag := CM_LINK_STATS_TL_FLAG_TRANSMIT_LINK\<rparr>)
               else Some (Continue []))
              (if req_link_dir cnf AND REQ_RX_LINK_STATS \<noteq> 0
               then append_actions (Some (Continue [Usleep (gap * 2), Assign LINK_STATS_REQ_TYPE_RECEIVE]))
                 (link_direction_requests wr nctx cnf lid_lim
                   (req\<lparr>lsr_tl_flag := CM_LINK_STATS_TL_FLAG_RECEIVE_LINK\<rparr>))
               else Some (Continue [])))
          else Some (Continue []))
         (Some (Continue [Usleep (gap * 5)]))))"


section \<open>The loop over the link identifiers\<close>

lemma lid_loop_end: "\<not> l \<le> lid_lim \<Longrightarrow> lid_loop body lid_lim l = Some (Continue [])"
  by (simp add: lid_loop.simps [of body lid_lim l])

lemma lid_loop_step:
  "l \<le> lid_lim \<Longrightarrow> lid_loop body lid_lim l =
    Option.bind (lid_loop body lid_lim (l + 1)) (\<lambda>rest.
      Some (and_then (body l) (\<lambda>acts. and_then rest (\<lambda>rest. Continue (acts @ rest)))))"
  by (simp add: lid_loop.simps [of body lid_lim l])

lemma lid_loop_runs:
  assumes "m \<le> n" "n < 2 ^ 16 - 1" "\<And>l. l \<le> of_nat n \<Longrightarrow> body l = Continue (acts l)"
  shows "lid_loop body (of_nat n) (of_nat m) = Some (Continue (concat (map (\<lambda>k. acts (of_nat k)) [m..<Suc n])))"
  using assms(1)
proof (induction m rule: inc_induct)
  case base
  have "\<not> (of_nat n + 1 :: u16) \<le> of_nat n"
  proof -
    have "(of_nat n + 1 :: u16) = of_nat (Suc n)" by simp
    moreover have "unat (of_nat (Suc n) :: u16) = Suc n" "unat (of_nat n :: u16) = n"
      using assms(2) by (simp_all add: unat_of_nat take_bit_nat_eq_self del: of_nat_Suc)
    ultimately show ?thesis by (simp add: word_le_nat_alt del: of_nat_Suc)
  qed
  then show ?case
    by (simp add: lid_loop_step lid_loop_end assms(3))
next
  case (step m)
  have "(of_nat m :: u16) \<le> of_nat n"
    using step.hyps assms(2) by (simp add: word_le_nat_alt unat_of_nat take_bit_nat_eq_self)
  then show ?case
    using step.IH step.hyps by (simp add: lid_loop_step assms(3) upt_conv_Cons add.commute)
qed


lemma lid_loop_returns:
  assumes "lid_lim \<noteq> - 1"
  shows "\<exists>m. lid_loop body lid_lim l = Some m"
proof (induction "Suc (unat lid_lim) - unat l" arbitrary: l rule: less_induct)
  case less
  show ?case
  proof (cases "l \<le> lid_lim")
    case False
    then show ?thesis by (simp add: lid_loop_end)
  next
    case True
    then have "l \<noteq> - 1"
      using assms word_order.extremum_uniqueI by blast
    then have "unat (l + 1) = Suc (unat l)"
      by (metis add.commute add_eq_0_iff2 unatSuc)
    then have "Suc (unat lid_lim) - unat (l + 1) < Suc (unat lid_lim) - unat l"
      using True by (simp add: word_le_nat_alt)
    from less [OF this] show ?thesis
      using True by (auto simp: lid_loop_step)
  qed
qed

lemma lid_loop_diverges:
  assumes "lid_loop body lid_lim l = Some m"
  shows "lid_lim \<noteq> - 1"
proof (rule lid_loop.raw_induct [where P = "\<lambda>body lid_lim l m. lid_lim \<noteq> - 1", OF _ assms])
  fix loop and body :: "u16 \<Rightarrow> 'x action list outcome" and lid_lim l :: u16 and m
  assume IH: "\<And>body lid_lim l m. loop body lid_lim l = Some m \<Longrightarrow> lid_lim \<noteq> - 1"
    and "(if l \<le> lid_lim
       then Option.bind (loop body lid_lim (l + 1)) (\<lambda>rest.
         Some (and_then (body l) (\<lambda>acts. and_then rest (\<lambda>rest. Continue (acts @ rest)))))
       else Some (Continue [])) = Some m"
  then show "lid_lim \<noteq> - 1"
    by (cases "loop body lid_lim (l + 1)") (auto split: if_splits)
qed

text \<open>
  The loop over the link identifiers, whose counter and limit are 16-bit words, ends if and only if the limit
  is not the largest such word; the two limits that \<^verbatim>\<open>main\<close> uses, 4 and 255, are safe.
\<close>
theorem lid_loop_terminates:
  "(\<exists>m. lid_loop body lid_lim l = Some m) \<longleftrightarrow> lid_lim \<noteq> 0xffff"
proof -
  have "(0xffff :: u16) = - 1" by simp
  then show ?thesis
    using lid_loop_returns [of lid_lim body l] lid_loop_diverges [of body lid_lim l] by metis
qed


section \<open>What is requested\<close>

text \<open>The frames that are sent, each with the value of \<open>link_stats_req_type\<close> at that moment.\<close>

fun sent_with :: "u32 \<Rightarrow> u32 action list \<Rightarrow> (u32 \<times> bytes) list" where
  "sent_with t [] = []"
| "sent_with t (Send call # acts) = (t, wire_bytes call) # sent_with t acts"
| "sent_with t (Assign t' # acts) = sent_with t' acts"
| "sent_with t (Usleep us # acts) = sent_with t acts"
| "sent_with t (Print s # acts) = sent_with t acts"

definition no_assign :: "'x action list \<Rightarrow> bool" where
  "no_assign acts \<longleftrightarrow> (\<forall>t. Assign t \<notin> set acts)"

lemma sent_with_append: "no_assign xs \<Longrightarrow> sent_with t (xs @ ys) = sent_with t xs @ sent_with t ys"
  by (induction t xs rule: sent_with.induct) (auto simp: no_assign_def)

definition link_request :: "stats_cnf \<Rightarrow> u8 \<Rightarrow> u8 \<Rightarrow> link_stats_request" where
  "link_request cnf tf l = \<lparr>lsr_req_type = 1, lsr_req_id = l, lsr_nid = nid cnf, lsr_lid = l,
     lsr_tl_flag = tf, lsr_mgmt_flag = 0, lsr_da_sa = da_sa_mac cnf\<rparr>"

definition stats_frame :: "net_ctx \<Rightarrow> stats_cnf \<Rightarrow> u16 \<Rightarrow> bytes \<Rightarrow> bytes" where
  "stats_frame nctx cnf mmtype body =
     frame_of_message (oda cnf) (take 6 (sll_addr (if_cfg nctx))) (hpav_ver cnf) mmtype body"

definition link_frame :: "net_ctx \<Rightarrow> stats_cnf \<Rightarrow> u8 \<Rightarrow> u8 \<Rightarrow> bytes" where
  "link_frame nctx cnf tf l = stats_frame nctx cnf 0x604C (link_stats_request_bytes (link_request cnf tf l))"

definition requested_lids :: "stats_cnf \<Rightarrow> u8 list" where
  "requested_lids cnf =
    (if lid cnf \<noteq> - 1 then [ucast (lid cnf)]
     else map of_nat [0..<if lid_range_type cnf = REQ_LID_TYPE_ALL then 256 else 5])"

lemma length_link_request:
  "length (nid cnf) = 7 \<Longrightarrow> length (da_sa_mac cnf) = 6 \<Longrightarrow>
   length (link_stats_request_bytes (link_request cnf tf l)) = 18"
  by (simp add: link_request_def link_stats_request_bytes_def)


lemma req_link_stats_eq:
  assumes "wf_stats_cnf cnf" "6 \<le> length (sll_addr (if_cfg nctx))" "wf_link_stats_request req"
  shows "\<exists>call. req_link_stats wr nctx cnf req = Continue [Send call]
    \<and> wire_bytes call = stats_frame nctx cnf 0x604C (link_stats_request_bytes req)"
proof -
  have len: "length (link_stats_request_bytes req) = 18"
    using lsr.length_enc [OF assms(3)] by (simp add: sizeof_link_stats_request_def)
  show ?thesis
    using message_send_ops(1) [of "oda cnf" "sll_addr (if_cfg nctx)" "link_stats_request_bytes req" wr
        "sock nctx" "hpav_ver cnf" MM_TYPE_CM_LINK_STATS MMOperationTypeRequest] assms
    by (auto simp: req_link_stats_def send_action_def len wf_stats_cnf_def wf_cmd_cnf_def stats_frame_def
        sizeof_link_stats_request_def MM_TYPE_CM_LINK_STATS_def MMOperationTypeRequest_def)
qed

lemma link_template:
  assumes "wf_stats_cnf cnf"
  shows "(link_stats_template cnf junk)\<lparr>lsr_tl_flag := tf, lsr_lid := l, lsr_req_id := l\<rparr> = link_request cnf tf l"
    and "wf_link_stats_request (link_request cnf tf l)"
  using assms by (simp_all add: link_stats_template_def link_request_def wf_stats_cnf_def wf_cmd_cnf_def
      wf_link_stats_request_def CM_LINK_STATS_REQUEST_TYPE_STATISTIC_GET_def
      CM_LINK_STATS_MGMT_FLAG_NOT_MANAGEMENT_LINK_def)

lemma link_direction_requests_eq:
  assumes "wf_stats_cnf cnf" "6 \<le> length (sll_addr (if_cfg nctx))"
    and "n = (if lid_range_type cnf = REQ_LID_TYPE_ALL then 255 else 4)"
  shows "\<exists>acts. link_direction_requests wr nctx cnf (of_nat n)
      ((link_stats_template cnf junk)\<lparr>lsr_tl_flag := tf\<rparr>) = Some (Continue acts)
    \<and> no_assign acts
    \<and> (\<forall>t. sent_with t acts = map (\<lambda>l. (t, link_frame nctx cnf tf l)) (requested_lids cnf))"
proof -
  have "\<forall>l. \<exists>call. req_link_stats wr nctx cnf (link_request cnf tf l) = Continue [Send call]
      \<and> wire_bytes call = link_frame nctx cnf tf l"
    using req_link_stats_eq [OF assms(1,2) link_template(2) [OF assms(1)]] by (simp add: link_frame_def)
  then obtain call where call: "req_link_stats wr nctx cnf (link_request cnf tf l) = Continue [Send (call l)]"
      "wire_bytes (call l) = link_frame nctx cnf tf l" for l
    by metis
  show ?thesis
  proof (cases "lid cnf = - 1")
    case False
    have "ucast (lid cnf AND 0xff) = (ucast (lid cnf) :: u8)"
    proof -
      have "(0xff :: i32) = mask 8" by (simp add: mask_eq_exp_minus_1)
      then have "lid cnf AND 0xff = take_bit 8 (lid cnf)" by (simp only: take_bit_eq_mask)
      then show ?thesis by (auto intro!: bit_word_eqI simp: bit_simps)
    qed
    then show ?thesis
      using False by (simp add: link_direction_requests_def link_template [OF assms(1)] call no_assign_def
          requested_lids_def Let_def)
  next
    case True
    let ?acts = "\<lambda>l :: u16. [Send (call (ucast l)), Usleep (message_gap_usec cnf)]"
    have loop: "lid_loop (\<lambda>l. and_then (req_link_stats wr nctx cnf ((link_stats_template cnf junk)
            \<lparr>lsr_tl_flag := tf, lsr_lid := ucast l, lsr_req_id := ucast l\<rparr>))
          (\<lambda>acts. Continue (acts @ [Usleep (message_gap_usec cnf)]))) (of_nat n) (of_nat 0)
      = Some (Continue (concat (map (\<lambda>k. ?acts (of_nat k)) [0..<Suc n])))"
      by (rule lid_loop_runs) (simp_all add: link_template [OF assms(1)] call assms(3))
    have sent: "sent_with t (concat (map (\<lambda>k. ?acts (of_nat k)) ks))
        = map (\<lambda>k. (t, link_frame nctx cnf tf (of_nat k))) ks" for t ks
      by (induction ks) (simp_all add: call ucast_of_nat_down)
    have "Suc n = (if lid_range_type cnf = REQ_LID_TYPE_ALL then 256 else 5)"
      using assms(3) by simp
    then have lids: "requested_lids cnf = map of_nat [0..<Suc n]"
      using True by (simp only: requested_lids_def) simp
    show ?thesis
      using True loop sent [of _ "[0..<Suc n]"]
      by (simp add: link_direction_requests_def no_assign_def lids del: upt_Suc)
  qed
qed


definition spec_stats_frames :: "net_ctx \<Rightarrow> stats_cnf \<Rightarrow> u32 \<Rightarrow> (u32 \<times> bytes) list" where
  "spec_stats_frames nctx cnf t =
    (if req_what cnf AND 1 \<noteq> 0 then [(t, stats_frame nctx cnf 0x6048 [])] else [])
    @ (if req_what cnf AND 2 \<noteq> 0 then
         (if req_link_dir cnf AND 2 \<noteq> 0 then map (\<lambda>l. (0, link_frame nctx cnf 0 l)) (requested_lids cnf) else [])
         @ (if req_link_dir cnf AND 1 \<noteq> 0 then map (\<lambda>l. (1, link_frame nctx cnf 1 l)) (requested_lids cnf) else [])
       else [])"

lemma append_actions_run:
  "m = Some (Continue xs) \<Longrightarrow> m' = Some (Continue ys) \<Longrightarrow> append_actions m m' = Some (Continue (xs @ ys))"
  by (simp add: append_actions_def)

lemma nw_stats_request_eq:
  assumes "wf_stats_cnf cnf" "6 \<le> length (sll_addr (if_cfg nctx))"
  shows "\<exists>call. send_action (ieee1901_2010_message_send wr (sock nctx) (oda cnf) (sll_addr (if_cfg nctx))
      (hpav_ver cnf) MM_TYPE_CM_NW_STATS MMOperationTypeRequest None 0) = Continue [Send call]
    \<and> wire_bytes call = stats_frame nctx cnf 0x6048 []"
  using message_send_ops(2) [of "oda cnf" "sll_addr (if_cfg nctx)" "[0]" wr "sock nctx" "hpav_ver cnf"
      MM_TYPE_CM_NW_STATS MMOperationTypeRequest] assms
  by (auto simp: send_action_def wf_stats_cnf_def wf_cmd_cnf_def stats_frame_def MM_TYPE_CM_NW_STATS_def
      MMOperationTypeRequest_def)

lemma stats_requests_run:
  assumes "wf_stats_cnf cnf" and "6 \<le> length (sll_addr (if_cfg nctx))"
  shows "\<exists>acts. stats_requests wr nctx cnf junk = Some (Continue acts)
    \<and> sent_with t acts = spec_stats_frames nctx cnf t"
proof -
  let ?gap = "message_gap_usec cnf"
  obtain nw where nw: "send_action (ieee1901_2010_message_send wr (sock nctx) (oda cnf) (sll_addr (if_cfg nctx))
      (hpav_ver cnf) MM_TYPE_CM_NW_STATS MMOperationTypeRequest None 0) = Continue ([Send nw] :: u32 action list)"
      "wire_bytes nw = stats_frame nctx cnf 0x6048 []"
    using nw_stats_request_eq [OF assms] by blast
  let ?n = "if lid_range_type cnf = REQ_LID_TYPE_ALL then 255 else 4 :: nat"
  have "\<forall>tf. \<exists>acts. link_direction_requests wr nctx cnf (of_nat ?n)
      ((link_stats_template cnf junk)\<lparr>lsr_tl_flag := tf\<rparr>) = Some (Continue acts) \<and> no_assign acts
    \<and> (\<forall>t. sent_with t acts = map (\<lambda>l. (t, link_frame nctx cnf tf l)) (requested_lids cnf))"
    using link_direction_requests_eq [OF assms refl] by blast
  then obtain acts where acts: "link_direction_requests wr nctx cnf (of_nat ?n)
      ((link_stats_template cnf junk)\<lparr>lsr_tl_flag := tf\<rparr>) = Some (Continue (acts tf))" "no_assign (acts tf)"
      "sent_with t (acts tf) = map (\<lambda>l. (t, link_frame nctx cnf tf l)) (requested_lids cnf)" for tf t
    by metis
  have lim: "(if lid_range_type cnf = REQ_LID_TYPE_ALL then 255 else 4) = (of_nat ?n :: u16)"
    by simp
  show ?thesis
    unfolding stats_requests_def Let_def lim acts(1) nw(1)
    by (cases "req_what cnf AND 1 = 0"; cases "req_what cnf AND 2 = 0";
        cases "req_link_dir cnf AND 2 = 0"; cases "req_link_dir cnf AND 1 = 0")
      (simp_all add: append_actions_run acts nw spec_stats_frames_def sent_with_append stats_constant_defs
        CM_LINK_STATS_TL_FLAG_TRANSMIT_LINK_def CM_LINK_STATS_TL_FLAG_RECEIVE_LINK_def
        LINK_STATS_REQ_TYPE_TRANSMIT_def LINK_STATS_REQ_TYPE_RECEIVE_def)
qed

text \<open>
  C6: What \<^verbatim>\<open>hpav-stats\<close> sends. For every well-formed configuration \<open>main\<close> terminates and sends exactly the
  requests the options ask for: one request for the network statistics, then one transmit-link request per
  link identifier, then one receive-link request per link identifier; every transmit-link request is sent
  while \<open>link_stats_req_type\<close> is TRANSMIT and every receive-link request while it is RECEIVE. Without \<open>-i\<close> the
  identifiers are 0 to 4 (the help of \<open>-i\<close> says 0 to 3), with \<open>-a\<close> they are 0 to 255.
\<close>
theorem stats_requests_spec:
  assumes "wf_stats_cnf cnf" and "6 \<le> length (sll_addr (if_cfg nctx))"
  shows "\<exists>acts. stats_requests wr nctx cnf junk = Some (Continue acts)
    \<and> sent_with t acts = spec_stats_frames nctx cnf t"
  by (rule stats_requests_run [OF assms])

definition zero_request :: link_stats_request where
  "zero_request = \<lparr>lsr_req_type = 0, lsr_req_id = 0, lsr_nid = replicate 7 0, lsr_lid = 0,
     lsr_tl_flag = 0, lsr_mgmt_flag = 0, lsr_da_sa = replicate 6 0\<rparr>"

lemma wf_sample_link_cnf: "wf_stats_cnf sample_link_cnf"
  by (simp add: wf_stats_cnf_def wf_cmd_cnf_def sample_link_cnf_def default_stats_cnf_def IF_NAMESIZE_def
      ETHERNET_BROADCAST_ADDRESS_def stats_constant_defs)

theorem stats_requests_spec_witness:
  "\<exists>acts. stats_requests (\<lambda>_. 60) sample_nctx sample_link_cnf zero_request = Some (Continue acts)
    \<and> sent_with 9 acts = spec_stats_frames sample_nctx sample_link_cnf 9
    \<and> map fst (sent_with 9 acts) = [0, 0, 0, 0, 0, 1, 1, 1, 1, 1]"
  using stats_requests_spec [OF wf_sample_link_cnf, of sample_nctx "\<lambda>_. 60" zero_request 9]
  by (auto simp: sample_nctx_def spec_stats_frames_def requested_lids_def upt_rec sample_link_cnf_def
      default_stats_cnf_def stats_constant_defs)


section \<open>The callbacks\<close>

text \<open>
  The variables that the callbacks use: \<open>link_stats_req_type\<close> of the application context and the static
  counters of the two functions.
\<close>

record stats_app =
  link_stats_req_type :: u32
  tx_ls :: u64
  rx_ls :: u64
  nw_cnt :: u64

datatype stats_cb = Nw_stats_cb | Link_stats_cb

text \<open>\<open>_get_time\<close>: the seconds of \<open>gettimeofday\<close>, cut to 32 bits.\<close>

definition get_time :: "int \<Rightarrow> u32" where
  "get_time tv_sec = of_int tv_sec"

text \<open>\<open>_nw_stats\<close>, with the time that \<open>_get_time\<close> returns; the result is the block of lines it prints.\<close>

definition nw_stats_callback :: "u32 \<Rightarrow> bytes \<Rightarrow> nw_stats \<Rightarrow> stats_app \<Rightarrow> stats_app \<times> string list" where
  "nw_stats_callback time osa stats app =
    (app\<lparr>nw_cnt := nw_cnt app + 1\<rparr>,
     [head_line ''network_stats_'' (nw_cnt app),
      number_line ''ts'' time,
      address_line ''osa'' osa,
      address_line ''destination-address'' (nws_da stats),
      number_line ''avg-tx-rate'' (nws_avg_pgy_tx stats),
      number_line ''avg-rx-rate'' (nws_avg_pgy_rx stats)])"

text \<open>\<open>_link_stats\<close>; the line \<open>lid\<close> shows the request id, in which the link id was sent.\<close>

definition link_stats_callback ::
  "u32 \<Rightarrow> bytes \<Rightarrow> link_stats_confirm_head \<Rightarrow> bytes \<Rightarrow> u64 \<Rightarrow> stats_app \<Rightarrow> (stats_app \<times> string list list) outcome" where
  "link_stats_callback time osa data payload len app =
    (if lsh_rsp_type data \<noteq> 0 then Continue (app, [])
     else if link_stats_req_type app = LINK_STATS_REQ_TYPE_TRANSMIT then
       if len < of_nat sizeof_link_stats_transmit_confirm then Continue (app, [])
       else and_then (defined (rd payload 0 sizeof_link_stats_transmit_confirm)) (\<lambda>bs.
         let c = link_stats_transmit_confirm_of bs
         in Continue (app\<lparr>tx_ls := tx_ls app + 1\<rparr>,
           [[head_line ''transmit_link_stats_'' (tx_ls app),
             number_line ''ts'' time,
             address_line ''osa'' osa,
             hex_line ''req-id'' (lsh_req_id data),
             hex_line ''lid'' (lsh_req_id data),
             hex_line ''rsp-type'' (lsh_rsp_type data),
             number_line ''beacon-period-cnt'' (lst_beacon_period_cnt c),
             number_line ''tx-num-msduds'' (lst_tx_num_msduds c),
             number_line ''tx-octets'' (lst_tx_octets c),
             number_line ''tx-num-segs'' (lst_tx_num_segs c),
             number_line ''tx-num-seg-suc'' (lst_tx_num_seg_suc c),
             number_line ''tx-num-seg-dropped'' (lst_tx_num_seg_dropped c),
             number_line ''tx-num-pbs'' (lst_tx_num_pbs c),
             number_line ''tx-num-mpdus'' (lst_tx_num_mpdus c),
             number_line ''tx-num-bursts'' (lst_tx_num_bursts c),
             number_line ''tx-num-sacks'' (lst_tx_num_sacks c),
             number_line ''num-lat-bins'' (lst_num_lat_bins c)]]))
     else if link_stats_req_type app = LINK_STATS_REQ_TYPE_RECEIVE then
       if len < of_nat sizeof_link_stats_receive_confirm then Continue (app, [])
       else and_then (defined (rd payload 0 sizeof_link_stats_receive_confirm)) (\<lambda>bs.
         let c = link_stats_receive_confirm_of bs
         in Continue (app\<lparr>rx_ls := rx_ls app + 1\<rparr>,
           [[head_line ''receive_link_stats_'' (rx_ls app),
             number_line ''ts'' time,
             address_line ''osa'' osa,
             hex_line ''req-id'' (lsh_req_id data),
             hex_line ''lid'' (lsh_req_id data),
             hex_line ''rsp-type'' (lsh_rsp_type data),
             number_line ''beacon-period-cnt'' (lrc_beacon_period_cnt c),
             number_line ''rx-num-msduds'' (lrc_rx_num_msduds c),
             number_line ''rx-octets'' (lrc_rx_octets c),
             number_line ''rx-num-seg-suc'' (lrc_rx_num_seg_suc c),
             number_line ''rx-num-seg-missed'' (lrc_rx_num_seg_missed c),
             number_line ''rx-num-pbs'' (lrc_rx_num_pbs c),
             number_line ''rx-num-bursts'' (lrc_rx_num_bursts c),
             number_line ''rx-num-mpdus'' (lrc_rx_num_mpdus c),
             number_line ''num-icv-fails'' (lrc_num_icv_fails c)]]))
     else Continue (app, []))"

text \<open>
  An invocation by \<open>ieee1901_2010_handle_message\<close>. A function called with the arguments of another kind of
  callback, or \<open>_link_stats\<close> without its context, is undefined.
\<close>

fun stats_call :: "u32 \<Rightarrow> (stats_cb, unit) cb_call \<Rightarrow> stats_app \<Rightarrow> (stats_app \<times> string list list) outcome" where
  "stats_call time (Nw_stats_call Nw_stats_cb osa stats usr) app =
     (let (app, block) = nw_stats_callback time osa stats app in Continue (app, [block]))"
| "stats_call time (Link_stats_call Link_stats_cb osa data payload len (Some usr)) app =
     link_stats_callback time osa data payload len app"
| "stats_call time _ app = Fault"

text \<open>The registrations of \<open>main\<close>; \<open>junk\<close> is the context before \<open>ieee1901_2010_init\<close>.\<close>

definition stats_ieee_ctx :: "(stats_cb, unit) ieee1901_2010_ctx \<Rightarrow> (stats_cb, unit) ieee1901_2010_ctx option" where
  "stats_ieee_ctx junk =
    (let ctx = fst (ieee1901_2010_init (Some junk));
         ctx = fst (ieee1901_2010_register_cm_nw_stats_confirm_stats_callback ctx (Some Nw_stats_cb) (Some ()));
         ctx = fst (ieee1901_2010_register_cm_link_stats_confirm_callback ctx (Some Link_stats_cb) (Some ()))
     in ctx)"

text \<open>The event thread handles one readable event of the socket.\<close>

definition stats_on_readable ::
  "(nat \<Rightarrow> int) \<Rightarrow> (stats_cb, unit) ieee1901_2010_ctx \<Rightarrow> bytes option \<Rightarrow> stats_app
     \<Rightarrow> (stats_app \<times> string list list) outcome" where
  "stats_on_readable clock junk received app =
     and_then (defined (stats_ieee_ctx junk)) (\<lambda>ctx.
     and_then (handle_data (Some ctx) received) (\<lambda>calls. run_calls (\<lambda>k. stats_call (get_time (clock k))) calls app))"


section \<open>Main thread and event thread\<close>

text \<open>
  The frames sent so far and the blocks printed so far. A step is the next action of \<open>main\<close> or the
  reaction of the event thread to a readable socket.
\<close>

record stats_run =
  todo :: "u32 action list"
  app :: stats_app
  sent :: "bytes list"
  printed :: "string list list"

inductive stats_step :: "stats_run \<Rightarrow> stats_run \<Rightarrow> bool" where
  main_send: "todo r = Send call # acts \<Longrightarrow> stats_step r (r\<lparr>todo := acts, sent := sent r @ [wire_bytes call]\<rparr>)"
| main_sleep: "todo r = Usleep us # acts \<Longrightarrow> stats_step r (r\<lparr>todo := acts\<rparr>)"
| main_assign: "todo r = Assign t # acts \<Longrightarrow>
    stats_step r (r\<lparr>todo := acts, app := (app r)\<lparr>link_stats_req_type := t\<rparr>\<rparr>)"
| readable: "stats_on_readable clock junk received (app r) = Continue (a, blocks) \<Longrightarrow>
    stats_step r (r\<lparr>app := a, printed := printed r @ blocks\<rparr>)"

inductive stats_reachable :: "stats_run \<Rightarrow> stats_run \<Rightarrow> bool" for r0 where
  start: "stats_reachable r0 r0"
| step: "stats_reachable r0 r \<Longrightarrow> stats_step r r' \<Longrightarrow> stats_reachable r0 r'"

inductive_cases stats_stepE: "stats_step r r'"

text \<open>\<open>req_type\<close> is the value of the uninitialised \<open>link_stats_req_type\<close>.\<close>

definition stats_start :: "u32 \<Rightarrow> u32 action list \<Rightarrow> stats_run" where
  "stats_start req_type acts = \<lparr>todo = acts,
     app = \<lparr>link_stats_req_type = req_type, tx_ls = 0, rx_ls = 0, nw_cnt = 0\<rparr>, sent = [], printed = []\<rparr>"

lemma stats_ctx:
  "\<exists>ctx. stats_ieee_ctx junk = Some ctx \<and> cm_nw_stats_confirm_stats_cb ctx = Some Nw_stats_cb
    \<and> cm_nw_stats_confirm_stats_cb_data ctx = Some () \<and> cm_link_stats_confirm_stats_cb ctx = Some Link_stats_cb
    \<and> cm_link_stats_confirm_stats_cb_data ctx = Some ()
    \<and> cc_discover_list_confirm_station_information_cb ctx = None
    \<and> cc_discover_list_confirm_network_information_cb ctx = None
    \<and> cm_nw_info_confirm_nwinfo_cb ctx = None"
  by (simp add: stats_ieee_ctx_def ieee1901_2010_init_def register_defs zero_ctx_def Let_def)


section \<open>What is printed\<close>

text \<open>
  The blocks with a label; they are numbered when their headings count from 0 in order and the counter of
  the label is their number (in 64 bits).
\<close>

definition labelled :: "string \<Rightarrow> string list list \<Rightarrow> string list list" where
  "labelled lab blocks = filter (\<lambda>b. take (length lab) (hd b) = lab) blocks"

definition numbered :: "string \<Rightarrow> u64 \<Rightarrow> string list list \<Rightarrow> bool" where
  "numbered lab cnt blocks \<longleftrightarrow>
     map hd (labelled lab blocks) = map (\<lambda>k. head_line lab (of_nat k)) [0..<length (labelled lab blocks)]
     \<and> cnt = of_nat (length (labelled lab blocks))"

definition output_ok :: "stats_app \<Rightarrow> string list list \<Rightarrow> bool" where
  "output_ok a blocks \<longleftrightarrow> numbered ''transmit_link_stats_'' (tx_ls a) blocks
     \<and> numbered ''receive_link_stats_'' (rx_ls a) blocks \<and> numbered ''network_stats_'' (nw_cnt a) blocks"

lemma labelled_append [simp]: "labelled lab (xs @ ys) = labelled lab xs @ labelled lab ys"
  by (simp add: labelled_def)

lemma labelled_Nil [simp]: "labelled lab [] = []"
  by (simp add: labelled_def)

lemma numbered_next:
  "numbered lab cnt blocks \<Longrightarrow> hd b = head_line lab cnt \<Longrightarrow> numbered lab (cnt + 1) (blocks @ [b])"
  by (simp add: numbered_def labelled_def head_line_def)

lemma numbered_other:
  "numbered lab cnt blocks \<Longrightarrow> take (length lab) (hd b) \<noteq> lab \<Longrightarrow> numbered lab cnt (blocks @ [b])"
  by (simp add: numbered_def labelled_def)

lemma output_ok_next:
  assumes "output_ok a blocks"
  shows "hd b = head_line ''network_stats_'' (nw_cnt a)
      \<Longrightarrow> output_ok (a\<lparr>nw_cnt := nw_cnt a + 1\<rparr>) (blocks @ [b])"
    and "hd b = head_line ''transmit_link_stats_'' (tx_ls a)
      \<Longrightarrow> output_ok (a\<lparr>tx_ls := tx_ls a + 1\<rparr>) (blocks @ [b])"
    and "hd b = head_line ''receive_link_stats_'' (rx_ls a)
      \<Longrightarrow> output_ok (a\<lparr>rx_ls := rx_ls a + 1\<rparr>) (blocks @ [b])"
  using assms by (simp_all add: output_ok_def numbered_next numbered_other head_line_def)

text \<open>What one invocation and what all invocations for a frame do.\<close>

definition call_effect :: "stats_app \<Rightarrow> stats_app \<times> string list list \<Rightarrow> bool" where
  "call_effect a r \<longleftrightarrow> link_stats_req_type (fst r) = link_stats_req_type a
     \<and> (\<forall>blocks. output_ok a blocks \<longrightarrow> output_ok (fst r) (blocks @ snd r))
     \<and> (labelled ''transmit_link_stats_'' (snd r) \<noteq> [] \<longrightarrow> link_stats_req_type a = LINK_STATS_REQ_TYPE_TRANSMIT)
     \<and> (labelled ''receive_link_stats_'' (snd r) \<noteq> [] \<longrightarrow> link_stats_req_type a = LINK_STATS_REQ_TYPE_RECEIVE)"

lemma call_effect_nothing: "call_effect a (a, [])"
  by (simp add: call_effect_def)

lemma nw_stats_effect:
  "call_effect a (fst (nw_stats_callback time osa stats a), [snd (nw_stats_callback time osa stats a)])"
  by (simp add: call_effect_def nw_stats_callback_def output_ok_next) (simp add: labelled_def head_line_def)

lemma link_stats_effect:
  assumes "len = of_nat (length payload)" "length payload \<le> 1479"
  shows "ensures False (call_effect a) (link_stats_callback time osa data payload len a)"
proof -
  have less: "len < of_nat k \<longleftrightarrow> length payload < k" if "k < 2 ^ 64" for k
    using assms that by (simp add: word_less_nat_alt unat_of_nat take_bit_nat_eq_self)
  have transmit: "\<exists>bs. rd payload 0 39 = Some bs" if "\<not> len < 39"
    using that less [of 39] by (simp add: rd_ok)
  have receive: "\<exists>bs. rd payload 0 34 = Some bs" if "\<not> len < 34"
    using that less [of 34] by (simp add: rd_ok)
  have "call_effect a (a\<lparr>tx_ls := tx_ls a + 1\<rparr>, [head_line ''transmit_link_stats_'' (tx_ls a) # lines])"
    if "link_stats_req_type a = LINK_STATS_REQ_TYPE_TRANSMIT" for lines
    using that by (simp add: call_effect_def output_ok_next) (simp add: labelled_def head_line_def)
  moreover have "call_effect a (a\<lparr>rx_ls := rx_ls a + 1\<rparr>, [head_line ''receive_link_stats_'' (rx_ls a) # lines])"
    if "link_stats_req_type a = LINK_STATS_REQ_TYPE_RECEIVE" for lines
    using that by (simp add: call_effect_def output_ok_next) (simp add: labelled_def head_line_def)
  ultimately show ?thesis
    using transmit receive
    by (auto simp: link_stats_callback_def ensures_def call_effect_nothing sizeof_defs Let_def)
qed


lemma call_effect_then:
  assumes "call_effect a (b, xs)" "call_effect b (c, ys)"
  shows "call_effect a (c, xs @ ys)"
  using assms by (simp add: call_effect_def) (metis append.assoc)

definition stats_call_ok :: "(stats_cb, unit) cb_call \<Rightarrow> bool" where
  "stats_call_ok c \<longleftrightarrow> (case c of
       Nw_stats_call f osa r usr \<Rightarrow> f = Nw_stats_cb
     | Link_stats_call f osa h p n usr \<Rightarrow>
         f = Link_stats_cb \<and> usr = Some () \<and> n = of_nat (length p) \<and> length p \<le> 1479
     | _ \<Rightarrow> False)"

lemma stats_call_effect:
  assumes "stats_call_ok c"
  shows "ensures False (call_effect a) (stats_call time c a)"
proof (cases c)
  case (Nw_stats_call f osa r usr)
  then show ?thesis
    using assms nw_stats_effect [of a time osa r] by (simp add: stats_call_ok_def ensures_def split_def Let_def)
next
  case (Link_stats_call f osa h p n usr)
  then show ?thesis
    using assms link_stats_effect [of n p a time osa h] by (simp add: stats_call_ok_def)
qed (use assms in \<open>simp_all add: stats_call_ok_def\<close>)

interpretation stats_callbacks: callbacks "\<lambda>k. stats_call (get_time (clock k))" stats_call_ok call_effect
  for clock
  by unfold_locales (auto intro: call_effect_nothing call_effect_then stats_call_effect)

lemma registered_stats_calls:
  assumes "stats_ieee_ctx junk = Some ctx" "call_registered ctx osa c"
    and "\<forall>f osa' h p n d. c = Link_stats_call f osa' h p n d \<longrightarrow> length p \<le> 1479"
  shows "stats_call_ok c"
  using assms stats_ctx [of junk] by (cases c) (auto simp: stats_call_ok_def)

lemma stats_on_readable_effect: "ensures False (call_effect a) (stats_on_readable clock junk received a)"
proof -
  obtain ctx where ctx: "stats_ieee_ctx junk = Some ctx"
    using stats_ctx by blast
  have "ensures False (call_effect a)
      (and_then (handle_data (Some ctx) received) (\<lambda>calls. run_calls (\<lambda>k. stats_call (get_time (clock k))) calls a))"
  proof (rule ensures_and_then [OF handle_data_ensures], rule stats_callbacks.run_calls_effect)
    fix calls
    assume "\<exists>osa. length osa = 6 \<and> (\<forall>c\<in>set calls. call_registered ctx osa c)
      \<and> (\<forall>osa' f h p n d. Link_stats_call f osa' h p n d \<in> set calls \<longrightarrow> length p \<le> 1479)"
    then show "\<forall>c\<in>set calls. stats_call_ok c"
      using registered_stats_calls [OF ctx] by metis
  qed
  then show ?thesis
    by (simp add: stats_on_readable_def ctx)
qed


section \<open>Properties of the running program\<close>

text \<open>
  Receiving is safe. Whatever frame arrives and whatever \<open>link_stats_req_type\<close> holds, also before it is
  initialised, the event thread of \<^verbatim>\<open>hpav-stats\<close> handles it without undefined behaviour, from \<open>read\<close> to the
  last printed line; it does not change \<open>link_stats_req_type\<close>, and it prints link statistics as transmit
  (receive) statistics only while that variable is TRANSMIT (RECEIVE).
\<close>
theorem stats_receive_safe:
  "ensures False (\<lambda>(a', blocks). link_stats_req_type a' = link_stats_req_type a
      \<and> (labelled ''transmit_link_stats_'' blocks = [] \<or> link_stats_req_type a = LINK_STATS_REQ_TYPE_TRANSMIT)
      \<and> (labelled ''receive_link_stats_'' blocks = [] \<or> link_stats_req_type a = LINK_STATS_REQ_TYPE_RECEIVE))
    (stats_on_readable clock junk received a)"
  using stats_on_readable_effect [of a clock junk received]
  by (auto simp: ensures_def call_effect_def split: outcome.splits)

text \<open>
  C11: An invariant of \<^verbatim>\<open>hpav-stats\<close> over every interleaving of \<open>main\<close> with the event thread: the blocks of each kind
  are numbered 0, 1, 2, ... in the order they are printed, the static counters are the numbers of printed
  blocks, and the frames on the wire are a prefix of those that \<open>main\<close> has to send, whatever is received.
\<close>
theorem stats_run_invariant:
  assumes "stats_reachable (stats_start req_type acts) r"
  shows "output_ok (app r) (printed r)
    \<and> map snd (sent_with req_type acts) = sent r @ map snd (sent_with (link_stats_req_type (app r)) (todo r))"
  using assms
proof (induction rule: stats_reachable.induct)
  case start
  then show ?case
    by (simp add: stats_start_def output_ok_def numbered_def)
next
  case (step r r')
  from step.hyps(2) show ?case
  proof (cases rule: stats_step.cases)
    case (readable clock junk received a blocks)
    then show ?thesis
      using step.IH ensuresD [OF stats_on_readable_effect readable(2)] by (simp add: call_effect_def)
  qed (use step.IH in \<open>simp_all add: output_ok_def\<close>)
qed

theorem stats_run_invariant_witness:
  "\<exists>r. stats_reachable (stats_start 0 [Assign 1, Send (Write_op 4 [1, 2, 3]), Usleep 5]) r
    \<and> sent r = [[1, 2, 3]] \<and> link_stats_req_type (app r) = 1 \<and> output_ok (app r) (printed r)"
proof -
  let ?r0 = "stats_start 0 [Assign 1, Send (Write_op 4 [1, 2, 3]), Usleep 5]"
  let ?r1 = "?r0\<lparr>todo := [Send (Write_op 4 [1, 2, 3]), Usleep 5], app := (app ?r0)\<lparr>link_stats_req_type := 1\<rparr>\<rparr>"
  let ?r2 = "?r1\<lparr>todo := [Usleep 5], sent := sent ?r1 @ [wire_bytes (Write_op 4 [1, 2, 3])]\<rparr>"
  have "stats_reachable ?r0 ?r1"
    by (rule stats_reachable.step [OF stats_reachable.start], rule main_assign) (simp add: stats_start_def)
  then have r2: "stats_reachable ?r0 ?r2"
    by (rule stats_reachable.step, intro main_send) simp
  show ?thesis
    using r2 stats_run_invariant [OF r2] by (intro exI [of _ ?r2]) (simp add: stats_start_def)
qed

end
