(* ===== verification/Hpav_Stats_Replies.thy ===== *)
theory Hpav_Stats_Replies
  imports Hpav_Stats
begin

text \<open>
  From a confirm message on the wire to the lines that \<^verbatim>\<open>hpav-stats\<close> prints: the bytes of the frame, the
  dispatch, the callback and the text together.
\<close>

lemma link_reply_handled:
  assumes "length dst = 6" "length src = 6" "34 \<le> length rest" "length rest \<le> 1479"
  shows "stats_on_readable clock junk
      (Some (frame_of_message dst src mmv 0x604d (link_stats_confirm_head_bytes h @ rest))) a =
    link_stats_callback (get_time (clock 0)) src h (rest @ replicate (39 - length rest) 0)
      (of_nat (length (rest @ replicate (39 - length rest) 0))) a"
proof -
  obtain ctx where ctx: "stats_ieee_ctx junk = Some ctx" "cm_link_stats_confirm_stats_cb ctx = Some Link_stats_cb"
      "cm_link_stats_confirm_stats_cb_data ctx = Some ()"
    using stats_ctx by blast
  let ?body = "link_stats_confirm_head_bytes h @ rest"
  let ?frame = "frame_of_message dst src mmv 0x604d ?body"
  have head: "length (link_stats_confirm_head_bytes h) = 2"
    by (simp add: link_stats_confirm_head_bytes_def)
  have dec: "link_stats_confirm_head_of (link_stats_confirm_head_bytes h) = h"
    by (rule lsh.dec_enc) (simp add: wf_link_stats_confirm_head_def)
  have msg: "received_message ?frame = Some ?frame"
    using assms head by (simp add: received_message_def length_frame_of_message)
  have "fst (spec_handle_message ctx ?frame) = [Link_stats_call Link_stats_cb src h (rest @ replicate (39 - length rest) 0)
      (of_nat (length (rest @ replicate (39 - length rest) 0))) (Some ())]"
    using sent_frame [OF assms(1,2)] assms(3) head
    by (simp add: spec_handle_message_def spec_link_stats_def calls_of_def sizeof_defs ctx dec)
  then show ?thesis
    by (cases "link_stats_callback (get_time (clock 0)) src h (rest @ replicate (39 - length rest) 0)
          (of_nat (length (rest @ replicate (39 - length rest) 0))) a")
      (auto simp: stats_on_readable_def ctx(1) handle_data_eq msg simp del: of_nat_add of_nat_diff length_append)
qed

definition counter_line :: "string \<times> nat \<Rightarrow> string" where
  "counter_line c = ''  '' @ fst c @ '': '' @ print_dec (snd c)"

definition transmit_counters :: "link_stats_transmit_confirm \<Rightarrow> (string \<times> nat) list" where
  "transmit_counters c = [(''beacon-period-cnt'', unat (lst_beacon_period_cnt c)),
     (''tx-num-msduds'', unat (lst_tx_num_msduds c)), (''tx-octets'', unat (lst_tx_octets c)),
     (''tx-num-segs'', unat (lst_tx_num_segs c)), (''tx-num-seg-suc'', unat (lst_tx_num_seg_suc c)),
     (''tx-num-seg-dropped'', unat (lst_tx_num_seg_dropped c)), (''tx-num-pbs'', unat (lst_tx_num_pbs c)),
     (''tx-num-mpdus'', unat (lst_tx_num_mpdus c)), (''tx-num-bursts'', unat (lst_tx_num_bursts c)),
     (''tx-num-sacks'', unat (lst_tx_num_sacks c)), (''num-lat-bins'', unat (lst_num_lat_bins c))]"

definition receive_counters :: "link_stats_receive_confirm \<Rightarrow> (string \<times> nat) list" where
  "receive_counters c = [(''beacon-period-cnt'', unat (lrc_beacon_period_cnt c)),
     (''rx-num-msduds'', unat (lrc_rx_num_msduds c)), (''rx-octets'', unat (lrc_rx_octets c)),
     (''rx-num-seg-suc'', unat (lrc_rx_num_seg_suc c)), (''rx-num-seg-missed'', unat (lrc_rx_num_seg_missed c)),
     (''rx-num-pbs'', unat (lrc_rx_num_pbs c)), (''rx-num-bursts'', unat (lrc_rx_num_bursts c)),
     (''rx-num-mpdus'', unat (lrc_rx_num_mpdus c)), (''num-icv-fails'', unat (lrc_num_icv_fails c))]"

lemma u64_less: "n < 2 ^ 64 \<Longrightarrow> k < 2 ^ 64 \<Longrightarrow> (of_nat n :: u64) < of_nat k \<longleftrightarrow> n < k"
  by (simp add: word_less_nat_alt unat_of_nat take_bit_nat_eq_self)

text \<open>
  C7: From the wire to the output: when a station answers a transmit link (receive link) request with a
  successful confirm message while \<open>link_stats_req_type\<close> is TRANSMIT (RECEIVE), \<^verbatim>\<open>hpav-stats\<close> prints one block
  under the next number, which names the sender, shows the request identifier of the message as link
  identifier, and lists every counter of the message with its value in decimal, in the order of the structure.
\<close>
theorem link_replies_are_printed:
  assumes "length dst = 6" and "length src = 6" and "lsh_rsp_type h = 0" and "length extra \<le> 1440"
  shows "(link_stats_req_type a = LINK_STATS_REQ_TYPE_TRANSMIT \<longrightarrow>
      stats_on_readable clock junk (Some (frame_of_message dst src mmv 0x604d
          (link_stats_confirm_head_bytes h @ link_stats_transmit_confirm_bytes c @ extra))) a
        = Continue (a\<lparr>tx_ls := tx_ls a + 1\<rparr>, [[head_line ''transmit_link_stats_'' (tx_ls a),
          counter_line (''ts'', unat (get_time (clock 0))), address_line ''osa'' src, hex_line ''req-id'' (lsh_req_id h),
          hex_line ''lid'' (lsh_req_id h), hex_line ''rsp-type'' 0] @ map counter_line (transmit_counters c)]))
    \<and> (link_stats_req_type a = LINK_STATS_REQ_TYPE_RECEIVE \<longrightarrow>
      stats_on_readable clock junk (Some (frame_of_message dst src mmv 0x604d
          (link_stats_confirm_head_bytes h @ link_stats_receive_confirm_bytes d @ extra))) a
        = Continue (a\<lparr>rx_ls := rx_ls a + 1\<rparr>, [[head_line ''receive_link_stats_'' (rx_ls a),
          counter_line (''ts'', unat (get_time (clock 0))), address_line ''osa'' src, hex_line ''req-id'' (lsh_req_id h),
          hex_line ''lid'' (lsh_req_id h), hex_line ''rsp-type'' 0] @ map counter_line (receive_counters d)]))"
proof -
  have len: "length (link_stats_transmit_confirm_bytes c) = 39" "length (link_stats_receive_confirm_bytes d) = 34"
    using lst.length_enc [of c] lrc.length_enc [of d]
    by (simp_all add: wf_link_stats_transmit_confirm_def wf_link_stats_receive_confirm_def sizeof_defs)
  have dec: "link_stats_transmit_confirm_of (link_stats_transmit_confirm_bytes c) = c"
      "link_stats_receive_confirm_of (link_stats_receive_confirm_bytes d) = d"
    by (rule lst.dec_enc, simp add: wf_link_stats_transmit_confirm_def)
      (rule lrc.dec_enc, simp add: wf_link_stats_receive_confirm_def)
  have types: "LINK_STATS_REQ_TYPE_RECEIVE \<noteq> LINK_STATS_REQ_TYPE_TRANSMIT"
    by (simp add: LINK_STATS_REQ_TYPE_RECEIVE_def LINK_STATS_REQ_TYPE_TRANSMIT_def)
  have read: "rd (bs @ rest) 0 n = Some bs" if "length bs = n" for bs rest n
    using that by (simp add: rd_ok)
  have long: "\<not> of_nat (length (bs @ rest)) < (of_nat n :: u64)" if "length bs = n" "n < 2 ^ 20" "length rest < 2 ^ 20" for bs rest :: bytes and n
    using that u64_less [of "length (bs @ rest)" n] by simp
  have tx: "link_stats_callback (get_time (clock 0)) src h (link_stats_transmit_confirm_bytes c @ rest)
        (of_nat (length (link_stats_transmit_confirm_bytes c @ rest))) a
      = Continue (a\<lparr>tx_ls := tx_ls a + 1\<rparr>, [[head_line ''transmit_link_stats_'' (tx_ls a),
          counter_line (''ts'', unat (get_time (clock 0))), address_line ''osa'' src, hex_line ''req-id'' (lsh_req_id h),
          hex_line ''lid'' (lsh_req_id h), hex_line ''rsp-type'' 0] @ map counter_line (transmit_counters c)])"
    if "link_stats_req_type a = LINK_STATS_REQ_TYPE_TRANSMIT" "length rest < 2 ^ 20" for rest
    using that assms(3) long [OF len(1) _ that(2)] read [OF len(1), of rest] len(1)
    by (simp add: link_stats_callback_def sizeof_defs dec transmit_counters_def counter_line_def number_line_def
        del: of_nat_add length_append)
  have rx: "link_stats_callback (get_time (clock 0)) src h (link_stats_receive_confirm_bytes d @ rest)
        (of_nat (length (link_stats_receive_confirm_bytes d @ rest))) a
      = Continue (a\<lparr>rx_ls := rx_ls a + 1\<rparr>, [[head_line ''receive_link_stats_'' (rx_ls a),
          counter_line (''ts'', unat (get_time (clock 0))), address_line ''osa'' src, hex_line ''req-id'' (lsh_req_id h),
          hex_line ''lid'' (lsh_req_id h), hex_line ''rsp-type'' 0] @ map counter_line (receive_counters d)])"
    if "link_stats_req_type a = LINK_STATS_REQ_TYPE_RECEIVE" "length rest < 2 ^ 20" for rest
    using that assms(3) types long [OF len(2) _ that(2)] read [OF len(2), of rest] len(2)
    by (simp add: link_stats_callback_def sizeof_defs dec receive_counters_def counter_line_def number_line_def
        del: of_nat_add length_append)
  show ?thesis
    using assms(4) len tx [of "extra @ replicate (39 - (39 + length extra)) 0"]
      rx [of "extra @ replicate (39 - (34 + length extra)) 0"]
    by (simp add: link_reply_handled [OF assms(1,2)] del: of_nat_add)
qed

definition sample_head :: link_stats_confirm_head where
  "sample_head = \<lparr>lsh_req_id = 3, lsh_rsp_type = 0\<rparr>"

definition sample_transmit :: link_stats_transmit_confirm where
  "sample_transmit = link_stats_transmit_confirm_of (replicate 39 1)"

theorem link_replies_are_printed_witness:
  "\<exists>ls. stats_on_readable (\<lambda>_. 100) zero_ctx (Some (frame_of_message sample_dst sample_src 1 0x604d
      (link_stats_confirm_head_bytes sample_head @ link_stats_transmit_confirm_bytes sample_transmit @ [])))
      \<lparr>link_stats_req_type = 0, tx_ls = 7, rx_ls = 0, nw_cnt = 0\<rparr>
    = Continue (\<lparr>link_stats_req_type = 0, tx_ls = 8, rx_ls = 0, nw_cnt = 0\<rparr>, [ls])
    \<and> ls ! 4 = hex_line ''lid'' 3 \<and> drop 6 ls = map counter_line (transmit_counters sample_transmit)"
  using link_replies_are_printed [of sample_dst sample_src sample_head "[]"
      "\<lparr>link_stats_req_type = 0, tx_ls = 7, rx_ls = 0, nw_cnt = 0\<rparr>" "\<lambda>_. 100" zero_ctx 1 sample_transmit]
  by (simp add: sample_dst_def sample_src_def sample_head_def LINK_STATS_REQ_TYPE_TRANSMIT_def)

end
