(* ===== verification/Fair_Runs.thy ===== *)
theory Fair_Runs
  imports Interfaces "HOL-Library.Sublist"
begin

text \<open>
  Infinite runs of a step relation, and what it takes for a thread to get its work done in them. A thread has a
  queue of actions, which only its own steps shorten while it is not empty; the other threads may take any
  number of steps in between. The programs interpret the locale on their threads.
\<close>

section \<open>Runs\<close>

text \<open>A run may stand still, so that finite executions are runs as well.\<close>

definition run_of :: "('s \<Rightarrow> 's \<Rightarrow> bool) \<Rightarrow> (nat \<Rightarrow> 's) \<Rightarrow> bool" where
  "run_of step \<sigma> \<longleftrightarrow> (\<forall>i. step (\<sigma> i) (\<sigma> (Suc i)) \<or> \<sigma> (Suc i) = \<sigma> i)"

text \<open>The thread with this queue is never put off for ever.\<close>

definition fair :: "('s \<Rightarrow> 'a list) \<Rightarrow> (nat \<Rightarrow> 's) \<Rightarrow> bool" where
  "fair queue \<sigma> \<longleftrightarrow> (\<forall>i. queue (\<sigma> i) \<noteq> [] \<longrightarrow> (\<exists>j\<ge>i. queue (\<sigma> (Suc j)) \<noteq> queue (\<sigma> j)))"

lemma run_step: "run_of step \<sigma> \<Longrightarrow> \<sigma> (Suc i) \<noteq> \<sigma> i \<Longrightarrow> step (\<sigma> i) (\<sigma> (Suc i))"
  unfolding run_of_def by blast

lemma fairE:
  assumes "fair queue \<sigma>" "queue (\<sigma> i) \<noteq> []"
  obtains j where "i \<le> j" "queue (\<sigma> (Suc j)) \<noteq> queue (\<sigma> i)" "\<forall>k. i \<le> k \<longrightarrow> k \<le> j \<longrightarrow> queue (\<sigma> k) = queue (\<sigma> i)"
proof -
  let ?change = "\<lambda>j. i \<le> j \<and> queue (\<sigma> (Suc j)) \<noteq> queue (\<sigma> j)"
  have ex: "?change (LEAST j. ?change j)"
    using assms LeastI_ex [of ?change] by (auto simp: fair_def)
  have same: "queue (\<sigma> k) = queue (\<sigma> i)" if "i \<le> k" "k \<le> (LEAST j. ?change j)" for k
    using that
  proof (induction k rule: dec_induct)
    case (step k)
    then show ?case using not_less_Least [of k ?change] by auto
  qed simp
  show ?thesis
    using ex same [of "LEAST j. ?change j"] by (intro that [of "LEAST j. ?change j"]) (simp, simp, blast intro: same)
qed


section \<open>A thread that works off its queue\<close>

text \<open>
  \<open>effect acts s t\<close> is what the thread has achieved in \<open>t\<close> when it had the actions \<open>acts\<close> before it in \<open>s\<close>. A
  step of another thread leaves the queue alone; one of the thread itself removes the first action. Either
  way, what is achieved from the new state on adds up to what is claimed from the old one.
\<close>

locale fair_thread =
  fixes step :: "'s \<Rightarrow> 's \<Rightarrow> bool"
    and queue :: "'s \<Rightarrow> 'a list"
    and effect :: "'a list \<Rightarrow> 's \<Rightarrow> 's \<Rightarrow> bool"
  assumes empty: "effect [] s s"
    and queue_step: "step s s' \<Longrightarrow> queue s = a # as \<Longrightarrow> queue s' = queue s \<or> queue s' = as"
    and other_step: "step s s' \<Longrightarrow> queue s \<noteq> [] \<Longrightarrow> queue s' = queue s \<Longrightarrow> effect (queue s) s' t \<Longrightarrow> effect (queue s) s t"
    and own_step: "step s s' \<Longrightarrow> queue s = a # as \<Longrightarrow> queue s' = as \<Longrightarrow> effect as s' t \<Longrightarrow> effect (a # as) s t"
begin

lemma stays:
  assumes "run_of step \<sigma>" "queue (\<sigma> i) \<noteq> []" "effect (queue (\<sigma> i)) (\<sigma> j) t"
    and "i \<le> j" "\<forall>k. i \<le> k \<longrightarrow> k \<le> j \<longrightarrow> queue (\<sigma> k) = queue (\<sigma> i)"
  shows "effect (queue (\<sigma> i)) (\<sigma> i) t"
  using assms(4,3,5)
proof (induction j rule: dec_induct)
  case (step j)
  have same: "queue (\<sigma> (Suc j)) = queue (\<sigma> i)" "queue (\<sigma> j) = queue (\<sigma> i)"
    by (rule step.prems(2) [rule_format]; use step.hyps(1) in linarith)+
  have "effect (queue (\<sigma> i)) (\<sigma> j) t"
  proof (cases "\<sigma> (Suc j) = \<sigma> j")
    case True
    then show ?thesis using step.prems(1) by simp
  next
    case False
    from run_step [OF assms(1) this] have "step (\<sigma> j) (\<sigma> (Suc j))" .
    from other_step [OF this, of t] show ?thesis using assms(2) same step.prems(1) by simp
  qed
  then show ?case
  proof (rule step.IH)
    show "\<forall>k. i \<le> k \<longrightarrow> k \<le> j \<longrightarrow> queue (\<sigma> k) = queue (\<sigma> i)"
      using step.prems(2) by (meson le_SucI)
  qed
qed

theorem works_off:
  assumes "run_of step \<sigma>" "fair queue \<sigma>"
  shows "\<exists>j\<ge>i. queue (\<sigma> j) = [] \<and> effect (queue (\<sigma> i)) (\<sigma> i) (\<sigma> j)"
proof (induction "queue (\<sigma> i)" arbitrary: i)
  case Nil
  then show ?case using empty by (metis order_refl)
next
  case (Cons a as)
  have qi: "queue (\<sigma> i) = a # as" using Cons.hyps(2) by (rule sym)
  have work: "queue (\<sigma> i) \<noteq> []" unfolding qi by simp
  obtain j where j: "i \<le> j" "queue (\<sigma> (Suc j)) \<noteq> queue (\<sigma> i)"
      "\<forall>k. i \<le> k \<longrightarrow> k \<le> j \<longrightarrow> queue (\<sigma> k) = queue (\<sigma> i)"
    using fairE [OF assms(2) work] by blast
  have qj: "queue (\<sigma> j) = a # as"
    using j(3) [rule_format, OF j(1) order_refl] unfolding qi .
  have "\<sigma> (Suc j) \<noteq> \<sigma> j"
    using j(2) unfolding qi by (metis qj)
  from run_step [OF assms(1) this] have own: "step (\<sigma> j) (\<sigma> (Suc j))" .
  have rest: "queue (\<sigma> (Suc j)) = as"
    using queue_step [OF own qj] j(2) unfolding qi qj by blast
  obtain k where k: "Suc j \<le> k" "queue (\<sigma> k) = []" "effect as (\<sigma> (Suc j)) (\<sigma> k)"
    using Cons.hyps(1) [OF rest [symmetric]] unfolding rest by blast
  have "effect (queue (\<sigma> i)) (\<sigma> j) (\<sigma> k)"
    unfolding qi by (rule own_step [OF own qj rest k(3)])
  from stays [OF assms(1) work this j(1,3)]
  have "effect (queue (\<sigma> i)) (\<sigma> i) (\<sigma> k)" .
  moreover have "i \<le> k" using j(1) k(1) by linarith
  ultimately show ?case using k(2) by blast
qed

end

end
