(* ===== verification/Event_List.thy ===== *)
theory Event_List
  imports C_Prelude
begin

text \<open>
  The registry of \<^verbatim>\<open>src/events.c\<close> as it is in memory: the \<open>struct events_event\<close> blocks that \<open>calloc\<close> has handed out
  and not yet taken back, linked by the \<open>LIST_*\<close> macros of \<^verbatim>\<open>sys/queue.h\<close>. A block's \<open>le_prev\<close> is the
  address of the pointer that points to the block, which is the list head's or the \<open>le_next\<close> of another
  block. Accessing a block that is not allocated, or storing through a null pointer, is a fault.

  \<open>chain\<close> relates the links to the list of the addresses; the lemmas show that insertion and removal by
  pointer surgery are insertion and removal in that list.
\<close>

section \<open>Blocks\<close>

type_synonym addr = nat

datatype link = Head_link | Next_link addr

text \<open>\<open>EV_TIMEOUT\<close>, \<open>EV_READ\<close> and \<open>EV_PERSIST\<close> of libevent, and the three proxies.\<close>

definition EV_TIMEOUT :: u16 where "EV_TIMEOUT = 0x01"
definition EV_READ :: u16 where "EV_READ = 0x02"
definition EV_PERSIST :: u16 where "EV_PERSIST = 0x10"

datatype event_proxy = Single_shot_proxy | Continuous_shot_proxy | Reader_proxy

record events_event =
  ev :: "addr option"
  cb :: "nat option"
  data_cb :: "nat option"
  usr_data :: "nat option"
  ev_id :: u64
  le_next :: "addr option"
  le_prev :: "link option"

definition zero_event :: events_event where
  "zero_event = \<lparr>ev = None, cb = None, data_cb = None, usr_data = None, ev_id = 0,
     le_next = None, le_prev = None\<rparr>"

type_synonym event_blocks = "addr \<rightharpoonup> events_event"

record event_list =
  lh_first :: "addr option"
  blocks :: event_blocks

definition block_at :: "'z event_list_scheme \<Rightarrow> addr \<Rightarrow> events_event outcome" where
  "block_at s a = defined (blocks s a)"

definition set_block :: "(events_event \<Rightarrow> events_event) \<Rightarrow> addr \<Rightarrow> 'z event_list_scheme \<Rightarrow> 'z event_list_scheme outcome" where
  "set_block f a s = and_then (block_at s a) (\<lambda>b. Continue (s\<lparr>blocks := (blocks s)(a \<mapsto> f b)\<rparr>))"

text \<open>\<open>*link = p\<close>\<close>

definition store_link :: "link option \<Rightarrow> addr option \<Rightarrow> 'z event_list_scheme \<Rightarrow> 'z event_list_scheme outcome" where
  "store_link l p s =
    (case l of None \<Rightarrow> Fault
     | Some Head_link \<Rightarrow> Continue (s\<lparr>lh_first := p\<rparr>)
     | Some (Next_link a) \<Rightarrow> set_block (le_next_update (\<lambda>_. p)) a s)"

text \<open>\<open>LIST_INSERT_HEAD(&ctx->events_events, a, neighbors)\<close>\<close>

definition list_insert_head :: "addr \<Rightarrow> 'z event_list_scheme \<Rightarrow> 'z event_list_scheme outcome" where
  "list_insert_head a s =
     and_then (set_block (le_next_update (\<lambda>_. lh_first s)) a s) (\<lambda>s.
     and_then (case lh_first s of None \<Rightarrow> Continue s
               | Some b \<Rightarrow> set_block (le_prev_update (\<lambda>_. Some (Next_link a))) b s) (\<lambda>s.
     set_block (le_prev_update (\<lambda>_. Some Head_link)) a (s\<lparr>lh_first := Some a\<rparr>)))"

text \<open>\<open>LIST_REMOVE(a, neighbors)\<close>\<close>

definition list_remove :: "addr \<Rightarrow> 'z event_list_scheme \<Rightarrow> 'z event_list_scheme outcome" where
  "list_remove a s =
     and_then (block_at s a) (\<lambda>b.
     and_then (case le_next b of None \<Rightarrow> Continue s
               | Some c \<Rightarrow> set_block (le_prev_update (\<lambda>_. le_prev b)) c s) (\<lambda>s.
     store_link (le_prev b) (le_next b) s))"

definition free_block :: "addr \<Rightarrow> 'z event_list_scheme \<Rightarrow> 'z event_list_scheme outcome" where
  "free_block a s = and_then (block_at s a) (\<lambda>_. Continue (s\<lparr>blocks := (blocks s)(a := None)\<rparr>))"


section \<open>The list of a chain\<close>

fun chain :: "event_blocks \<Rightarrow> link \<Rightarrow> addr option \<Rightarrow> addr list \<Rightarrow> bool" where
  "chain h l p [] \<longleftrightarrow> p = None"
| "chain h l p (a # as) \<longleftrightarrow>
     p = Some a \<and> (\<exists>b. h a = Some b \<and> le_prev b = Some l \<and> chain h (Next_link a) (le_next b) as)"

definition linked :: "'z event_list_scheme \<Rightarrow> addr list \<Rightarrow> bool" where
  "linked s as \<longleftrightarrow> chain (blocks s) Head_link (lh_first s) as \<and> distinct as"

text \<open>What the program stores in a block, without the links.\<close>

definition payload :: "events_event \<Rightarrow> addr option \<times> nat option \<times> nat option \<times> nat option \<times> u64" where
  "payload b = (ev b, cb b, data_cb b, usr_data b, ev_id b)"

definition payloads :: "'z event_list_scheme \<Rightarrow> addr \<rightharpoonup> addr option \<times> nat option \<times> nat option \<times> nat option \<times> u64" where
  "payloads s = map_option payload \<circ> blocks s"

lemma payload_links [simp]:
  "payload (le_next_update f b) = payload b" "payload (le_prev_update g b) = payload b"
  by (simp_all add: payload_def)

lemma chain_blocks: "chain h l p as \<Longrightarrow> a \<in> set as \<Longrightarrow> \<exists>b. h a = Some b"
  by (induction as arbitrary: l p) auto

lemma chain_other: "a \<notin> set as \<Longrightarrow> chain (h(a := x)) l p as \<longleftrightarrow> chain h l p as"
  by (induction as arbitrary: l p) auto

lemma chain_relink:
  assumes "chain h l p as" "distinct as" "p = Some c" "h c = Some b"
  shows "chain (h(c \<mapsto> b\<lparr>le_prev := Some l'\<rparr>)) l' p as"
  using assms by (cases as) (auto simp: chain_other)

lemma chain_head: "chain h l p as \<Longrightarrow> p = (case as of [] \<Rightarrow> None | a # _ \<Rightarrow> Some a)"
  by (cases as) auto

lemma chain_unique: "chain h l p as \<Longrightarrow> chain h l' p bs \<Longrightarrow> as = bs"
proof (induction as arbitrary: l l' p bs)
  case Nil
  then show ?case by (cases bs) auto
next
  case (Cons a as)
  then show ?case by (cases bs) auto
qed

lemma list_insert_head_linked:
  assumes "linked s as" "blocks s a = Some b" "a \<notin> set as"
  shows "\<exists>s'. list_insert_head a s = Continue s' \<and> linked s' (a # as) \<and> payloads s' = payloads s
    \<and> event_list.more s' = event_list.more s"
proof (cases "lh_first s")
  case None
  then show ?thesis
    using assms by (cases as) (auto simp: list_insert_head_def set_block_def block_at_def linked_def
        payloads_def fun_eq_iff)
next
  case (Some c)
  then obtain cs bc where c: "as = c # cs" "blocks s c = Some bc" "a \<noteq> c"
    using assms by (cases as) (auto simp: linked_def)
  have "chain ((blocks s)(a \<mapsto> b', c \<mapsto> bc\<lparr>le_prev := Some (Next_link a)\<rparr>)) (Next_link a) (Some c) as" for b'
    using assms c Some by (auto simp: linked_def fun_upd_twist chain_other)
  then show ?thesis
    using assms c Some by (auto simp: list_insert_head_def set_block_def block_at_def linked_def
        payloads_def fun_eq_iff fun_upd_twist chain_other)
qed


text \<open>A part of a chain, up to the link \<open>l'\<close> with the pointer \<open>q\<close> in it.\<close>

fun segment :: "event_blocks \<Rightarrow> link \<Rightarrow> addr option \<Rightarrow> addr list \<Rightarrow> link \<Rightarrow> addr option \<Rightarrow> bool" where
  "segment h l p [] l' q \<longleftrightarrow> l' = l \<and> q = p"
| "segment h l p (a # as) l' q \<longleftrightarrow>
     p = Some a \<and> (\<exists>b. h a = Some b \<and> le_prev b = Some l \<and> segment h (Next_link a) (le_next b) as l' q)"

lemma chain_append: "chain h l p (as @ bs) \<longleftrightarrow> (\<exists>l' q. segment h l p as l' q \<and> chain h l' q bs)"
  by (induction as arbitrary: l p) auto

lemma segment_other: "a \<notin> set as \<Longrightarrow> segment (h(a := x)) l p as l' q \<longleftrightarrow> segment h l p as l' q"
  by (induction as arbitrary: l p) auto

lemma segment_link: "segment h l p as l' q \<Longrightarrow> l' = (if as = [] then l else Next_link (last as))"
  by (induction as arbitrary: l p) (auto split: if_splits)

text \<open>Storing through the link at the end of a segment changes the pointer there.\<close>

lemma segment_store:
  assumes "segment h l p as (Next_link z) q" "as \<noteq> []" "distinct as" "h z = Some bz"
  shows "segment (h(z \<mapsto> bz\<lparr>le_next := n\<rparr>)) l p as (Next_link z) n"
  using assms
proof (induction as arbitrary: l p)
  case Nil
  then show ?case by simp
next
  case (Cons a as)
  show ?case
  proof (cases "as = []")
    case True
    then show ?thesis using Cons.prems by auto
  next
    case False
    have "z \<in> set as"
      using segment_link [OF Cons.prems(1)] False by simp
    then show ?thesis
      using Cons False by auto
  qed
qed

definition relink :: "link option \<Rightarrow> addr option \<Rightarrow> event_blocks \<Rightarrow> event_blocks" where
  "relink l n h = (case n of None \<Rightarrow> h | Some c \<Rightarrow> h(c := map_option (le_prev_update (\<lambda>_. l)) (h c)))"

lemma chain_relinked:
  "chain h l n bs \<Longrightarrow> distinct bs \<Longrightarrow> chain (relink (Some l') n h) l' n bs"
  by (cases bs) (auto simp: relink_def chain_other)

lemma relink_segment:
  "chain h l' n bs \<Longrightarrow> set as \<inter> set bs = {} \<Longrightarrow> segment (relink l'' n h) l p as l1 q \<longleftrightarrow> segment h l p as l1 q"
  by (cases bs) (auto simp: relink_def segment_other)

lemma relink_at: "chain h l' n bs \<Longrightarrow> z \<notin> set bs \<Longrightarrow> relink l'' n h z = h z"
  by (cases bs) (auto simp: relink_def)

lemma list_remove_linked:
  assumes "linked s (as @ a # bs)"
  shows "\<exists>s'. list_remove a s = Continue s' \<and> linked s' (as @ bs) \<and> payloads s' = payloads s
    \<and> event_list.more s' = event_list.more s"
proof -
  let ?h = "blocks s"
  obtain l' b where seg: "segment ?h Head_link (lh_first s) as l' (Some a)"
    and b: "?h a = Some b" "le_prev b = Some l'" and bs: "chain ?h (Next_link a) (le_next b) bs"
    using assms by (auto simp: linked_def chain_append)
  have dist: "distinct as" "distinct bs" "set as \<inter> set bs = {}" "a \<notin> set as" "a \<notin> set bs"
    using assms by (auto simp: linked_def)
  define h1 where "h1 = relink (Some l') (le_next b) ?h"
  have relinked: "(case le_next b of None \<Rightarrow> Continue s
      | Some c \<Rightarrow> set_block (le_prev_update (\<lambda>_. le_prev b)) c s) = Continue (s\<lparr>blocks := h1\<rparr>)"
    using bs b(2) by (cases bs) (auto simp: h1_def relink_def set_block_def block_at_def)
  have bs1: "chain h1 l' (le_next b) bs"
    unfolding h1_def using chain_relinked [OF bs dist(2)] .
  have same: "map_option payload (h1 x) = map_option payload (?h x)" for x
    by (cases "?h x") (auto simp: h1_def relink_def split: option.splits)
  show ?thesis
  proof (cases "as = []")
    case True
    then have "l' = Head_link" using seg by simp
    then show ?thesis
      using True b relinked bs1 dist same
      by (auto simp: list_remove_def block_at_def store_link_def linked_def payloads_def fun_eq_iff)
  next
    case False
    define z where "z = last as"
    have z: "l' = Next_link z" "z \<in> set as" "z \<notin> set bs"
      using segment_link [OF seg] False dist(3) last_in_set [OF False]
      by (auto simp: z_def disjoint_iff)
    obtain bz where bz: "h1 z = Some bz"
      using chain_blocks [of ?h Head_link "lh_first s" "as @ a # bs" z] assms z
        relink_at [OF bs z(3)] by (auto simp: linked_def h1_def)
    have "segment h1 Head_link (lh_first s) as (Next_link z) (Some a)"
      using seg relink_segment [OF bs dist(3)] z by (simp add: h1_def)
    from segment_store [OF this False dist(1) bz]
    have "segment (h1(z \<mapsto> bz\<lparr>le_next := le_next b\<rparr>)) Head_link (lh_first s) as l' (le_next b)"
      using z by simp
    moreover have "chain (h1(z \<mapsto> bz\<lparr>le_next := le_next b\<rparr>)) l' (le_next b) bs"
      using bs1 z by (simp add: chain_other)
    ultimately have "chain (h1(z \<mapsto> bz\<lparr>le_next := le_next b\<rparr>)) Head_link (lh_first s) (as @ bs)"
      using chain_append by blast
    then show ?thesis
      using b relinked z bz dist same same [of z]
      by (auto simp: list_remove_def block_at_def store_link_def set_block_def linked_def payloads_def
          fun_eq_iff)
  qed
qed

text \<open>A block outside every list, as \<open>calloc\<close> leaves it, cannot be removed.\<close>

lemma list_remove_unlinked:
  assumes "blocks s a = Some b" "le_prev b = None" "le_next b = None"
  shows "list_remove a s = Fault"
  using assms by (simp add: list_remove_def block_at_def store_link_def)

lemma free_block_linked:
  assumes "linked s as" "a \<notin> set as" "blocks s a = Some b"
  shows "\<exists>s'. free_block a s = Continue s' \<and> linked s' as \<and> payloads s' = (payloads s)(a := None)
    \<and> event_list.more s' = event_list.more s"
  using assms by (auto simp: free_block_def block_at_def linked_def chain_other payloads_def fun_eq_iff)

end
