(* ===== verification/Events.thy ===== *)
theory Events
  imports Event_List
begin

text \<open>
  \<^verbatim>\<open>src/events.c\<close>: scheduling timers, adding readers, cancelling them, the proxies that libevent calls, and
  tearing the registry down. The state is the linked list of \<^theory_text>\<open>Event_List\<close>, the id counter, the mutex, and
  what the code has asked of libevent: its event structures with their descriptor, flags, proxy, argument
  and whether they have been added.

  libevent and \<open>calloc\<close> are not part of the program. Whether an allocation succeeds and which address it
  returns, and what \<open>event_add\<close> returns, are arguments of the operations; \<open>null_ok\<close> tells whether
  \<open>event_del\<close> and \<open>event_free\<close> put up with a null pointer. Using an event structure after \<open>event_free\<close>, or a
  block after \<open>free\<close>, is a fault; so is locking the (not recursive) mutex again in the same thread.

  The abstract registry is the list of the registered events with their ids; \<open>entry_at\<close> reads an entry off
  the memory, and each operation is shown to do on the memory what its specification does on the list.
\<close>

section \<open>The state\<close>

record lib_event =
  lib_fd :: int
  lib_flags :: u16
  lib_proxy :: event_proxy
  lib_arg :: addr
  lib_added :: bool

record events_ctx = event_list +
  id_cnt :: u64
  mtx_locked :: bool
  lib :: "addr \<rightharpoonup> lib_event"

definition EVENTS_CTX_INIT :: events_ctx where
  "EVENTS_CTX_INIT = \<lparr>lh_first = None, blocks = Map.empty, id_cnt = 0, mtx_locked = False, lib = Map.empty\<rparr>"

definition mutex_lock :: "events_ctx \<Rightarrow> events_ctx outcome" where
  "mutex_lock s = (if mtx_locked s then Fault else Continue (s\<lparr>mtx_locked := True\<rparr>))"

definition mutex_unlock :: "events_ctx \<Rightarrow> events_ctx outcome" where
  "mutex_unlock s = (if mtx_locked s then Continue (s\<lparr>mtx_locked := False\<rparr>) else Fault)"

definition event_new :: "addr option \<Rightarrow> int \<Rightarrow> u16 \<Rightarrow> event_proxy \<Rightarrow> addr \<Rightarrow> events_ctx \<Rightarrow> events_ctx" where
  "event_new res fd flags proxy arg s =
    (case res of None \<Rightarrow> s
     | Some e \<Rightarrow> s\<lparr>lib := (lib s)(e \<mapsto> \<lparr>lib_fd = fd, lib_flags = flags, lib_proxy = proxy, lib_arg = arg,
         lib_added = False\<rparr>)\<rparr>)"

definition on_lib_event :: "(lib_event \<Rightarrow> lib_event option) \<Rightarrow> bool \<Rightarrow> addr option \<Rightarrow> events_ctx \<Rightarrow> events_ctx outcome" where
  "on_lib_event f null_ok e s =
    (case e of None \<Rightarrow> if null_ok then Continue s else Fault
     | Some e \<Rightarrow> and_then (defined (lib s e)) (\<lambda>x. Continue (s\<lparr>lib := (lib s)(e := f x)\<rparr>)))"

definition event_add :: "int \<Rightarrow> addr option \<Rightarrow> events_ctx \<Rightarrow> events_ctx outcome" where
  "event_add rc e s = on_lib_event (\<lambda>x. Some (if rc = 0 then x\<lparr>lib_added := True\<rparr> else x)) False e s"

definition event_del :: "bool \<Rightarrow> addr option \<Rightarrow> events_ctx \<Rightarrow> events_ctx outcome" where
  "event_del null_ok e s = on_lib_event (\<lambda>x. Some (x\<lparr>lib_added := False\<rparr>)) null_ok e s"

definition event_free :: "bool \<Rightarrow> addr option \<Rightarrow> events_ctx \<Rightarrow> events_ctx outcome" where
  "event_free null_ok e s = on_lib_event (\<lambda>x. None) null_ok e s"


section \<open>The operations\<close>

text \<open>\<open>_destroy_events_event\<close>\<close>

definition destroy_events_event :: "bool \<Rightarrow> addr \<Rightarrow> events_ctx \<Rightarrow> events_ctx outcome" where
  "destroy_events_event null_ok a s =
     and_then (defined (blocks s a)) (\<lambda>evs_ev.
     and_then (event_del null_ok (ev evs_ev) s) (\<lambda>s.
     and_then (event_free null_ok (ev evs_ev) s) (\<lambda>s.
     and_then (mutex_lock s) (\<lambda>s.
     and_then (list_remove a s) (\<lambda>s.
     and_then (mutex_unlock s) (free_block a))))))"

text \<open>
  What the environment answers in one registration: the block from \<open>calloc\<close>, the structure from
  \<open>event_new\<close>, the return value of \<open>event_add\<close>.
\<close>

record events_env =
  new_block :: "addr option"
  new_event :: "addr option"
  add_rc :: int

text \<open>
  \<open>_events_schedule\<close>. The pointer \<open>id\<close> is given by whether it is not null; the result has the return code and
  the id stored through it. The id counter is read and advanced in one step, as by a single thread.
\<close>

definition events_schedule ::
  "bool \<Rightarrow> events_env \<Rightarrow> nat option \<Rightarrow> nat option \<Rightarrow> bool \<Rightarrow> bool \<Rightarrow> events_ctx
     \<Rightarrow> (events_ctx \<times> int \<times> u64 option) outcome" where
  "events_schedule null_ok env f usr idp persistent s =
    (let (proxy, events) = (if persistent then (Continuous_shot_proxy, EV_PERSIST) else (Single_shot_proxy, EV_TIMEOUT))
     in case new_block env of None \<Rightarrow> Continue (s, ENOMEM, None)
      | Some a \<Rightarrow>
          let evs_ev = zero_event\<lparr>cb := f, usr_data := usr, ev_id := id_cnt s\<rparr>;
              out = (if idp then Some (id_cnt s) else None);
              s = s\<lparr>id_cnt := id_cnt s + 1\<rparr>;
              s = event_new (new_event env) 0 events proxy a s;
              s = s\<lparr>blocks := (blocks s)(a \<mapsto> evs_ev\<lparr>ev := new_event env\<rparr>)\<rparr>
          in if new_event env = None then
               and_then (destroy_events_event null_ok a s) (\<lambda>s. Continue (s, EFAULT, out))
             else
               and_then (mutex_lock s) (\<lambda>s.
               and_then (list_insert_head a s) (\<lambda>s.
               and_then (event_add (add_rc env) (new_event env) s) (\<lambda>s.
                 if add_rc env \<noteq> 0 then
                   and_then (mutex_unlock s) (\<lambda>s.
                   and_then (destroy_events_event null_ok a s) (\<lambda>s. Continue (s, EINVAL, out)))
                 else
                   and_then (mutex_unlock s) (\<lambda>s. Continue (s, 0, out))))))"

text \<open>
  The public functions pass \<open>(\<dots>, tv, false, id)\<close> and \<open>(\<dots>, tv, id, true)\<close>: the single shot passes a null id
  pointer, and its own id pointer, converted to a truth value, as \<open>persistent\<close>.
\<close>

definition events_schedule_single_shot ::
  "bool \<Rightarrow> events_env \<Rightarrow> nat option \<Rightarrow> nat option \<Rightarrow> bool \<Rightarrow> events_ctx \<Rightarrow> (events_ctx \<times> int \<times> u64 option) outcome" where
  "events_schedule_single_shot null_ok env f usr idp s = events_schedule null_ok env f usr False idp s"

definition events_schedule_periodic ::
  "bool \<Rightarrow> events_env \<Rightarrow> nat option \<Rightarrow> nat option \<Rightarrow> bool \<Rightarrow> events_ctx \<Rightarrow> (events_ctx \<times> int \<times> u64 option) outcome" where
  "events_schedule_periodic null_ok env f usr idp s = events_schedule null_ok env f usr idp True s"

text \<open>\<open>events_add_reader\<close>, with its own copy of the registration.\<close>

definition events_add_reader ::
  "bool \<Rightarrow> events_env \<Rightarrow> int \<Rightarrow> nat option \<Rightarrow> nat option \<Rightarrow> bool \<Rightarrow> events_ctx
     \<Rightarrow> (events_ctx \<times> int \<times> u64 option) outcome" where
  "events_add_reader null_ok env fd f usr idp s =
    (case new_block env of None \<Rightarrow> Continue (s, ENOMEM, None)
     | Some a \<Rightarrow>
         let evs_ev = zero_event\<lparr>data_cb := f, usr_data := usr, ev_id := id_cnt s\<rparr>;
             out = (if idp then Some (id_cnt s) else None);
             s = s\<lparr>id_cnt := id_cnt s + 1\<rparr>;
             s = event_new (new_event env) fd (EV_READ OR EV_PERSIST) Reader_proxy a s;
             s = s\<lparr>blocks := (blocks s)(a \<mapsto> evs_ev\<lparr>ev := new_event env\<rparr>)\<rparr>
         in if new_event env = None then
              and_then (destroy_events_event null_ok a s) (\<lambda>s. Continue (s, EFAULT, out))
            else
              and_then (mutex_lock s) (\<lambda>s.
              and_then (list_insert_head a s) (\<lambda>s.
              and_then (event_add (add_rc env) (new_event env) s) (\<lambda>s.
                if add_rc env \<noteq> 0 then
                  and_then (mutex_unlock s) (\<lambda>s.
                  and_then (destroy_events_event null_ok a s) (\<lambda>s. Continue (s, EINVAL, out)))
                else
                  and_then (mutex_unlock s) (\<lambda>s. Continue (s, 0, out))))))"

text \<open>
  The search of \<open>events_cancel\<close> along the \<open>le_next\<close> pointers; it does not end on a cyclic list
  (\<^term>\<open>None\<close>).
\<close>

partial_function (option) find_event :: "event_blocks \<Rightarrow> u64 \<Rightarrow> addr option \<Rightarrow> addr option outcome option" where
  "find_event h idp p =
    (case p of None \<Rightarrow> Some (Continue None)
     | Some a \<Rightarrow> (case h a of None \<Rightarrow> Some Fault
         | Some b \<Rightarrow> if ev_id b = idp then Some (Continue (Some a)) else find_event h idp (le_next b)))"

declare find_event.simps [code]

definition events_cancel :: "bool \<Rightarrow> u64 \<Rightarrow> events_ctx \<Rightarrow> (events_ctx \<times> int) outcome option" where
  "events_cancel null_ok idp s =
    (case mutex_lock s of
       Continue s \<Rightarrow> do {
         found \<leftarrow> find_event (blocks s) idp (lh_first s);
         Some (and_then found (\<lambda>p.
           and_then (mutex_unlock s) (\<lambda>s.
           case p of None \<Rightarrow> Continue (s, EXIT_FAILURE)
           | Some a \<Rightarrow> and_then (destroy_events_event null_ok a s) (\<lambda>s. Continue (s, EXIT_SUCCESS)))))
       }
     | _ \<Rightarrow> Some Fault)"

text \<open>
  The proxies, called by libevent with the block as their argument. \<open>run\<close> is what the callback does to the
  registry; it gets the function, the descriptor for a reader, and the user data.
\<close>

type_synonym user_code = "nat \<Rightarrow> int option \<Rightarrow> nat option \<Rightarrow> events_ctx \<Rightarrow> events_ctx outcome"

definition event_single_shot_proxy :: "bool \<Rightarrow> user_code \<Rightarrow> addr \<Rightarrow> events_ctx \<Rightarrow> events_ctx outcome" where
  "event_single_shot_proxy null_ok run a s =
     and_then (defined (blocks s a)) (\<lambda>b.
     and_then (defined (cb b)) (\<lambda>f.
     and_then (run f None (usr_data b) s) (destroy_events_event null_ok a)))"

definition event_continuous_shot_proxy :: "user_code \<Rightarrow> addr \<Rightarrow> events_ctx \<Rightarrow> events_ctx outcome" where
  "event_continuous_shot_proxy run a s =
     and_then (defined (blocks s a)) (\<lambda>b.
     and_then (defined (cb b)) (\<lambda>f. run f None (usr_data b) s))"

definition event_reader_proxy :: "user_code \<Rightarrow> int \<Rightarrow> addr \<Rightarrow> events_ctx \<Rightarrow> events_ctx outcome" where
  "event_reader_proxy run fd a s =
     and_then (defined (blocks s a)) (\<lambda>b.
     and_then (defined (data_cb b)) (\<lambda>f. run f (Some fd) (usr_data b) s))"

text \<open>libevent calls the proxy of an added event structure; without \<open>EV_PERSIST\<close> it first ceases to be added.\<close>

definition fire_event :: "bool \<Rightarrow> user_code \<Rightarrow> addr \<Rightarrow> events_ctx \<Rightarrow> events_ctx outcome" where
  "fire_event null_ok run e s =
    (case lib s e of None \<Rightarrow> Fault
     | Some x \<Rightarrow>
         let s = (if lib_flags x AND EV_PERSIST = 0 then s\<lparr>lib := (lib s)(e \<mapsto> x\<lparr>lib_added := False\<rparr>)\<rparr> else s)
         in (case lib_proxy x of
               Single_shot_proxy \<Rightarrow> event_single_shot_proxy null_ok run (lib_arg x) s
             | Continuous_shot_proxy \<Rightarrow> event_continuous_shot_proxy run (lib_arg x) s
             | Reader_proxy \<Rightarrow> event_reader_proxy run (lib_fd x) (lib_arg x) s))"

text \<open>The loop of \<open>events_teardown\<close> that empties the list.\<close>

partial_function (option) destroy_all :: "bool \<Rightarrow> events_ctx \<Rightarrow> events_ctx outcome option" where
  "destroy_all null_ok s =
    (case lh_first s of None \<Rightarrow> Some (Continue s)
     | Some a \<Rightarrow>
         (case destroy_events_event null_ok a s of
            Continue s \<Rightarrow> destroy_all null_ok s | m \<Rightarrow> Some m))"

declare destroy_all.simps [code]


section \<open>The shared form of the two registrations\<close>

text \<open>
  \<open>_events_schedule\<close> and \<open>events_add_reader\<close> differ in the callback they store and in the arguments of \<open>event_new\<close>;
  the proofs treat them as instances of one function.
\<close>

definition register_event ::
  "bool \<Rightarrow> events_env \<Rightarrow> (events_event \<Rightarrow> events_event) \<Rightarrow> int \<Rightarrow> u16 \<Rightarrow> event_proxy \<Rightarrow> bool \<Rightarrow> events_ctx
     \<Rightarrow> (events_ctx \<times> int \<times> u64 option) outcome" where
  "register_event null_ok env init fd flags proxy idp s =
    (case new_block env of None \<Rightarrow> Continue (s, ENOMEM, None)
     | Some a \<Rightarrow>
         let n = id_cnt s;
             out = (if idp then Some n else None);
             s = s\<lparr>id_cnt := n + 1\<rparr>;
             s = event_new (new_event env) fd flags proxy a s;
             s = s\<lparr>blocks := (blocks s)(a \<mapsto> (init zero_event)\<lparr>ev_id := n, ev := new_event env\<rparr>)\<rparr>
         in if new_event env = None then
              and_then (destroy_events_event null_ok a s) (\<lambda>s. Continue (s, EFAULT, out))
            else
              and_then (mutex_lock s) (\<lambda>s.
              and_then (list_insert_head a s) (\<lambda>s.
              and_then (event_add (add_rc env) (new_event env) s) (\<lambda>s.
              and_then (mutex_unlock s) (\<lambda>s.
                if add_rc env \<noteq> 0 then
                  and_then (destroy_events_event null_ok a s) (\<lambda>s. Continue (s, EINVAL, out))
                else Continue (s, 0, out))))))"

lemma if_and_then: "(if c then and_then m f else and_then m g) = and_then m (\<lambda>x. if c then f x else g x)"
  by simp

lemma events_schedule_eq:
  "events_schedule null_ok env f usr idp persistent s =
    (let (proxy, events) = (if persistent then (Continuous_shot_proxy, EV_PERSIST) else (Single_shot_proxy, EV_TIMEOUT))
     in register_event null_ok env (\<lambda>b. b\<lparr>cb := f, usr_data := usr\<rparr>) 0 events proxy idp s)"
  by (simp only: events_schedule_def register_event_def if_and_then) (simp add: Let_def split: option.split prod.split)

lemma events_add_reader_eq:
  "events_add_reader null_ok env fd f usr idp s =
     register_event null_ok env (\<lambda>b. b\<lparr>data_cb := f, usr_data := usr\<rparr>) fd (EV_READ OR EV_PERSIST) Reader_proxy idp s"
  by (simp only: events_add_reader_def register_event_def if_and_then) (simp add: Let_def split: option.split)


section \<open>The registry in memory\<close>

definition events_ok :: "events_ctx \<Rightarrow> addr list \<Rightarrow> bool" where
  "events_ok s as \<longleftrightarrow> linked s as \<and> dom (blocks s) = set as \<and> \<not> mtx_locked s
     \<and> (\<forall>a b. blocks s a = Some b \<longrightarrow> (\<exists>e x. ev b = Some e \<and> lib s e = Some x \<and> lib_arg x = a))
     \<and> (\<forall>e x. lib s e = Some x \<longrightarrow> (\<exists>b. blocks s (lib_arg x) = Some b \<and> ev b = Some e))"

record entry =
  en_id :: u64
  en_proxy :: event_proxy
  en_fd :: int
  en_cb :: "nat option"
  en_data_cb :: "nat option"
  en_usr :: "nat option"

definition entry_of :: "events_event \<Rightarrow> lib_event \<Rightarrow> entry" where
  "entry_of b x = \<lparr>en_id = ev_id b, en_proxy = lib_proxy x, en_fd = lib_fd x, en_cb = cb b,
     en_data_cb = data_cb b, en_usr = usr_data b\<rparr>"

definition entry_at :: "events_ctx \<Rightarrow> addr \<Rightarrow> entry" where
  "entry_at s a = (let b = the (blocks s a) in entry_of b (the (lib s (the (ev b)))))"

lemma more_fields:
  assumes "event_list.more s' = event_list.more (s :: events_ctx)"
  shows "id_cnt s' = id_cnt s" "mtx_locked s' = mtx_locked s" "lib s' = lib s"
  using assms by (cases s; cases s'; simp)+

lemma payloads_eqD:
  assumes "payloads s' = payloads s" "blocks s a = Some b"
  obtains b' where "blocks s' a = Some b'" "payload b' = payload b"
  using fun_cong [OF assms(1), of a] assms(2) by (auto simp: payloads_def)

lemma payloads_dom: "payloads s' = P \<Longrightarrow> blocks s' c = Some b \<Longrightarrow> P c = Some (payload b)"
  by (auto simp: payloads_def)

lemma payloads_Some: "payloads s c = Some v \<longleftrightarrow> (\<exists>b. blocks s c = Some b \<and> payload b = v)"
  by (auto simp: payloads_def)

lemma dom_payloads: "dom (payloads s) = dom (blocks s)"
  by (auto simp: payloads_def)

lemma payload_eq_fields:
  "payload b = payload b' \<longleftrightarrow> ev b = ev b' \<and> cb b = cb b' \<and> data_cb b = data_cb b' \<and> usr_data b = usr_data b'
    \<and> ev_id b = ev_id b'"
  by (auto simp: payload_def)

lemma events_ok_block:
  assumes "events_ok s as" "blocks s a = Some b"
  obtains e x where "ev b = Some e" "lib s e = Some x" "lib_arg x = a"
  using assms unfolding events_ok_def by blast

lemma events_ok_dom:
  assumes "events_ok s as" "c \<in> set as"
  obtains b where "blocks s c = Some b"
proof -
  have "c \<in> dom (blocks s)" using assms by (simp add: events_ok_def)
  then show ?thesis using that by blast
qed

lemma events_ok_lib:
  assumes "events_ok s as" "lib s e = Some x"
  obtains b where "blocks s (lib_arg x) = Some b" "ev b = Some e"
  using assms unfolding events_ok_def by blast

text \<open>
  The state after a block has left: its links, its event structure and itself are gone, everything else is as
  it was.
\<close>

lemma events_ok_without:
  assumes ok: "events_ok s (xs @ a # ys)" and a: "blocks s a = Some b" "ev b = Some e"
    and s': "linked s' (xs @ ys)" "payloads s' = (payloads s)(a := None)" "lib s' = (lib s)(e := None)"
      "\<not> mtx_locked s'"
  shows "events_ok s' (xs @ ys) \<and> (\<forall>c\<in>set (xs @ ys). entry_at s' c = entry_at s c)"
proof -
  have dist: "a \<notin> set (xs @ ys)" and dom: "dom (blocks s) = set (xs @ a # ys)"
    using ok by (auto simp: events_ok_def linked_def)
  have origin: "c \<noteq> a \<and> (\<exists>b0 x. blocks s c = Some b0 \<and> payload b' = payload b0
      \<and> ev b0 \<noteq> Some e \<and> ev b' = ev b0 \<and> (\<exists>e0. ev b0 = Some e0 \<and> lib s e0 = Some x \<and> lib s' e0 = Some x \<and> lib_arg x = c))"
    if c: "blocks s' c = Some b'" for c b'
  proof -
    have "((payloads s)(a := None)) c = Some (payload b')"
      using payloads_dom [OF s'(2) c] .
    then obtain b0 where b0: "c \<noteq> a" "blocks s c = Some b0" "payload b' = payload b0"
      by (auto simp: payloads_Some split: if_splits)
    obtain e0 x where x: "ev b0 = Some e0" "lib s e0 = Some x" "lib_arg x = c"
      using events_ok_block [OF ok b0(2)] .
    obtain x' where "lib s e = Some x'" "lib_arg x' = a"
      using events_ok_block [OF ok a(1)] a(2) by auto
    then have "e0 \<noteq> e" using x b0(1) by auto
    then show ?thesis
      using b0 x s'(3) by (auto simp: payload_eq_fields)
  qed
  have "dom (blocks s') = set (xs @ ys)"
    using dom dist unfolding dom_payloads [symmetric] s'(2) by auto
  moreover have "\<exists>b'. blocks s' (lib_arg x) = Some b' \<and> ev b' = Some e0" if x: "lib s' e0 = Some x" for e0 x
  proof -
    have "e0 \<noteq> e" "lib s e0 = Some x" using x s'(3) by (auto split: if_splits)
    then obtain b0 where b0: "blocks s (lib_arg x) = Some b0" "ev b0 = Some e0"
      using events_ok_lib [OF ok] by blast
    with \<open>e0 \<noteq> e\<close> a have "lib_arg x \<noteq> a" by auto
    then have "payloads s' (lib_arg x) = Some (payload b0)"
      using b0 by (simp add: s'(2) payloads_Some)
    then show ?thesis
      using b0 by (auto simp: payloads_Some payload_eq_fields)
  qed
  moreover have "\<exists>e0 x. ev b' = Some e0 \<and> lib s' e0 = Some x \<and> lib_arg x = c" if "blocks s' c = Some b'" for c b'
    using origin [OF that] by auto
  ultimately have ok': "events_ok s' (xs @ ys)"
    using s'(1,4) by (simp add: events_ok_def)
  have "entry_at s' c = entry_at s c" if c: "c \<in> set (xs @ ys)" for c
  proof -
    obtain b' where b': "blocks s' c = Some b'"
      using events_ok_dom [OF ok' c] .
    show ?thesis
      using origin [OF b'] b' by (auto simp: entry_at_def entry_of_def payload_eq_fields Let_def)
  qed
  with ok' show ?thesis by blast
qed

lemma destroy_ok:
  assumes ok: "events_ok s (xs @ a # ys)"
  shows "\<exists>s' b e. destroy_events_event null_ok a s = Continue s' \<and> events_ok s' (xs @ ys)
    \<and> (\<forall>c\<in>set (xs @ ys). entry_at s' c = entry_at s c) \<and> id_cnt s' = id_cnt s
    \<and> blocks s a = Some b \<and> ev b = Some e \<and> lib s' = (lib s)(e := None)"
proof -
  obtain b where b: "blocks s a = Some b"
    using ok chain_blocks [of "blocks s" Head_link "lh_first s" "xs @ a # ys" a]
    by (auto simp: events_ok_def linked_def)
  obtain e x where e: "ev b = Some e" "lib s e = Some x"
    using events_ok_block [OF ok b] .
  define s1 where "s1 = s\<lparr>lib := (lib s)(e := None), mtx_locked := True\<rparr>"
  have lock: "destroy_events_event null_ok a s =
      and_then (list_remove a s1) (\<lambda>s. and_then (mutex_unlock s) (free_block a))"
    using ok b e by (simp add: destroy_events_event_def event_del_def event_free_def on_lib_event_def
        mutex_lock_def events_ok_def s1_def)
  have "linked s1 (xs @ a # ys)"
    using ok by (simp add: events_ok_def linked_def s1_def)
  from list_remove_linked [OF this] obtain s2 where s2: "list_remove a s1 = Continue s2"
      "linked s2 (xs @ ys)" "payloads s2 = payloads s1" "event_list.more s2 = event_list.more s1"
    by blast
  define s3 where "s3 = s2\<lparr>mtx_locked := False\<rparr>"
  have "linked s3 (xs @ ys)" using s2(2) by (simp add: linked_def s3_def)
  moreover have "a \<notin> set (xs @ ys)"
    using ok by (auto simp: events_ok_def linked_def)
  moreover obtain b3 where "blocks s3 a = Some b3"
    using payloads_eqD [OF s2(3), of a b] b by (auto simp: s1_def s3_def)
  ultimately obtain s4 where s4: "free_block a s3 = Continue s4" "linked s4 (xs @ ys)"
      "payloads s4 = (payloads s3)(a := None)" "event_list.more s4 = event_list.more s3"
    using free_block_linked by blast
  have run: "destroy_events_event null_ok a s = Continue s4"
    using lock s2(1) s4(1) more_fields [OF s2(4)] by (simp add: mutex_unlock_def s1_def flip: s3_def)
  have fields: "lib s4 = (lib s)(e := None)" "\<not> mtx_locked s4" "id_cnt s4 = id_cnt s"
    using more_fields [OF s4(4)] more_fields [OF s2(4)] by (simp_all add: s3_def s1_def)
  have "payloads s4 = (payloads s)(a := None)"
    using s4(3) s2(3) by (simp add: s3_def s1_def payloads_def)
  from events_ok_without [OF ok b e(1) s4(2) this fields(1,2)]
  show ?thesis
    using run fields(1,3) b e(1) by blast
qed

text \<open>A new block at the head of the list.\<close>

lemma events_ok_with:
  assumes ok: "events_ok s as" and fresh: "a \<notin> set as" "lib s e = None"
    and s': "linked s' (a # as)" "payloads s' = (payloads s)(a \<mapsto> payload b)" "ev b = Some e"
      "lib s' = (lib s)(e \<mapsto> x)" "lib_arg x = a" "\<not> mtx_locked s'"
  shows "events_ok s' (a # as) \<and> (\<forall>c\<in>set as. entry_at s' c = entry_at s c) \<and> entry_at s' a = entry_of b x"
proof -
  have dom: "dom (blocks s) = set as" using ok by (simp add: events_ok_def)
  have new: "\<exists>b'. blocks s' a = Some b' \<and> payload b' = payload b"
    using fun_cong [OF s'(2), of a] payloads_Some [of s' a "payload b"] by simp
  have old: "(\<exists>b0 e0 x0. blocks s c = Some b0 \<and> payload b' = payload b0 \<and> ev b' = Some e0
      \<and> ev b0 = Some e0 \<and> e0 \<noteq> e \<and> lib s e0 = Some x0 \<and> lib s' e0 = Some x0 \<and> lib_arg x0 = c)"
    if c: "blocks s' c = Some b'" "c \<noteq> a" for c b'
  proof -
    have "payloads s c = Some (payload b')"
      using payloads_dom [OF s'(2) c(1)] c(2) by simp
    then obtain b0 where b0: "blocks s c = Some b0" "payload b' = payload b0"
      by (auto simp: payloads_Some)
    obtain e0 x0 where "ev b0 = Some e0" "lib s e0 = Some x0" "lib_arg x0 = c"
      using events_ok_block [OF ok b0(1)] .
    then show ?thesis
      using b0 fresh s'(4) by (auto simp: payload_eq_fields)
  qed
  have "dom (blocks s') = set (a # as)"
    using dom unfolding dom_payloads [symmetric] s'(2) by auto
  moreover have "\<exists>b'. blocks s' (lib_arg y) = Some b' \<and> ev b' = Some e0" if y: "lib s' e0 = Some y" for e0 y
  proof (cases "e0 = e")
    case True
    then show ?thesis using y s'(3,4,5) new by (auto simp: payload_eq_fields)
  next
    case False
    then have "lib s e0 = Some y" using y s'(4) by simp
    then obtain b0 where b0: "blocks s (lib_arg y) = Some b0" "ev b0 = Some e0"
      using events_ok_lib [OF ok] by blast
    then have "lib_arg y \<noteq> a" using dom fresh(1) by auto
    then have "payloads s' (lib_arg y) = Some (payload b0)"
      using b0 by (simp add: s'(2) payloads_Some)
    then show ?thesis
      using b0 by (auto simp: payloads_Some payload_eq_fields)
  qed
  moreover have "\<exists>e0 y. ev b' = Some e0 \<and> lib s' e0 = Some y \<and> lib_arg y = c" if "blocks s' c = Some b'" for c b'
  proof (cases "c = a")
    case True
    then show ?thesis using that new s'(3,4,5) by (simp add: payload_eq_fields)
  next
    case False
    then show ?thesis using old [OF that False] by blast
  qed
  ultimately have ok': "events_ok s' (a # as)"
    using s'(1,6) by (simp add: events_ok_def)
  have "entry_at s' c = entry_at s c" if c: "c \<in> set as" for c
  proof -
    have "c \<noteq> a" using c fresh by auto
    moreover obtain b' where b': "blocks s' c = Some b'"
      using events_ok_dom [OF ok', of c] c by auto
    ultimately show ?thesis
      using old [OF b'] b' by (auto simp: entry_at_def entry_of_def payload_eq_fields Let_def)
  qed
  moreover have "entry_at s' a = entry_of b x"
  proof -
    obtain b' where b': "blocks s' a = Some b'" "payload b' = payload b"
      using new by blast
    then have "ev b' = Some e" using s'(3) by (simp add: payload_eq_fields)
    then show ?thesis
      using b' s'(3,4) by (simp add: entry_at_def entry_of_def payload_eq_fields)
  qed
  ultimately show ?thesis using ok' by blast
qed

text \<open>Registration when all goes well, and when \<open>event_add\<close> fails.\<close>

lemma register_ok:
  fixes idp :: bool
  assumes ok: "events_ok s as" and env: "new_block env = Some a" "new_event env = Some e"
      "blocks s a = None" "lib s e = None"
    and init: "le_prev (init zero_event) = None"
  defines "b \<equiv> (init zero_event)\<lparr>ev_id := id_cnt s, ev := Some e\<rparr>"
    and "out \<equiv> if idp then Some (id_cnt s) else None"
  shows "\<exists>s'. register_event null_ok env init fd flags proxy idp s =
      Continue (s', if add_rc env = 0 then 0 else EINVAL, out)
    \<and> id_cnt s' = id_cnt s + 1
    \<and> (if add_rc env = 0
       then events_ok s' (a # as) \<and> (\<forall>c\<in>set as. entry_at s' c = entry_at s c)
         \<and> entry_at s' a = entry_of b \<lparr>lib_fd = fd, lib_flags = flags, lib_proxy = proxy, lib_arg = a, lib_added = True\<rparr>
         \<and> lib s' = (lib s)(e \<mapsto> \<lparr>lib_fd = fd, lib_flags = flags, lib_proxy = proxy, lib_arg = a, lib_added = True\<rparr>)
       else events_ok s' as \<and> (\<forall>c\<in>set as. entry_at s' c = entry_at s c) \<and> lib s' = lib s)"
proof -
  let ?x = "\<lparr>lib_fd = fd, lib_flags = flags, lib_proxy = proxy, lib_arg = a, lib_added = False\<rparr>"
  let ?y = "if add_rc env = 0 then ?x\<lparr>lib_added := True\<rparr> else ?x"
  define s1 where "s1 = s\<lparr>id_cnt := id_cnt s + 1, lib := (lib s)(e \<mapsto> ?x),
    blocks := (blocks s)(a \<mapsto> b), mtx_locked := True\<rparr>"
  have a: "a \<notin> set as" using ok env(3) by (auto simp: events_ok_def)
  have "linked s1 as"
    using ok a by (simp add: events_ok_def linked_def s1_def chain_other)
  moreover have "blocks s1 a = Some b" by (simp add: s1_def)
  ultimately obtain s2 where s2: "list_insert_head a s1 = Continue s2" "linked s2 (a # as)"
      "payloads s2 = payloads s1" "event_list.more s2 = event_list.more s1"
    using list_insert_head_linked a by blast
  define s3 where "s3 = s2\<lparr>lib := (lib s)(e \<mapsto> ?y), mtx_locked := False\<rparr>"
  have unlocked: "\<not> mtx_locked s" using ok by (simp add: events_ok_def)
  have run: "register_event null_ok env init fd flags proxy idp s =
      (if add_rc env \<noteq> 0 then and_then (destroy_events_event null_ok a s3) (\<lambda>s. Continue (s, EINVAL, out))
       else Continue (s3, 0, out))"
  proof -
    have "register_event null_ok env init fd flags proxy idp s =
      and_then (list_insert_head a s1) (\<lambda>s.
      and_then (event_add (add_rc env) (Some e) s) (\<lambda>s.
      and_then (mutex_unlock s) (\<lambda>s.
        if add_rc env \<noteq> 0 then and_then (destroy_events_event null_ok a s) (\<lambda>s. Continue (s, EINVAL, out))
        else Continue (s, 0, out))))"
      using env unlocked unfolding out_def b_def s1_def
      by (simp add: register_event_def event_new_def mutex_lock_def Let_def)
    then show ?thesis
      using s2(1) more_fields [OF s2(4)]
      by (simp add: event_add_def on_lib_event_def mutex_unlock_def s1_def s3_def)
  qed
  have with_a: "events_ok s3 (a # as) \<and> (\<forall>c\<in>set as. entry_at s3 c = entry_at s c)
      \<and> entry_at s3 a = entry_of b ?y"
  proof (rule events_ok_with [OF ok a env(4)])
    show "linked s3 (a # as)" using s2(2) by (simp add: linked_def s3_def)
    show "payloads s3 = (payloads s)(a \<mapsto> payload b)"
      using s2(3) by (simp add: s3_def s1_def payloads_def fun_eq_iff)
    show "lib s3 = (lib s)(e \<mapsto> ?y)" by (simp add: s3_def)
  qed (simp_all add: b_def s3_def)
  have cnt: "id_cnt s3 = id_cnt s + 1"
    using more_fields [OF s2(4)] by (simp add: s3_def s1_def)
  show ?thesis
  proof (cases "add_rc env = 0")
    case True
    then show ?thesis using run with_a cnt by (simp add: s3_def)
  next
    case False
    have "events_ok s3 ([] @ a # as)" using with_a by simp
    from destroy_ok [OF this, of null_ok] obtain s4 b' e' where s4: "destroy_events_event null_ok a s3 = Continue s4"
        "events_ok s4 as" "\<forall>c\<in>set as. entry_at s4 c = entry_at s3 c" "id_cnt s4 = id_cnt s3"
        "blocks s3 a = Some b'" "ev b' = Some e'" "lib s4 = (lib s3)(e' := None)"
      by auto
    have "lib s3 e = Some ?x" using False by (simp add: s3_def)
    then have "e' = e"
      using events_ok_lib [OF conjunct1 [OF with_a], of e ?x] s4(5,6) by auto
    then have "lib s4 = lib s"
      using s4(7) env(4) by (auto simp: s3_def)
    then show ?thesis using run False with_a cnt s4 by simp
  qed
qed


section \<open>Cancelling, firing, tearing down\<close>

fun remove_first :: "('a \<Rightarrow> bool) \<Rightarrow> 'a list \<Rightarrow> 'a list" where
  "remove_first P [] = []"
| "remove_first P (x # xs) = (if P x then xs else x # remove_first P xs)"

lemma remove_first_none: "(\<forall>x\<in>set xs. \<not> P x) \<Longrightarrow> remove_first P xs = xs"
  by (induction xs) auto

lemma remove_first_at: "(\<forall>x\<in>set xs. \<not> P x) \<Longrightarrow> P y \<Longrightarrow> remove_first P (xs @ y # ys) = xs @ ys"
  by (induction xs) auto

lemma find_event_chain:
  "chain h l p as \<Longrightarrow> find_event h i p = Some (Continue (find (\<lambda>a. ev_id (the (h a)) = i) as))"
proof (induction as arbitrary: l p)
  case Nil
  then show ?case by (simp add: find_event.simps [of h i None])
next
  case (Cons a as)
  then obtain b where b: "p = Some a" "h a = Some b" "chain h (Next_link a) (le_next b) as" by auto
  then show ?case
    using Cons.IH [OF b(3)] by (simp add: find_event.simps [of h i "Some a"])
qed

lemma entry_id: "en_id (entry_at s a) = ev_id (the (blocks s a))"
  by (simp add: entry_at_def entry_of_def Let_def)

lemma cancel_ok:
  assumes ok: "events_ok s as"
  defines "reg \<equiv> map (entry_at s) as"
  shows "\<exists>s' as'. events_cancel null_ok i s =
      Some (Continue (s', if i \<in> en_id ` set reg then EXIT_SUCCESS else EXIT_FAILURE))
    \<and> events_ok s' as' \<and> map (entry_at s') as' = remove_first (\<lambda>e. en_id e = i) reg \<and> id_cnt s' = id_cnt s
    \<and> ran (lib s') \<subseteq> ran (lib s)"
proof -
  let ?P = "\<lambda>a. ev_id (the (blocks s a)) = i"
  have unlocked: "\<not> mtx_locked s" using ok by (simp add: events_ok_def)
  have found: "find_event (blocks s) i (lh_first s) = Some (Continue (find ?P as))"
    using ok by (auto simp: events_ok_def linked_def intro: find_event_chain)
  have run: "events_cancel null_ok i s = Some (case find ?P as of None \<Rightarrow> Continue (s, EXIT_FAILURE)
      | Some a \<Rightarrow> and_then (destroy_events_event null_ok a s) (\<lambda>s. Continue (s, EXIT_SUCCESS)))"
  proof -
    have same: "s\<lparr>mtx_locked := False\<rparr> = s" using unlocked by (cases s) simp
    show ?thesis
      using unlocked found by (simp add: events_cancel_def mutex_lock_def mutex_unlock_def same)
  qed
  show ?thesis
  proof (cases "find ?P as")
    case None
    then have "\<forall>e\<in>set reg. en_id e \<noteq> i"
      by (auto simp: find_None_iff reg_def entry_id)
    then show ?thesis
      using None run ok by (auto simp: remove_first_none reg_def)
  next
    case (Some a)
    then obtain k where k: "k < length as" "as ! k = a" "?P a" "\<forall>j<k. \<not> ?P (as ! j)"
      by (auto simp: find_Some_iff)
    define xs ys where "xs = take k as" and "ys = drop (Suc k) as"
    have as: "as = xs @ a # ys"
      using k id_take_nth_drop [of k as] by (simp add: xs_def ys_def)
    have xs: "\<forall>x\<in>set xs. \<not> ?P x"
      using k by (auto simp: xs_def in_set_conv_nth)
    obtain s' b e where s': "destroy_events_event null_ok a s = Continue s'" "events_ok s' (xs @ ys)"
        "\<forall>c\<in>set (xs @ ys). entry_at s' c = entry_at s c" "id_cnt s' = id_cnt s" "lib s' = (lib s)(e := None)"
      using destroy_ok [of s xs a ys null_ok] ok as by auto
    have "map (entry_at s') (xs @ ys) = map (entry_at s) (xs @ ys)"
      using s'(3) by simp
    also have "\<dots> = remove_first (\<lambda>e. en_id e = i) reg"
      unfolding reg_def as using xs k(3) by (simp add: remove_first_at entry_id)
    finally have regs: "map (entry_at s') (xs @ ys) = remove_first (\<lambda>e. en_id e = i) reg" .
    have "i \<in> en_id ` set reg"
      using k(3) by (auto simp: reg_def as entry_id)
    moreover have "ran (lib s') \<subseteq> ran (lib s)"
      by (auto simp: s'(5) ran_def)
    ultimately show ?thesis
      using Some run s' regs by auto
  qed
qed

text \<open>A single shot whose callback leaves it registered is destroyed after the callback.\<close>

lemma single_shot_ok:
  assumes "events_ok s as" "blocks s a = Some b" "cb b = Some f"
    and "run f None (usr_data b) s = Continue s1" "events_ok s1 (xs @ a # ys)"
  shows "\<exists>s'. event_single_shot_proxy null_ok run a s = Continue s' \<and> events_ok s' (xs @ ys)
    \<and> (\<forall>c\<in>set (xs @ ys). entry_at s' c = entry_at s1 c) \<and> id_cnt s' = id_cnt s1 \<and> ran (lib s') \<subseteq> ran (lib s1) - {x. lib_arg x = a}"
proof -
  obtain s' b' e where s': "destroy_events_event null_ok a s1 = Continue s'" "events_ok s' (xs @ ys)"
      "\<forall>c\<in>set (xs @ ys). entry_at s' c = entry_at s1 c" "id_cnt s' = id_cnt s1"
      "blocks s1 a = Some b'" "ev b' = Some e" "lib s' = (lib s1)(e := None)"
    using destroy_ok [OF assms(5), of null_ok] by blast
  have "lib s1 e' = Some x \<and> lib_arg x \<noteq> a" if x: "lib s' e' = Some x" for e' x
  proof -
    have "e' \<noteq> e" "lib s1 e' = Some x" using x s'(7) by (auto split: if_splits)
    then obtain b0 where "blocks s1 (lib_arg x) = Some b0" "ev b0 = Some e'"
      using events_ok_lib [OF assms(5)] by blast
    with s'(5,6) \<open>e' \<noteq> e\<close> \<open>lib s1 e' = Some x\<close> show ?thesis by auto
  qed
  then have "ran (lib s') \<subseteq> ran (lib s1) - {x. lib_arg x = a}"
    by (auto simp: ran_def)
  then show ?thesis
    using assms s' by (simp add: event_single_shot_proxy_def)
qed

lemma destroy_all_ok:
  assumes "events_ok s as"
  shows "\<exists>s'. destroy_all null_ok s = Some (Continue s') \<and> events_ok s' [] \<and> id_cnt s' = id_cnt s"
  using assms
proof (induction as arbitrary: s)
  case Nil
  then have "lh_first s = None" by (simp add: events_ok_def linked_def)
  then have "destroy_all null_ok s = Some (Continue s)"
    by (subst destroy_all.simps) simp
  then show ?case using Nil by blast
next
  case (Cons a as)
  then have first: "lh_first s = Some a" by (simp add: events_ok_def linked_def)
  have "events_ok s ([] @ a # as)" using Cons.prems by simp
  from destroy_ok [OF this, of null_ok] obtain s1 where s1: "destroy_events_event null_ok a s = Continue s1"
      "events_ok s1 as" "id_cnt s1 = id_cnt s" by auto
  have "destroy_all null_ok s = destroy_all null_ok s1"
    by (subst destroy_all.simps) (simp add: first s1(1))
  then show ?case
    using Cons.IH [OF s1(2)] s1(3) by simp
qed

lemma events_ok_empty: "events_ok s [] \<longleftrightarrow> lh_first s = None \<and> blocks s = Map.empty \<and> lib s = Map.empty \<and> \<not> mtx_locked s"
  by (auto simp: events_ok_def linked_def fun_eq_iff)

end
