(* ===== verification/Event_Registry.thy ===== *)
theory Event_Registry
  imports Events Interfaces
begin

text \<open>
  The registry of \<^verbatim>\<open>src/events.c\<close> as an abstract machine on the list of its entries, the steps the program can
  make on the memory of \<^theory_text>\<open>Events\<close>, and the proof that the latter simulate the former. The callbacks are
  represented by the steps they make between the start and the end of a proxy.
\<close>

section \<open>The abstract registry\<close>

record registry =
  entries :: "entry list"
  next_id :: u64

inductive registry_step :: "registry \<Rightarrow> registry \<Rightarrow> bool" where
  add: "en_id e = next_id r \<Longrightarrow> next_id r \<noteq> - 1 \<Longrightarrow>
    registry_step r (r\<lparr>entries := e # entries r, next_id := next_id r + 1\<rparr>)"
| skip: "next_id r \<noteq> - 1 \<Longrightarrow> registry_step r (r\<lparr>next_id := next_id r + 1\<rparr>)"
| cancel: "registry_step r (r\<lparr>entries := remove_first (\<lambda>e. en_id e = i) (entries r)\<rparr>)"
| shot: "entries r = xs @ e # ys \<Longrightarrow> en_proxy e = Single_shot_proxy \<Longrightarrow> registry_step r (r\<lparr>entries := xs @ ys\<rparr>)"

inductive_cases registry_stepE: "registry_step r r'"

definition ids_ok :: "registry \<Rightarrow> bool" where
  "ids_ok r \<longleftrightarrow> distinct (map en_id (entries r)) \<and> (\<forall>e\<in>set (entries r). en_id e < next_id r)"

lemma word_less_Suc: "(n :: u64) \<noteq> - 1 \<Longrightarrow> n < n + 1"
proof -
  assume "n \<noteq> - 1"
  then have "n + 1 \<noteq> 0" by (metis add.right_neutral add_diff_cancel_right' diff_0)
  then have "unat (n + 1) = Suc (unat n)" by (simp add: unatSuc add.commute)
  then show ?thesis by (simp add: word_less_nat_alt)
qed

lemma remove_first_subset: "set (remove_first P xs) \<subseteq> set xs"
  by (induction xs) auto

lemma remove_first_others: "{x \<in> set xs. \<not> P x} \<subseteq> set (remove_first P xs)"
  by (induction xs) auto

lemma distinct_remove_first: "distinct (map f xs) \<Longrightarrow> distinct (map f (remove_first P xs))"
  using remove_first_subset [of P] by (induction xs) auto

lemma registry_ids:
  assumes "ids_ok r" "registry_step r r'"
  shows "ids_ok r'"
  using assms(2,1)
proof (cases rule: registry_step.cases)
  case (add e)
  then show ?thesis
    using assms(1) word_less_Suc [of "next_id r"] by (fastforce simp: ids_ok_def)
next
  case skip
  then show ?thesis
    using assms(1) word_less_Suc [of "next_id r"] by (fastforce simp: ids_ok_def)
next
  case (cancel i)
  then show ?thesis
    using assms(1) remove_first_subset [of _ "entries r"] by (auto simp: ids_ok_def distinct_remove_first)
next
  case (shot xs e ys)
  then show ?thesis using assms(1) by (auto simp: ids_ok_def)
qed


section \<open>The steps of the program\<close>

text \<open>
  A registration that finds the memory it asks for gets it at addresses that are not in use. One whose
  \<open>event_new\<close> fails has no step: it faults.
\<close>

definition fresh_env :: "events_env \<Rightarrow> events_ctx \<Rightarrow> bool" where
  "fresh_env env s \<longleftrightarrow> (\<forall>a. new_block env = Some a \<longrightarrow> blocks s a = None)
     \<and> (\<forall>e. new_event env = Some e \<longrightarrow> lib s e = None)"

definition no_code :: user_code where
  "no_code = (\<lambda>f fd usr s. Continue s)"

inductive events_step :: "events_ctx \<Rightarrow> events_ctx \<Rightarrow> bool" where
  single_shot: "fresh_env env s \<Longrightarrow> id_cnt s \<noteq> - 1 \<Longrightarrow>
    events_schedule_single_shot null_ok env f usr idp s = Continue (s', rc, out) \<Longrightarrow> events_step s s'"
| periodic: "fresh_env env s \<Longrightarrow> id_cnt s \<noteq> - 1 \<Longrightarrow>
    events_schedule_periodic null_ok env f usr idp s = Continue (s', rc, out) \<Longrightarrow> events_step s s'"
| reader: "fresh_env env s \<Longrightarrow> id_cnt s \<noteq> - 1 \<Longrightarrow>
    events_add_reader null_ok env fd f usr idp s = Continue (s', rc, out) \<Longrightarrow> events_step s s'"
| cancel: "events_cancel null_ok i s = Some (Continue (s', rc)) \<Longrightarrow> events_step s s'"
| fire: "lib s e = Some x \<Longrightarrow> lib_added x \<Longrightarrow> fire_event null_ok no_code e s = Continue s' \<Longrightarrow> events_step s s'"

definition armed :: "events_ctx \<Rightarrow> bool" where
  "armed s \<longleftrightarrow> (\<forall>x\<in>ran (lib s). lib_added x \<and> (lib_flags x AND EV_PERSIST = 0 \<longleftrightarrow> lib_proxy x = Single_shot_proxy))"

definition events_rep :: "events_ctx \<Rightarrow> registry \<Rightarrow> bool" where
  "events_rep s r \<longleftrightarrow> armed s \<and> next_id r = id_cnt s
     \<and> (\<exists>as. events_ok s as \<and> entries r = map (entry_at s) as)"

lemma events_rep_init: "events_rep EVENTS_CTX_INIT \<lparr>entries = [], next_id = 0\<rparr>"
  by (auto simp: events_rep_def EVENTS_CTX_INIT_def armed_def events_ok_def linked_def)

lemma armed_subset: "armed s \<Longrightarrow> ran (lib s') \<subseteq> ran (lib s) \<Longrightarrow> armed s'"
  by (auto simp: armed_def)

text \<open>Each kind of step on the memory is one on the registry.\<close>

lemma map_entry_cong: "\<forall>c\<in>set as. entry_at s' c = entry_at s c \<Longrightarrow> map (entry_at s') as = map (entry_at s) as"
  by simp

lemma failed_event_new:
  assumes "new_block env = Some a" "new_event env = None" "le_prev (init zero_event) = None" "le_next (init zero_event) = None"
  shows "register_event null_ok env init fd flags proxy idp s = Fault"
  using assms by (simp add: register_event_def event_new_def destroy_events_event_def event_del_def event_free_def
      on_lib_event_def mutex_lock_def list_remove_unlinked Let_def)

lemma register_simulates:
  assumes rep: "events_rep s r" and env: "fresh_env env s" and bound: "id_cnt s \<noteq> - 1"
    and run: "register_event null_ok env init fd flags proxy idp s = Continue (s', rc, out)"
    and init: "\<And>b. le_prev (init b) = le_prev b" "\<And>b. le_next (init b) = le_next b"
    and flags: "flags AND EV_PERSIST = 0 \<longleftrightarrow> proxy = Single_shot_proxy"
  shows "\<exists>r'. registry_step\<^sup>*\<^sup>* r r' \<and> events_rep s' r' \<and> set (entries r) \<subseteq> set (entries r')"
proof (cases "new_block env")
  case None
  then show ?thesis using run rep by (auto simp: register_event_def)
next
  case (Some a)
  obtain as where as: "events_ok s as" "entries r = map (entry_at s) as"
    using rep by (auto simp: events_rep_def)
  have nid: "next_id r = id_cnt s" "armed s"
    using rep by (simp_all add: events_rep_def)
  have prev: "le_prev (init zero_event) = None" "le_next (init zero_event) = None"
    by (simp_all add: init zero_event_def)
  show ?thesis
  proof (cases "new_event env")
    case None
    then show ?thesis
      using failed_event_new [where init = init, OF Some None prev] run by simp
  next
    case e: (Some e)
    let ?x = "\<lparr>lib_fd = fd, lib_flags = flags, lib_proxy = proxy, lib_arg = a, lib_added = True\<rparr>"
    let ?b = "(init zero_event)\<lparr>ev_id := id_cnt s, ev := Some e\<rparr>"
    have fresh: "blocks s a = None" "lib s e = None"
      using env Some e by (auto simp: fresh_env_def)
    note ok = register_ok [where init = init, OF as(1) Some e fresh prev(1), of null_ok fd flags proxy idp]
    have cnt: "id_cnt s' = id_cnt s + 1"
      using ok run by auto
    show ?thesis
    proof (cases "add_rc env = 0")
      case True
      have s': "events_ok s' (a # as)" "\<forall>c\<in>set as. entry_at s' c = entry_at s c"
          "entry_at s' a = entry_of ?b ?x" "lib s' = (lib s)(e \<mapsto> ?x)"
        using ok run True by auto
      have "registry_step r (r\<lparr>entries := entry_of ?b ?x # entries r, next_id := next_id r + 1\<rparr>)"
        using rep bound by (intro registry_step.add) (simp_all add: entry_of_def events_rep_def)
      moreover have "armed s'"
        using rep flags fresh(2) by (auto simp: armed_def events_rep_def s'(4) ran_map_upd)
      then have "events_rep s' (r\<lparr>entries := entry_of ?b ?x # entries r, next_id := next_id r + 1\<rparr>)"
        using s' as(2) cnt nid by (simp add: events_rep_def) (metis (no_types, lifting) list.simps(9) map_entry_cong)
      ultimately show ?thesis
        by (intro exI [of _ "r\<lparr>entries := entry_of ?b ?x # entries r, next_id := next_id r + 1\<rparr>"]) auto
    next
      case False
      have s': "events_ok s' as" "\<forall>c\<in>set as. entry_at s' c = entry_at s c" "lib s' = lib s"
        using ok run False by auto
      have "registry_step r (r\<lparr>next_id := next_id r + 1\<rparr>)"
        using rep bound by (intro registry_step.skip) (simp add: events_rep_def)
      moreover have "events_rep s' (r\<lparr>next_id := next_id r + 1\<rparr>)"
        using s' as(2) cnt nid map_entry_cong [OF s'(2)] by (auto simp: events_rep_def armed_def)
      ultimately show ?thesis
        by (intro exI [of _ "r\<lparr>next_id := next_id r + 1\<rparr>"]) auto
    qed
  qed
qed

lemma cancel_simulates:
  assumes rep: "events_rep s r" and run: "events_cancel null_ok i s = Some (Continue (s', rc))"
  shows "\<exists>r'. registry_step\<^sup>*\<^sup>* r r' \<and> events_rep s' r' \<and> {e \<in> set (entries r). en_id e \<noteq> i} \<subseteq> set (entries r')"
proof -
  obtain as where as: "events_ok s as" "entries r = map (entry_at s) as"
    using rep by (auto simp: events_rep_def)
  obtain as' where as': "events_ok s' as'"
      "map (entry_at s') as' = remove_first (\<lambda>e. en_id e = i) (entries r)" "id_cnt s' = id_cnt s"
      "ran (lib s') \<subseteq> ran (lib s)"
    using cancel_ok [OF as(1), of null_ok i] run as(2) by auto
  have "events_rep s' (r\<lparr>entries := remove_first (\<lambda>e. en_id e = i) (entries r)\<rparr>)"
    using as' rep armed_subset [OF _ as'(4)] by (auto simp: events_rep_def)
  then show ?thesis
    using registry_step.cancel [of r i] remove_first_others [of "entries r" "\<lambda>e. en_id e = i"]
    by (intro exI [of _ "r\<lparr>entries := remove_first (\<lambda>e. en_id e = i) (entries r)\<rparr>"]) auto
qed

lemma events_ok_lib_added:
  assumes "events_ok s as" "lib s e = Some x"
  shows "events_ok (s\<lparr>lib := (lib s)(e \<mapsto> x\<lparr>lib_added := v\<rparr>)\<rparr>) as
    \<and> (\<forall>c. entry_at (s\<lparr>lib := (lib s)(e \<mapsto> x\<lparr>lib_added := v\<rparr>)\<rparr>) c = entry_at s c)"
proof -
  let ?s = "s\<lparr>lib := (lib s)(e \<mapsto> x\<lparr>lib_added := v\<rparr>)\<rparr>"
  have "\<exists>e' y. ev b = Some e' \<and> lib ?s e' = Some y \<and> lib_arg y = a" if b: "blocks s a = Some b" for a b
  proof -
    obtain e' y where "ev b = Some e'" "lib s e' = Some y" "lib_arg y = a"
      using events_ok_block [OF assms(1) b] .
    then show ?thesis using assms(2) by (cases "e' = e") auto
  qed
  moreover have "\<exists>b. blocks s (lib_arg y) = Some b \<and> ev b = Some e'" if y: "lib ?s e' = Some y" for e' y
  proof -
    obtain y' where "lib s e' = Some y'" "lib_arg y' = lib_arg y"
      using y assms(2) by (auto split: if_splits)
    then show ?thesis using events_ok_lib [OF assms(1), of e' y'] by metis
  qed
  ultimately have "events_ok ?s as"
    using assms(1) by (simp add: events_ok_def linked_def)
  moreover have "entry_at ?s c = entry_at s c" for c
    using assms(2) by (simp add: entry_at_def entry_of_def Let_def)
  ultimately show ?thesis by blast
qed

lemma fire_simulates:
  assumes rep: "events_rep s r" and x: "lib s e = Some x"
    and run: "fire_event null_ok no_code e s = Continue s'"
  shows "\<exists>r'. registry_step\<^sup>*\<^sup>* r r' \<and> events_rep s' r'
    \<and> {e \<in> set (entries r). en_proxy e \<noteq> Single_shot_proxy} \<subseteq> set (entries r')"
proof -
  obtain as where as: "events_ok s as" "entries r = map (entry_at s) as"
    using rep by (auto simp: events_rep_def)
  have flags: "lib_flags x AND EV_PERSIST = 0 \<longleftrightarrow> lib_proxy x = Single_shot_proxy"
    using rep x by (auto simp: events_rep_def armed_def ran_def)
  show ?thesis
  proof (cases "lib_proxy x = Single_shot_proxy")
    case False
    then have "s' = s"
      using run x flags by (auto simp: fire_event_def event_continuous_shot_proxy_def event_reader_proxy_def
          no_code_def split: event_proxy.splits)
    then show ?thesis using rep by blast
  next
    case True
    define a where "a = lib_arg x"
    define sA where "sA = s\<lparr>lib := (lib s)(e \<mapsto> x\<lparr>lib_added := False\<rparr>)\<rparr>"
    obtain b where b: "blocks s a = Some b" "ev b = Some e"
      using events_ok_lib [OF as(1) x] by (auto simp: a_def)
    then have "a \<in> set as" using as(1) by (auto simp: events_ok_def)
    then obtain xs ys where split: "as = xs @ a # ys" by (meson split_list)
    have okA: "events_ok sA (xs @ a # ys)" "\<And>c. entry_at sA c = entry_at s c"
      using events_ok_lib_added [OF as(1) x, of False] split by (simp_all add: sA_def)
    have fire: "event_single_shot_proxy null_ok no_code a sA = Continue s'"
      using run x True flags by (simp add: fire_event_def a_def sA_def)
    have bA: "blocks sA a = Some b" using b(1) by (simp add: sA_def)
    then obtain f where f: "cb b = Some f"
      using fire by (cases "cb b") (auto simp: event_single_shot_proxy_def)
    obtain s'': "events_ok s' (xs @ ys)" "\<forall>c\<in>set (xs @ ys). entry_at s' c = entry_at sA c" "id_cnt s' = id_cnt sA"
        "ran (lib s') \<subseteq> ran (lib sA) - {x. lib_arg x = a}"
      using single_shot_ok [OF okA(1) bA f, of no_code sA xs ys null_ok] okA(1) fire
      by (auto simp: no_code_def)
    have "ran (lib s') \<subseteq> ran (lib s)"
    proof
      fix y
      assume "y \<in> ran (lib s')"
      then have "y \<in> ran (lib sA)" "lib_arg y \<noteq> a" using s''(4) by auto
      then show "y \<in> ran (lib s)"
        by (auto simp: sA_def a_def ran_def split: if_splits)
    qed
    then have "armed s'" using rep armed_subset by (auto simp: events_rep_def)
    moreover have "map (entry_at s') (xs @ ys) = map (entry_at s) xs @ map (entry_at s) ys"
      using s''(2) okA(2) by simp
    ultimately have "events_rep s' (r\<lparr>entries := map (entry_at s) xs @ map (entry_at s) ys\<rparr>)"
      using s''(1,3) rep by (auto simp: events_rep_def sA_def)
    moreover have "en_proxy (entry_at s a) = Single_shot_proxy"
      using b x True by (simp add: entry_at_def entry_of_def)
    then have "registry_step r (r\<lparr>entries := map (entry_at s) xs @ map (entry_at s) ys\<rparr>)"
      using as(2) split by (intro registry_step.shot [of r _ "entry_at s a"]) simp_all
    moreover have "{e \<in> set (entries r). en_proxy e \<noteq> Single_shot_proxy} \<subseteq> set (map (entry_at s) xs @ map (entry_at s) ys)"
      using as(2) split \<open>en_proxy (entry_at s a) = Single_shot_proxy\<close> by auto
    ultimately show ?thesis
      by (intro exI [of _ "r\<lparr>entries := map (entry_at s) xs @ map (entry_at s) ys\<rparr>"]) auto
  qed
qed

lemmas schedule_defs = events_schedule_single_shot_def events_schedule_periodic_def events_schedule_eq

text \<open>
  A step simulates, and only a cancellation with its id removes an entry that is not a single shot.
\<close>

lemma step_simulates:
  assumes rep: "events_rep s r" and step: "events_step s s'"
    and keep: "\<And>null_ok rc. events_cancel null_ok i s \<noteq> Some (Continue (s', rc)) \<or> (\<forall>e\<in>K. en_id e \<noteq> i)"
    and K: "K \<subseteq> set (entries r)" "\<forall>e\<in>K. en_id e = i \<and> en_proxy e \<noteq> Single_shot_proxy"
  shows "\<exists>r'. registry_step\<^sup>*\<^sup>* r r' \<and> events_rep s' r' \<and> K \<subseteq> set (entries r')"
proof -
  have bits: "EV_TIMEOUT AND EV_PERSIST = 0" "EV_PERSIST AND EV_PERSIST \<noteq> 0"
      "(EV_READ OR EV_PERSIST) AND EV_PERSIST \<noteq> 0"
    by (simp_all add: EV_TIMEOUT_def EV_PERSIST_def EV_READ_def)
  from step show ?thesis
  proof cases
    case (single_shot env null_ok f usr idp rc out)
    then have "\<exists>r'. registry_step\<^sup>*\<^sup>* r r' \<and> events_rep s' r' \<and> set (entries r) \<subseteq> set (entries r')"
      using register_simulates [OF rep single_shot(1,2)] bits
      by (cases idp) (auto simp: schedule_defs)
    then show ?thesis using K(1) by blast
  next
    case (periodic env null_ok f usr idp rc out)
    then have "\<exists>r'. registry_step\<^sup>*\<^sup>* r r' \<and> events_rep s' r' \<and> set (entries r) \<subseteq> set (entries r')"
      using register_simulates [OF rep periodic(1,2)] bits by (auto simp: schedule_defs)
    then show ?thesis using K(1) by blast
  next
    case (reader env null_ok fd f usr idp rc out)
    then have "\<exists>r'. registry_step\<^sup>*\<^sup>* r r' \<and> events_rep s' r' \<and> set (entries r) \<subseteq> set (entries r')"
      using register_simulates [OF rep reader(1,2)] bits by (auto simp: events_add_reader_eq)
    then show ?thesis using K(1) by blast
  next
    case (cancel null_ok k rc)
    obtain r' where "registry_step\<^sup>*\<^sup>* r r'" "events_rep s' r'" "{e \<in> set (entries r). en_id e \<noteq> k} \<subseteq> set (entries r')"
      using cancel_simulates [OF rep cancel] by blast
    moreover have "k \<noteq> i \<or> K = {}" using keep [of null_ok rc] cancel K(2) by auto
    ultimately show ?thesis using K by blast
  next
    case (fire e x null_ok)
    then show ?thesis using fire_simulates [OF rep fire(1,3)] K by blast
  qed
qed

interpretation event_registry: simulation events_step registry_step events_rep
proof
  fix s r s'
  assume "events_rep s r" "events_step s s'"
  from step_simulates [OF this, of _ "{}"] show "\<exists>r'. registry_step\<^sup>*\<^sup>* r r' \<and> events_rep s' r'"
    by blast
qed


section \<open>Properties\<close>

definition empty_registry :: registry where
  "empty_registry = \<lparr>entries = [], next_id = 0\<rparr>"

text \<open>A registered single shot, and a registered reader behind it, for the witnesses.\<close>

definition sample_env :: "addr \<Rightarrow> events_env" where
  "sample_env a = \<lparr>new_block = Some a, new_event = Some (a + 1), add_rc = 0\<rparr>"

fun result_of :: "(events_ctx \<times> int \<times> u64 option) outcome \<Rightarrow> events_ctx" where
  "result_of (Continue (s, rc, out)) = s"
| "result_of _ = EVENTS_CTX_INIT"

definition sample_one :: events_ctx where
  "sample_one = result_of (events_schedule_single_shot False (sample_env 100) (Some 1) None False EVENTS_CTX_INIT)"

definition sample_two :: events_ctx where
  "sample_two = result_of (events_add_reader False (sample_env 200) 4 (Some 2) None True sample_one)"

lemmas events_eval = result_of.simps sample_env_def EVENTS_CTX_INIT_def schedule_defs events_add_reader_eq
  register_event_def event_new_def mutex_lock_def mutex_unlock_def list_insert_head_def set_block_def
  block_at_def event_add_def on_lib_event_def zero_event_def

lemma sample_one_run:
  "events_schedule_single_shot False (sample_env 100) (Some 1) None False EVENTS_CTX_INIT
     = Continue (sample_one, 0, None)"
  unfolding sample_one_def by (simp add: events_eval)

lemma sample_one_fields: "blocks sample_one a = None \<longleftrightarrow> a \<noteq> 100" "lib sample_one e = None \<longleftrightarrow> e \<noteq> 101"
    "id_cnt sample_one = 1"
  by (simp_all add: sample_one_def events_eval)

lemma sample_two_run:
  "events_add_reader False (sample_env 200) 4 (Some 2) None True sample_one = Continue (sample_two, 0, Some 1)"
  unfolding sample_two_def sample_one_def by (simp add: events_eval)

lemma sample_one_reachable: "events_step\<^sup>*\<^sup>* EVENTS_CTX_INIT sample_one"
proof -
  have "events_step EVENTS_CTX_INIT sample_one"
    by (rule events_step.single_shot [OF _ _ sample_one_run]) (simp_all add: fresh_env_def EVENTS_CTX_INIT_def)
  then show ?thesis by blast
qed

lemma sample_reachable: "events_step\<^sup>*\<^sup>* EVENTS_CTX_INIT sample_two"
proof -
  have "events_step sample_one sample_two"
    by (rule events_step.reader [OF _ _ sample_two_run])
      (simp_all add: fresh_env_def sample_env_def sample_one_fields)
  then show ?thesis
    using sample_one_reachable by (meson rtranclp.rtrancl_into_rtrancl)
qed

text \<open>
  C2: The registry of \<^verbatim>\<open>events.c\<close> refines an abstract one: whatever sequence of registrations, cancellations and
  fired events the program goes through, its memory represents a list of entries that the abstract machine
  reaches from the empty list by adding at the head, removing the first entry with an id and removing single
  shots that have fired.
\<close>
theorem events_run_refines:
  assumes "events_step\<^sup>*\<^sup>* EVENTS_CTX_INIT s"
  shows "\<exists>r. registry_step\<^sup>*\<^sup>* empty_registry r \<and> events_rep s r"
  using event_registry.reachable [OF assms events_rep_init] by (simp add: empty_registry_def)

theorem events_run_refines_witness:
  "\<exists>r. registry_step\<^sup>*\<^sup>* empty_registry r \<and> events_rep sample_two r"
  by (rule events_run_refines [OF sample_reachable])

lemma reachable_ids:
  assumes "events_step\<^sup>*\<^sup>* EVENTS_CTX_INIT s"
  shows "\<exists>as. events_ok s as \<and> armed s \<and> distinct (map (\<lambda>a. en_id (entry_at s a)) as)
    \<and> (\<forall>a\<in>set as. en_id (entry_at s a) < id_cnt s)"
proof -
  have start: "ids_ok \<lparr>entries = [], next_id = 0\<rparr>" by (simp add: ids_ok_def)
  obtain r where r: "events_rep s r" "ids_ok r"
    using event_registry.invariant [where I = ids_ok, OF assms events_rep_init start] registry_ids
    by blast
  then obtain as where "events_ok s as" "entries r = map (entry_at s) as" "next_id r = id_cnt s" "armed s"
    by (auto simp: events_rep_def)
  then show ?thesis using r(2) by (intro exI [of _ as]) (simp add: ids_ok_def comp_def)
qed

lemma events_ok_unique: "events_ok s as \<Longrightarrow> events_ok s bs \<Longrightarrow> as = bs"
  by (auto simp: events_ok_def linked_def dest: chain_unique)

text \<open>
  C12: The memory invariant of \<^verbatim>\<open>events.c\<close>: in every reachable state the list is well linked in both directions,
  exactly the listed blocks are allocated, every block owns one live event structure that points back to it,
  every such structure is added, the mutex is free, and the ids are pairwise different and below the counter.
\<close>
theorem events_memory_invariant:
  assumes "events_step\<^sup>*\<^sup>* EVENTS_CTX_INIT s"
  shows "\<exists>as. events_ok s as \<and> armed s \<and> distinct (map (\<lambda>a. en_id (entry_at s a)) as)
    \<and> (\<forall>a\<in>set as. en_id (entry_at s a) < id_cnt s)"
  using assms by (rule reachable_ids)

theorem events_memory_invariant_witness:
  "\<exists>as. events_ok sample_two as \<and> armed sample_two \<and> distinct (map (\<lambda>a. en_id (entry_at sample_two a)) as)
    \<and> (\<forall>a\<in>set as. en_id (entry_at sample_two a) < id_cnt sample_two)"
  by (rule events_memory_invariant [OF sample_reachable])

lemma remove_first_distinct:
  "distinct (map f xs) \<Longrightarrow> remove_first (\<lambda>x. f x = i) xs = filter (\<lambda>x. f x \<noteq> i) xs"
proof (induction xs)
  case (Cons a xs)
  have "filter (\<lambda>x. f x \<noteq> i) xs = xs" if "f a = i"
  proof -
    have "\<forall>x\<in>set xs. f x \<noteq> i" using Cons.prems that by (metis distinct.simps(2) image_eqI list.map(2) list.set_map)
    then show ?thesis by (simp add: filter_id_conv)
  qed
  then show ?case using Cons by auto
qed simp

text \<open>
  C17: \<^verbatim>\<open>events_cancel\<close> terminates in every reachable state; it reports success exactly when an event with the id
  is registered, and afterwards the registered events are those from before, in their order, without it.
\<close>
theorem events_cancel_spec:
  assumes "events_step\<^sup>*\<^sup>* EVENTS_CTX_INIT s" and "events_ok s as"
  shows "\<exists>s' as'. events_cancel null_ok i s =
      Some (Continue (s', if \<exists>a\<in>set as. en_id (entry_at s a) = i then EXIT_SUCCESS else EXIT_FAILURE))
    \<and> events_ok s' as' \<and> map (entry_at s') as' = filter (\<lambda>e. en_id e \<noteq> i) (map (entry_at s) as)"
proof -
  obtain as0 where "events_ok s as0" "distinct (map (\<lambda>a. en_id (entry_at s a)) as0)"
    using reachable_ids [OF assms(1)] by blast
  then have "distinct (map en_id (map (entry_at s) as))"
    using events_ok_unique [OF assms(2)] by (simp add: comp_def)
  from remove_first_distinct [OF this, of i] cancel_ok [OF assms(2), of null_ok i]
  show ?thesis by (auto simp: image_iff)
qed

theorem events_cancel_spec_witness:
  "\<exists>s' as'. events_cancel False 1 sample_two = Some (Continue (s', EXIT_SUCCESS)) \<and> events_ok s' as'
    \<and> map en_id (map (entry_at s') as') = [0]"
proof -
  have two: "en_id (entry_at sample_two 200) = 1" "en_id (entry_at sample_two 100) = 0"
    by (simp_all add: sample_two_def sample_one_def events_eval entry_at_def entry_of_def)
  obtain as where as: "events_ok sample_two as"
    using reachable_ids [OF sample_reachable] by blast
  have "chain (blocks sample_two) Head_link (lh_first sample_two) [200, 100]"
    by (simp add: sample_two_def sample_one_def events_eval)
  then have list: "as = [200, 100]"
    using as chain_unique by (metis events_ok_def linked_def)
  show ?thesis
    using events_cancel_spec [OF sample_reachable as, of False 1] two
    by (auto simp: list intro!: exI [of _ "[_]"])
qed

text \<open>
  C35: A registration without an event structure is undefined behaviour: when \<open>event_new\<close> fails, the error path of
  \<^verbatim>\<open>_events_schedule\<close> and of \<^verbatim>\<open>events_add_reader\<close> calls \<^verbatim>\<open>_destroy_events_event\<close>, which unlinks a block that was
  never linked and stores through its null \<open>le_prev\<close>; the return code EFAULT is never delivered. This holds
  whether or not libevent tolerates null pointers.
\<close>
theorem event_new_failure_faults:
  assumes "new_block env = Some a" and "new_event env = None"
  shows "events_schedule null_ok env f usr idp persistent s = Fault
    \<and> events_add_reader null_ok env fd f usr idp s = Fault"
  using failed_event_new [OF assms]
  by (simp add: events_schedule_eq events_add_reader_eq zero_event_def split: prod.split)

theorem event_new_failure_faults_witness:
  "events_schedule True \<lparr>new_block = Some 100, new_event = None, add_rc = 0\<rparr> (Some 1) None False False
     EVENTS_CTX_INIT = Fault"
  using event_new_failure_faults [of "\<lparr>new_block = Some 100, new_event = None, add_rc = 0\<rparr>" 100] by simp

text \<open>
  C37: A single shot with an id pointer is not a single shot: \<^verbatim>\<open>events_schedule_single_shot\<close> passes its arguments in
  the wrong order, so that a call with an id pointer registers a periodic event, with the continuous proxy
  and \<open>EV_PERSIST\<close>, and does not write the id.
\<close>
theorem single_shot_with_id_is_periodic:
  assumes "events_ok s as" and "new_block env = Some a" "new_event env = Some e" "add_rc env = 0"
    and "blocks s a = None" "lib s e = None"
  shows "\<exists>s' x. events_schedule_single_shot null_ok env f usr True s = Continue (s', 0, None)
    \<and> lib s' e = Some x \<and> lib_proxy x = Continuous_shot_proxy \<and> lib_flags x = EV_PERSIST
    \<and> events_ok s' (a # as) \<and> en_id (entry_at s' a) = id_cnt s"
  using register_ok [where init = "\<lambda>b. b\<lparr>cb := f, usr_data := usr\<rparr>" and idp = False, OF assms(1-3,5,6),
      of null_ok 0 EV_PERSIST Continuous_shot_proxy] assms(4)
  by (auto simp: schedule_defs zero_event_def entry_of_def)

theorem single_shot_with_id_is_periodic_witness:
  "\<exists>s' x. events_schedule_single_shot False (sample_env 100) (Some 1) None True EVENTS_CTX_INIT = Continue (s', 0, None)
    \<and> lib s' 101 = Some x \<and> lib_proxy x = Continuous_shot_proxy"
  using single_shot_with_id_is_periodic [of EVENTS_CTX_INIT "[]" "sample_env 100" 100 101 False "Some 1" None]
  by (auto simp: sample_env_def EVENTS_CTX_INIT_def events_ok_def linked_def)

lemma refused_register:
  assumes "events_ok s as" "fresh_env env s" "new_event env \<noteq> None" "new_block env = None \<or> add_rc env \<noteq> 0"
    and "le_prev (init zero_event) = None"
  shows "\<exists>s'. register_event null_ok env init fd flags proxy idp s =
      (if new_block env = None then Continue (s, ENOMEM, None)
       else Continue (s', EINVAL, if idp then Some (id_cnt s) else None))
    \<and> id_cnt s' = id_cnt s + 1
    \<and> events_ok s' as \<and> map (entry_at s') as = map (entry_at s) as \<and> lib s' = lib s"
proof (cases "new_block env")
  case None
  have "events_ok (s\<lparr>id_cnt := id_cnt s + 1\<rparr>) as" "\<And>c. entry_at (s\<lparr>id_cnt := id_cnt s + 1\<rparr>) c = entry_at s c"
    using assms(1) by (simp_all add: events_ok_def linked_def entry_at_def)
  then show ?thesis
    using None by (intro exI [of _ "s\<lparr>id_cnt := id_cnt s + 1\<rparr>"]) (simp add: register_event_def)
next
  case (Some a)
  obtain e where e: "new_event env = Some e" using assms(3) by auto
  have fresh: "blocks s a = None" "lib s e = None"
    using assms(2) Some e by (auto simp: fresh_env_def)
  show ?thesis
    using register_ok [where init = init and idp = idp, OF assms(1) Some e fresh assms(5), of null_ok fd flags proxy]
      assms(4) Some
    by (auto intro: map_entry_cong)
qed

text \<open>
  C36: A registration that is refused leaves no trace but the id, be it of a timer or of a reader: when \<open>calloc\<close>
  fails, \<^verbatim>\<open>_events_schedule\<close> and \<^verbatim>\<open>events_add_reader\<close> return ENOMEM and change nothing; when \<open>event_add\<close> fails, they
  return EINVAL, the id is used up, the registered events are as before and everything allocated is freed.
\<close>
theorem refused_registration_is_undone:
  assumes "events_ok s as" and "fresh_env env s" and "new_event env \<noteq> None"
    and "new_block env = None \<or> add_rc env \<noteq> 0"
  shows "\<forall>m \<in> {events_add_reader null_ok env fd f usr idp s, events_schedule null_ok env f usr idp persistent s}.
    \<exists>s'. m = (if new_block env = None then Continue (s, ENOMEM, None)
        else Continue (s', EINVAL, if idp then Some (id_cnt s) else None))
      \<and> id_cnt s' = id_cnt s + 1
      \<and> events_ok s' as \<and> map (entry_at s') as = map (entry_at s) as \<and> lib s' = lib s"
proof -
  note refused = refused_register [OF assms]
  show ?thesis
    using refused [of "\<lambda>b. b\<lparr>data_cb := f, usr_data := usr\<rparr>" null_ok fd "EV_READ OR EV_PERSIST" Reader_proxy idp]
      refused [of "\<lambda>b. b\<lparr>cb := f, usr_data := usr\<rparr>" null_ok 0 EV_PERSIST Continuous_shot_proxy idp]
      refused [of "\<lambda>b. b\<lparr>cb := f, usr_data := usr\<rparr>" null_ok 0 EV_TIMEOUT Single_shot_proxy idp]
    by (cases persistent) (simp_all add: events_add_reader_eq events_schedule_eq zero_event_def)
qed

theorem refused_registration_is_undone_witness:
  "\<exists>s' s''. events_add_reader False ((sample_env 100)\<lparr>add_rc := - 1\<rparr>) 4 (Some 2) None True EVENTS_CTX_INIT
      = Continue (s', EINVAL, Some 0) \<and> events_ok s' [] \<and> id_cnt s' = 1
    \<and> events_schedule False ((sample_env 100)\<lparr>add_rc := - 1\<rparr>) (Some 2) None True False EVENTS_CTX_INIT
      = Continue (s'', EINVAL, Some 0) \<and> events_ok s'' [] \<and> id_cnt s'' = 1"
  using refused_registration_is_undone [of EVENTS_CTX_INIT "[]" "(sample_env 100)\<lparr>add_rc := - 1\<rparr>" False 4 "Some 2" None True False]
  by (auto simp: sample_env_def EVENTS_CTX_INIT_def events_ok_def linked_def fresh_env_def)

end
