(* ===== verification/Event_Usage.thy ===== *)
theory Event_Usage
  imports Event_Registry
begin

text \<open>
  How the registry of \<^verbatim>\<open>src/events.c\<close> behaves for its users: which callback a fired event runs, that a single
  shot runs once, and what happens when two threads cancel the same event.
\<close>

section \<open>Fired events\<close>

text \<open>\<open>_events_finalize\<close>, the finalizer for a later version of libevent, is not used yet.\<close>

definition events_finalize :: "bool \<Rightarrow> addr \<Rightarrow> events_ctx \<Rightarrow> events_ctx outcome" where
  "events_finalize null_ok usr s = destroy_events_event null_ok usr s"

lemma entry_at_block:
  assumes "blocks s a = Some b" "ev b = Some e" "lib s e = Some x"
  shows "entry_at s a = entry_of b x"
  using assms by (simp add: entry_at_def Let_def)

text \<open>
  A reader is called back as registered: after a successful \<^verbatim>\<open>events_add_reader\<close>, libevent's readable event
  calls the registered function with the registered descriptor and user data, once, and nothing else happens
  to the registry; what the function itself does to it is the only effect.
\<close>
theorem reader_is_called:
  assumes "events_ok s as" and "fresh_env env s"
    and "new_block env = Some a" and "new_event env = Some e" and "add_rc env = 0"
  shows "\<exists>s'. events_add_reader null_ok env fd (Some f) usr idp s = Continue (s', 0, if idp then Some (id_cnt s) else None)
    \<and> events_ok s' (a # as) \<and> fire_event null_ok run e s' = run f (Some fd) usr s'"
proof -
  have fresh: "blocks s a = None" "lib s e = None"
    using assms(2-4) by (auto simp: fresh_env_def)
  let ?x = "\<lparr>lib_fd = fd, lib_flags = EV_READ OR EV_PERSIST, lib_proxy = Reader_proxy, lib_arg = a, lib_added = True\<rparr>"
  obtain s' where s': "events_add_reader null_ok env fd (Some f) usr idp s = Continue (s', 0, if idp then Some (id_cnt s) else None)"
      "events_ok s' (a # as)" "lib s' e = Some ?x" "en_data_cb (entry_at s' a) = Some f" "en_usr (entry_at s' a) = usr"
    using register_ok [where init = "\<lambda>b. b\<lparr>data_cb := Some f, usr_data := usr\<rparr>" and idp = idp,
        OF assms(1,3,4) fresh, of null_ok fd "EV_READ OR EV_PERSIST" Reader_proxy] assms(5)
    by (auto simp: events_add_reader_eq zero_event_def entry_of_def)
  obtain b where b: "blocks s' a = Some b" "ev b = Some e"
    using events_ok_lib [OF s'(2,3)] by auto
  have "data_cb b = Some f" "usr_data b = usr"
    using s'(4,5) entry_at_block [OF b s'(3)] by (simp_all add: entry_of_def)
  moreover have "(EV_READ OR EV_PERSIST) AND EV_PERSIST \<noteq> 0"
    by (simp add: EV_PERSIST_def EV_READ_def)
  ultimately have "fire_event null_ok run e s' = run f (Some fd) usr s'"
    using s'(3) b(1) by (simp add: fire_event_def event_reader_proxy_def)
  then show ?thesis using s' by blast
qed

theorem reader_is_called_witness:
  "\<exists>s'. events_add_reader False (sample_env 300) 4 (Some 2) (Some 9) True EVENTS_CTX_INIT = Continue (s', 0, Some 0)
    \<and> fire_event False (\<lambda>f fd usr s. if f = 2 \<and> fd = Some 4 \<and> usr = Some 9 then Continue s else Fault) 301 s'
      = Continue s'"
  using reader_is_called [of EVENTS_CTX_INIT "[]" "sample_env 300" 300 301 False 4 2 "Some 9" True
      "\<lambda>f fd usr s. if f = 2 \<and> fd = Some 4 \<and> usr = Some 9 then Continue s else Fault"]
  by (auto simp: sample_env_def EVENTS_CTX_INIT_def events_ok_def linked_def fresh_env_def)

text \<open>
  C31: A single shot that is registered without an id pointer fires once. When libevent fires it, its function is
  called exactly once, with its user data and with the event no longer armed, and the event is destroyed
  after that. Whatever the function does to the registry, as long as it leaves it well-formed and does not
  cancel this event: afterwards the registered events are those it has left, without this one, and the event
  structure is gone, so that it cannot fire again.
\<close>
theorem single_shot_fires_once:
  assumes "events_ok s as" and "fresh_env env s"
    and "new_block env = Some a" and "new_event env = Some e" and "add_rc env = 0"
  shows "\<exists>s' x s1. events_schedule_single_shot null_ok env (Some f) usr False s = Continue (s', 0, None)
    \<and> events_ok s' (a # as) \<and> map (entry_at s') as = map (entry_at s) as
    \<and> lib s' e = Some x \<and> s1 = s'\<lparr>lib := (lib s')(e \<mapsto> x\<lparr>lib_added := False\<rparr>)\<rparr>
    \<and> events_ok s1 (a # as) \<and> map (entry_at s1) as = map (entry_at s) as
    \<and> (\<forall>run. fire_event null_ok run e s' = and_then (run f None usr s1) (destroy_events_event null_ok a))
    \<and> (\<forall>run t bs b. run f None usr s1 = Continue t \<and> events_ok t bs \<and> blocks t a = Some b \<and> ev b = Some e \<longrightarrow>
        (\<exists>s''. fire_event null_ok run e s' = Continue s'' \<and> events_ok s'' (remove1 a bs)
          \<and> (\<forall>c\<in>set (remove1 a bs). entry_at s'' c = entry_at t c) \<and> blocks s'' a = None \<and> lib s'' e = None))"
proof -
  have fresh: "blocks s a = None" "lib s e = None"
    using assms(2-4) by (auto simp: fresh_env_def)
  let ?x = "\<lparr>lib_fd = 0, lib_flags = EV_TIMEOUT, lib_proxy = Single_shot_proxy, lib_arg = a, lib_added = True\<rparr>"
  obtain s' where s': "events_schedule_single_shot null_ok env (Some f) usr False s = Continue (s', 0, None)"
      "events_ok s' (a # as)" "lib s' e = Some ?x" "\<forall>c\<in>set as. entry_at s' c = entry_at s c"
      "en_cb (entry_at s' a) = Some f" "en_usr (entry_at s' a) = usr"
    using register_ok [where init = "\<lambda>b. b\<lparr>cb := Some f, usr_data := usr\<rparr>" and idp = False,
        OF assms(1,3,4) fresh, of null_ok 0 EV_TIMEOUT Single_shot_proxy] assms(5)
    by (auto simp: schedule_defs zero_event_def entry_of_def)
  obtain b where b: "blocks s' a = Some b" "ev b = Some e"
    using events_ok_lib [OF s'(2,3)] by auto
  have cb: "cb b = Some f" "usr_data b = usr"
    using s'(5,6) entry_at_block [OF b s'(3)] by (simp_all add: entry_of_def)
  define s1 where "s1 = s'\<lparr>lib := (lib s')(e \<mapsto> ?x\<lparr>lib_added := False\<rparr>)\<rparr>"
  have ok1: "events_ok s1 (a # as)" "\<And>c. entry_at s1 c = entry_at s' c"
    using events_ok_lib_added [OF s'(2,3), of False] by (simp_all add: s1_def)
  have b1: "blocks s1 a = Some b" using b(1) by (simp add: s1_def)
  have "EV_TIMEOUT AND EV_PERSIST = 0" by (simp add: EV_PERSIST_def EV_TIMEOUT_def)
  then have fire: "fire_event null_ok run e s' = and_then (run f None usr s1) (destroy_events_event null_ok a)" for run
    using s'(3) b1 cb by (simp add: fire_event_def event_single_shot_proxy_def s1_def)
  have after: "\<exists>s''. fire_event null_ok run e s' = Continue s'' \<and> events_ok s'' (remove1 a bs)
      \<and> (\<forall>c\<in>set (remove1 a bs). entry_at s'' c = entry_at t c) \<and> blocks s'' a = None \<and> lib s'' e = None"
    if t: "run f None usr s1 = Continue t" "events_ok t bs" "blocks t a = Some b'" "ev b' = Some e" for run t bs b'
  proof -
    have "a \<in> set bs" using t(2,3) by (auto simp: events_ok_def)
    then obtain xs ys where bs: "bs = xs @ a # ys" "a \<notin> set xs" by (meson split_list_first)
    then have rest: "remove1 a bs = xs @ ys" "a \<notin> set (xs @ ys)"
      using t(2) by (auto simp: remove1_append events_ok_def linked_def)
    obtain s'' where "destroy_events_event null_ok a t = Continue s''" "events_ok s'' (xs @ ys)"
        "\<forall>c\<in>set (xs @ ys). entry_at s'' c = entry_at t c" "lib s'' = (lib t)(e := None)"
      using destroy_ok [of t xs a ys null_ok] t(2-4) bs(1) by auto
    moreover from this(2) have "blocks s'' a = None"
      using rest(2) by (auto simp: events_ok_def)
    ultimately show ?thesis
      using rest(1) by (simp add: fire t(1))
  qed
  have "map (entry_at s') as = map (entry_at s) as" "map (entry_at s1) as = map (entry_at s) as"
    using s'(4) ok1(2) by simp_all
  then show ?thesis
    using s'(1-3) ok1(1) fire after s1_def by (intro exI [of _ s'] exI [of _ ?x] exI [of _ s1]) blast
qed

theorem single_shot_fires_once_witness:
  "\<exists>s' s''. events_schedule_single_shot False (sample_env 300) (Some 1) (Some 9) False EVENTS_CTX_INIT = Continue (s', 0, None)
    \<and> fire_event False (\<lambda>f fd usr s. if f = 1 \<and> fd = None \<and> usr = Some 9 then Continue s else Fault) 301 s' = Continue s''
    \<and> fire_event False (\<lambda>f fd usr s. Fault) 301 s' = Fault
    \<and> events_ok s'' [] \<and> lib s'' 301 = None"
proof -
  let ?run = "\<lambda>f fd usr s. if f = 1 \<and> fd = None \<and> usr = Some 9 then Continue s else Fault :: events_ctx outcome"
  have start: "events_ok EVENTS_CTX_INIT []" "fresh_env (sample_env 300) EVENTS_CTX_INIT"
    by (simp_all add: sample_env_def EVENTS_CTX_INIT_def events_ok_def linked_def fresh_env_def)
  have env: "new_block (sample_env 300) = Some 300" "new_event (sample_env 300) = Some 301" "add_rc (sample_env 300) = 0"
    by (simp_all add: sample_env_def)
  obtain s' x s1 where
    reg: "events_schedule_single_shot False (sample_env 300) (Some 1) (Some 9) False EVENTS_CTX_INIT = Continue (s', 0, None)"
    and lib: "lib s' 301 = Some x" and s1: "s1 = s'\<lparr>lib := (lib s')(301 \<mapsto> x\<lparr>lib_added := False\<rparr>)\<rparr>"
    and ok: "events_ok s1 [300]"
    and fire: "\<forall>run. fire_event False run 301 s' = and_then (run 1 None (Some 9) s1) (destroy_events_event False 300)"
    and after: "\<forall>run t bs b. run 1 None (Some 9) s1 = Continue t \<and> events_ok t bs \<and> blocks t 300 = Some b \<and> ev b = Some 301
      \<longrightarrow> (\<exists>s''. fire_event False run 301 s' = Continue s'' \<and> events_ok s'' (remove1 300 bs)
          \<and> (\<forall>c\<in>set (remove1 300 bs). entry_at s'' c = entry_at t c) \<and> blocks s'' 300 = None \<and> lib s'' 301 = None)"
    using single_shot_fires_once [OF start env, of False 1 "Some 9"] by (elim exE conjE) (rule that)
  have "lib s1 301 = Some (x\<lparr>lib_added := False\<rparr>)" by (simp add: s1)
  then obtain b where b: "blocks s1 (lib_arg (x\<lparr>lib_added := False\<rparr>)) = Some b" "ev b = Some 301"
    using events_ok_lib [OF ok] by blast
  then have "lib_arg (x\<lparr>lib_added := False\<rparr>) \<in> set [300]"
    using ok unfolding events_ok_def by blast
  then have "blocks s1 300 = Some b" using b(1) by simp
  moreover have "?run 1 None (Some 9) s1 = Continue s1" by simp
  ultimately obtain s'' where "fire_event False ?run 301 s' = Continue s''" "events_ok s'' (remove1 300 [300])"
      "lib s'' 301 = None"
    using after [rule_format, of ?run s1 "[300]" b] ok b(2) by blast
  moreover have "fire_event False (\<lambda>f fd usr s. Fault) 301 s' = Fault"
    by (simp only: fire [rule_format] and_then.simps)
  ultimately show ?thesis using reg by (intro exI [of _ s'] exI [of _ s'']) simp
qed


section \<open>Cancelling in two threads\<close>

text \<open>
  The part of \<open>events_cancel\<close> up to the release of the mutex; the event is destroyed afterwards. Between the
  two another thread may run.
\<close>

definition cancel_search :: "u64 \<Rightarrow> events_ctx \<Rightarrow> (events_ctx \<times> addr option) outcome option" where
  "cancel_search idp s =
    (case mutex_lock s of
       Continue s \<Rightarrow> do {
         found \<leftarrow> find_event (blocks s) idp (lh_first s);
         Some (and_then found (\<lambda>p. and_then (mutex_unlock s) (\<lambda>s. Continue (s, p))))
       }
     | _ \<Rightarrow> Some Fault)"

lemma events_cancel_two_parts:
  "events_cancel null_ok i s = map_option (\<lambda>m. and_then m (\<lambda>(s, p). case p of
      None \<Rightarrow> Continue (s, EXIT_FAILURE)
    | Some a \<Rightarrow> and_then (destroy_events_event null_ok a s) (\<lambda>s. Continue (s, EXIT_SUCCESS)))) (cancel_search i s)"
proof -
  have assoc: "and_then (and_then m f) g = and_then m (\<lambda>x. and_then (f x) g)" for m f g
    by (cases m) simp_all
  show ?thesis
    by (cases "mutex_lock s") (auto simp: events_cancel_def cancel_search_def assoc map_option_bind
        intro!: Option.bind_cong)
qed

lemma cancel_finds:
  assumes "events_ok s as" and "i \<in> (\<lambda>a. en_id (entry_at s a)) ` set as"
  shows "\<exists>a s'. a \<in> set as \<and> en_id (entry_at s a) = i \<and> cancel_search i s = Some (Continue (s, Some a))
    \<and> destroy_events_event null_ok a s = Continue s' \<and> blocks s' a = None"
proof -
  let ?P = "\<lambda>a. ev_id (the (blocks s a)) = i"
  have unlocked: "\<not> mtx_locked s" using assms(1) by (simp add: events_ok_def)
  then have same: "s\<lparr>mtx_locked := False\<rparr> = s" by (cases s) simp
  have found: "find_event (blocks s) i (lh_first s) = Some (Continue (find ?P as))"
    using assms(1) by (auto simp: events_ok_def linked_def intro: find_event_chain)
  obtain a where a: "find ?P as = Some a"
    using assms(2) by (cases "find ?P as") (auto simp: find_None_iff entry_id)
  then have mem: "a \<in> set as" "?P a" by (auto simp: find_Some_iff)
  then obtain xs ys where split: "as = xs @ a # ys" by (meson split_list)
  obtain s' where s': "destroy_events_event null_ok a s = Continue s'" "events_ok s' (xs @ ys)"
    using destroy_ok [of s xs a ys null_ok] assms(1) split by auto
  have "a \<notin> set (xs @ ys)"
    using assms(1) split by (auto simp: events_ok_def linked_def)
  then have "blocks s' a = None"
    using s'(2) by (auto simp: events_ok_def)
  moreover have "cancel_search i s = Some (Continue (s, Some a))"
    using unlocked found a by (simp add: cancel_search_def mutex_lock_def mutex_unlock_def same)
  ultimately show ?thesis using s'(1) mem by (auto simp: entry_id)
qed

text \<open>
  C33: Cancelling the same event in two threads is undefined behaviour. The mutex is released before the found
  event is destroyed, so both threads can find it; the first destroys it and the second then uses the freed
  block.
\<close>
theorem concurrent_cancel_faults:
  assumes "events_ok s as" and "i \<in> (\<lambda>a. en_id (entry_at s a)) ` set as"
  shows "\<exists>a s'. cancel_search i s = Some (Continue (s, Some a))
    \<and> destroy_events_event null_ok a s = Continue s'
    \<and> destroy_events_event null_ok a s' = Fault"
  using cancel_finds [OF assms, of null_ok] by (auto simp: destroy_events_event_def)

theorem concurrent_cancel_faults_witness:
  "\<exists>a s'. cancel_search 1 sample_two = Some (Continue (sample_two, Some a))
    \<and> destroy_events_event False a sample_two = Continue s' \<and> destroy_events_event False a s' = Fault"
proof -
  obtain as where as: "events_ok sample_two as"
    using reachable_ids [OF sample_reachable] by blast
  have "chain (blocks sample_two) Head_link (lh_first sample_two) [200, 100]"
    by (simp add: sample_two_def sample_one_def events_eval)
  then have "as = [200, 100]"
    using as chain_unique by (metis events_ok_def linked_def)
  moreover have "en_id (entry_at sample_two 200) = 1"
    by (simp add: sample_two_def sample_one_def events_eval entry_at_def entry_of_def)
  ultimately show ?thesis
    using concurrent_cancel_faults [OF as, of 1 False] by (metis image_eqI list.set_intros(1))
qed


section \<open>Cancelling from a callback\<close>

text \<open>A callback that calls \<open>events_cancel\<close>.\<close>

definition cancelling :: "bool \<Rightarrow> u64 \<Rightarrow> user_code" where
  "cancelling null_ok i = (\<lambda>f fd usr s. case events_cancel null_ok i s of
       None \<Rightarrow> Fault
     | Some m \<Rightarrow> and_then m (\<lambda>(s, rc). Continue s))"

text \<open>
  C34: A single shot must not cancel itself. The proxy destroys the event after the callback has returned; when
  the callback has cancelled the event, the proxy uses the freed block.
\<close>
theorem self_cancel_faults:
  assumes "events_step\<^sup>*\<^sup>* EVENTS_CTX_INIT s"
    and "lib s e = Some x" and "lib_proxy x = Single_shot_proxy" and "blocks s (lib_arg x) = Some b"
  shows "fire_event null_ok (cancelling null_ok (ev_id b)) e s = Fault"
proof -
  let ?a = "lib_arg x"
  let ?s = "s\<lparr>lib := (lib s)(e \<mapsto> x\<lparr>lib_added := False\<rparr>)\<rparr>"
  obtain as where as: "events_ok s as" "armed s" "distinct (map (\<lambda>a. en_id (entry_at s a)) as)"
    using reachable_ids [OF assms(1)] by blast
  have ok: "events_ok ?s as" "\<And>c. entry_at ?s c = entry_at s c"
    using events_ok_lib_added [OF as(1) assms(2), of False] by simp_all
  have a: "?a \<in> set as" "en_id (entry_at s ?a) = ev_id b"
    using as(1) assms(4) by (auto simp: events_ok_def entry_id)
  then have "ev_id b \<in> (\<lambda>a. en_id (entry_at ?s a)) ` set as"
    unfolding ok(2) by force
  from cancel_finds [OF ok(1) this, of null_ok] obtain a s' where s': "a \<in> set as" "en_id (entry_at s a) = ev_id b"
      "cancel_search (ev_id b) ?s = Some (Continue (?s, Some a))" "destroy_events_event null_ok a ?s = Continue s'"
      "blocks s' a = None"
    unfolding ok(2) by blast
  have "a = ?a"
    using as(3) a s'(1,2) by (auto simp: distinct_map inj_on_def)
  moreover have "events_cancel null_ok (ev_id b) ?s = Some (Continue (s', EXIT_SUCCESS))"
    by (simp add: events_cancel_two_parts s'(3,4))
  moreover have "lib_flags x AND EV_PERSIST = 0"
    using as(2) assms(2,3) by (auto simp: armed_def ran_def)
  ultimately show ?thesis
    using assms(2-4) s'(5)
    by (cases "cb b") (simp_all add: fire_event_def event_single_shot_proxy_def cancelling_def destroy_events_event_def)
qed

theorem self_cancel_faults_witness:
  "\<exists>x b. lib sample_one 101 = Some x \<and> blocks sample_one (lib_arg x) = Some b
    \<and> fire_event False (cancelling False (ev_id b)) 101 sample_one = Fault"
proof -
  obtain x b where x: "lib sample_one 101 = Some x" "lib_proxy x = Single_shot_proxy" "blocks sample_one (lib_arg x) = Some b"
    by (simp add: sample_one_def events_eval)
  then show ?thesis
    using self_cancel_faults [OF sample_one_reachable x, of False] by blast
qed


section \<open>Readers\<close>

text \<open>The steps other than a cancellation with the id.\<close>

definition step_without_cancel :: "u64 \<Rightarrow> events_ctx \<Rightarrow> events_ctx \<Rightarrow> bool" where
  "step_without_cancel i s s' \<longleftrightarrow> events_step s s' \<and> (\<forall>null_ok rc. events_cancel null_ok i s \<noteq> Some (Continue (s', rc)))"

lemma entry_survives:
  assumes "(step_without_cancel i)\<^sup>*\<^sup>* s t" and "events_rep s r" "en \<in> set (entries r)"
    and "en_id en = i" "en_proxy en \<noteq> Single_shot_proxy"
  shows "\<exists>r'. events_rep t r' \<and> en \<in> set (entries r')"
  using assms(1)
proof (induction rule: rtranclp_induct)
  case base
  then show ?case using assms by blast
next
  case (step t t')
  then obtain r' where "events_rep t r'" "{en} \<subseteq> set (entries r')" by blast
  then show ?case
    using step_simulates [of t r' t' i "{en}"] step.hyps(2) assms(4,5) by (auto simp: step_without_cancel_def)
qed

lemma reader_entry_fires:
  assumes "events_rep t r" "en \<in> set (entries r)" "en_proxy en = Reader_proxy" "en_data_cb en = Some f"
  shows "\<exists>e x. lib t e = Some x \<and> lib_added x
    \<and> (\<forall>null_ok run. fire_event null_ok run e t = run f (Some (en_fd en)) (en_usr en) t)"
proof -
  obtain as where as: "events_ok t as" "armed t" "entries r = map (entry_at t) as"
    using assms(1) by (auto simp: events_rep_def)
  then obtain a where a: "a \<in> set as" "en = entry_at t a"
    using assms(2) by auto
  obtain b where b: "blocks t a = Some b" using events_ok_dom [OF as(1) a(1)] .
  obtain e x where e: "ev b = Some e" "lib t e = Some x" "lib_arg x = a" using events_ok_block [OF as(1) b] .
  have en: "en = entry_of b x" using a(2) entry_at_block [OF b e(1,2)] by simp
  have "lib_added x" "lib_flags x AND EV_PERSIST \<noteq> 0"
    using as(2) e(2) assms(3) en by (auto simp: armed_def ran_def entry_of_def)
  moreover from this have "fire_event null_ok run e t = run f (Some (en_fd en)) (en_usr en) t" for null_ok run
    using assms(3,4) e b en by (simp add: fire_event_def event_reader_proxy_def entry_of_def)
  ultimately show ?thesis using e(2) by blast
qed

text \<open>
  C20: A reader is called back as registered for as long as it is registered. After \<^verbatim>\<open>events_add_reader\<close> has
  returned 0, and whatever is registered, cancelled and fired afterwards, libevent holds an added event structure
  for it until \<^verbatim>\<open>events_cancel\<close> is called with its id; when that fires, the registered function is called, once, with
  the registered descriptor and user data, and what it does to the registry is the only effect.
\<close>
theorem reader_stays_registered:
  assumes "events_step\<^sup>*\<^sup>* EVENTS_CTX_INIT s" and "fresh_env env s" and "id_cnt s \<noteq> - 1"
    and "events_add_reader null_ok env fd (Some f) usr idp s = Continue (s', 0, out)"
    and "(step_without_cancel (id_cnt s))\<^sup>*\<^sup>* s' t"
  shows "\<exists>e x. lib t e = Some x \<and> lib_added x
    \<and> (\<forall>null_ok run. fire_event null_ok run e t = run f (Some fd) usr t)"
proof -
  obtain r0 where r0: "events_rep s r0"
    using event_registry.reachable [OF assms(1) events_rep_init] by blast
  then obtain as where as: "events_ok s as" "armed s" by (auto simp: events_rep_def)
  obtain r' where r': "events_rep s' r'"
    using event_registry.simulates [OF r0 events_step.reader [OF assms(2-4)]] by blast
  obtain a e where env: "new_block env = Some a" "new_event env = Some e"
    using assms(4) failed_event_new [of env _ "\<lambda>b. b\<lparr>data_cb := Some f, usr_data := usr\<rparr>"]
    by (cases "new_block env"; cases "new_event env")
      (auto simp: events_add_reader_eq zero_event_def register_event_def ENOMEM_def)
  have fresh: "blocks s a = None" "lib s e = None"
    using assms(2) env by (auto simp: fresh_env_def)
  have added: "add_rc env = 0 \<and> events_ok s' (a # as) \<and> en_id (entry_at s' a) = id_cnt s
      \<and> en_proxy (entry_at s' a) = Reader_proxy \<and> en_fd (entry_at s' a) = fd \<and> en_data_cb (entry_at s' a) = Some f
      \<and> en_usr (entry_at s' a) = usr"
    using register_ok [where init = "\<lambda>b. b\<lparr>data_cb := Some f, usr_data := usr\<rparr>" and idp = idp,
        OF as(1) env fresh, of null_ok fd "EV_READ OR EV_PERSIST" Reader_proxy] assms(4)
    by (auto simp: events_add_reader_eq zero_event_def entry_of_def EINVAL_def split: if_splits)
  obtain as' where "events_ok s' as'" "entries r' = map (entry_at s') as'"
    using r' by (auto simp: events_rep_def)
  moreover from this have "set as' = set (a # as)"
    using added by (simp add: events_ok_def)
  ultimately have "entry_at s' a \<in> set (entries r')" by simp
  from entry_survives [OF assms(5) r' this] added obtain rt where "events_rep t rt" "entry_at s' a \<in> set (entries rt)"
    by auto
  from reader_entry_fires [OF this] added show ?thesis by simp
qed

text \<open>A periodic event registered after the reader.\<close>

definition sample_three :: events_ctx where
  "sample_three = result_of (events_schedule_periodic False (sample_env 300) (Some 1) None False sample_two)"

lemma sample_two_fields: "blocks sample_two a = None \<longleftrightarrow> a \<noteq> 100 \<and> a \<noteq> 200" "lib sample_two e = None \<longleftrightarrow> e \<noteq> 101 \<and> e \<noteq> 201"
    "id_cnt sample_two = 2"
  by (auto simp: sample_two_def sample_one_def events_eval)

lemma sample_three_run:
  "\<exists>out. events_schedule_periodic False (sample_env 300) (Some 1) None False sample_two = Continue (sample_three, 0, out)"
  unfolding sample_three_def sample_two_def sample_one_def by (simp add: events_eval)

lemma sample_three_step: "step_without_cancel 1 sample_two sample_three"
proof -
  obtain out where run: "events_schedule_periodic False (sample_env 300) (Some 1) None False sample_two
      = Continue (sample_three, 0, out)"
    using sample_three_run by blast
  have "id_cnt sample_three = 3"
    unfolding sample_three_def sample_two_def sample_one_def by (simp add: events_eval)
  moreover obtain as where "events_ok sample_two as" using reachable_ids [OF sample_reachable] by blast
  then have "id_cnt s' = 2" if "events_cancel null_ok 1 sample_two = Some (Continue (s', rc))" for null_ok rc s'
    using that cancel_ok [of sample_two as null_ok 1] sample_two_fields(3) by auto
  ultimately have "events_cancel null_ok 1 sample_two \<noteq> Some (Continue (sample_three, rc))" for null_ok rc
    by fastforce
  moreover have "events_step sample_two sample_three"
    by (rule events_step.periodic [OF _ _ run]) (simp_all add: fresh_env_def sample_env_def sample_two_fields)
  ultimately show ?thesis by (simp add: step_without_cancel_def)
qed

theorem reader_stays_registered_witness:
  "\<exists>e x. lib sample_three e = Some x \<and> lib_added x
    \<and> (\<forall>null_ok run. fire_event null_ok run e sample_three = run 2 (Some 4) None sample_three)"
proof -
  have id: "id_cnt sample_one = 1" by (rule sample_one_fields)
  have "(step_without_cancel (id_cnt sample_one))\<^sup>*\<^sup>* sample_two sample_three"
    unfolding id using sample_three_step by blast
  then show ?thesis
    by (intro reader_stays_registered [OF sample_one_reachable _ _ sample_two_run])
      (simp_all add: fresh_env_def sample_env_def sample_one_fields)
qed

end
