(* ===== verification/Event_Loop.thy ===== *)
theory Event_Loop
  imports Event_Registry
begin

text \<open>
  \<^verbatim>\<open>events_setup\<close> and \<^verbatim>\<open>events_teardown\<close>: the life of the event handler around the registry. The calls to the C
  library, libevent and the thread library are recorded with their answers, which are arbitrary and may
  depend on the calls before.
\<close>

section \<open>The functions\<close>

datatype loop_call =
    Calloc_ctx
  | Evthread_use_pthreads
  | Event_base_new
  | Timer_event_new
  | Timer_event_add
  | Pthread_create
  | Timer_event_del
  | Event_base_loopbreak
  | Pthread_cancel
  | Pthread_join
  | Event_base_free
  | Mutex_destroy
  | Free_ctx

type_synonym loop_trace = "(loop_call \<times> int) list"
type_synonym loop_os = "loop_trace \<Rightarrow> loop_call \<Rightarrow> int"

definition loop_request :: "loop_os \<Rightarrow> loop_call \<Rightarrow> (loop_trace, int) state" where
  "loop_request os c = State (\<lambda>tr. (os tr c, tr @ [(c, os tr c)]))"

text \<open>
  Allocating calls answer 0 for a null pointer. The timer's callback \<open>_nop\<close> does nothing, so that the timer's
  firing is no step of the registry; the thread runs \<open>event_base_loop\<close>, whose calls of the proxies are the
  steps \<open>fire\<close> of \<^theory_text>\<open>Event_Registry\<close>.
\<close>

definition events_setup :: "loop_os \<Rightarrow> (loop_trace, events_ctx option) state" where
  "events_setup os = do {
     ctx \<leftarrow> loop_request os Calloc_ctx;
     if ctx = 0 then State_Monad.return None
     else do {
       loop_request os Evthread_use_pthreads;
       base \<leftarrow> loop_request os Event_base_new;
       if base = 0 then do {
         loop_request os Free_ctx;
         State_Monad.return None
       }
       else do {
         timer \<leftarrow> loop_request os Timer_event_new;
         if timer = 0 then do {
           loop_request os Event_base_free;
           loop_request os Free_ctx;
           State_Monad.return None
         }
         else do {
           loop_request os Timer_event_add;
           rc \<leftarrow> loop_request os Pthread_create;
           if rc \<noteq> 0 then do {
             loop_request os Timer_event_del;
             loop_request os Event_base_free;
             loop_request os Free_ctx;
             State_Monad.return None
           }
           else State_Monad.return (Some EVENTS_CTX_INIT)
         }
       }
     }
   }"

definition events_teardown ::
  "bool \<Rightarrow> loop_os \<Rightarrow> events_ctx \<Rightarrow> (loop_trace, events_ctx outcome option) state" where
  "events_teardown null_ok os ctx = do {
     loop_request os Event_base_loopbreak;
     loop_request os Pthread_cancel;
     loop_request os Pthread_join;
     (case destroy_all null_ok ctx of
        Some (Continue ctx) \<Rightarrow> do {
          loop_request os Event_base_free;
          loop_request os Mutex_destroy;
          loop_request os Free_ctx;
          State_Monad.return (Some (Continue ctx))
        }
      | m \<Rightarrow> State_Monad.return m)
   }"


section \<open>Resources\<close>

datatype loop_resource = Ctx_block | Event_base | Timer_event | Event_thread

definition take_resource :: "loop_resource \<Rightarrow> loop_resource multiset \<Rightarrow> loop_resource multiset option" where
  "take_resource r held = (if r \<in># held then Some (held - {#r#}) else None)"

fun loop_account1 :: "loop_call \<times> int \<Rightarrow> loop_resource multiset \<Rightarrow> loop_resource multiset option" where
  "loop_account1 (Calloc_ctx, rc) held = Some (if rc = 0 then held else add_mset Ctx_block held)"
| "loop_account1 (Evthread_use_pthreads, rc) held = Some held"
| "loop_account1 (Event_base_new, rc) held = Some (if rc = 0 then held else add_mset Event_base held)"
| "loop_account1 (Timer_event_new, rc) held =
     (if Event_base \<in># held then Some (if rc = 0 then held else add_mset Timer_event held) else None)"
| "loop_account1 (Timer_event_add, rc) held = (if Timer_event \<in># held then Some held else None)"
| "loop_account1 (Timer_event_del, rc) held = (if Timer_event \<in># held then Some held else None)"
| "loop_account1 (Pthread_create, rc) held = Some (if rc = 0 then add_mset Event_thread held else held)"
| "loop_account1 (Event_base_loopbreak, rc) held = (if Event_base \<in># held then Some held else None)"
| "loop_account1 (Pthread_cancel, rc) held = (if Event_thread \<in># held then Some held else None)"
| "loop_account1 (Pthread_join, rc) held = take_resource Event_thread held"
| "loop_account1 (Event_base_free, rc) held = take_resource Event_base held"
| "loop_account1 (Mutex_destroy, rc) held = (if Ctx_block \<in># held then Some held else None)"
| "loop_account1 (Free_ctx, rc) held = take_resource Ctx_block held"

fun loop_account :: "loop_trace \<Rightarrow> loop_resource multiset \<Rightarrow> loop_resource multiset option" where
  "loop_account [] held = Some held"
| "loop_account (c # tr) held = Option.bind (loop_account1 c held) (loop_account tr)"

lemma loop_account_append [simp]:
  "loop_account (tr @ tr') held = Option.bind (loop_account tr held) (loop_account tr')"
  by (induction tr arbitrary: held) (auto split: Option.bind_split)

lemma run_call [simp]: "run_state (loop_request os c) tr = (os tr c, tr @ [(c, os tr c)])"
  by (simp add: loop_request_def)

lemma setup_account:
  assumes "run_state (events_setup os) tr = (r, tr')" "loop_account tr held = Some h"
  shows "(r = None \<and> (loop_account tr' held = Some h \<or> loop_account tr' held = Some (add_mset Timer_event h)))
    \<or> (r = Some EVENTS_CTX_INIT \<and> loop_account tr' held = Some ({#Ctx_block, Event_base, Timer_event, Event_thread#} + h))"
  using assms by (auto simp: events_setup_def take_resource_def split: if_splits)

lemma teardown_account:
  assumes "events_ok ctx as" "loop_account tr held = Some ({#Ctx_block, Event_base, Event_thread#} + h)"
  shows "\<exists>ctx' tr'. run_state (events_teardown null_ok os ctx) tr = (Some (Continue ctx'), tr')
    \<and> events_ok ctx' [] \<and> loop_account tr' held = Some h"
proof -
  obtain ctx' where "destroy_all null_ok ctx = Some (Continue ctx')" "events_ok ctx' []"
    using destroy_all_ok [OF assms(1)] by blast
  then show ?thesis
    using assms(2) by (simp add: events_teardown_def take_resource_def)
qed

text \<open>
  Apart from the timer event, \<open>events_setup\<close> and \<open>events_teardown\<close> are a constructor and a destructor that
  release everything.
\<close>

definition held_without_timer :: "loop_trace \<Rightarrow> loop_resource multiset option" where
  "held_without_timer tr = map_option (filter_mset (\<lambda>r. r \<noteq> Timer_event)) (loop_account tr {#})"

lemma teardown_held:
  assumes "events_ok ctx as" "held_without_timer tr = Some ({#Ctx_block, Event_base, Event_thread#} + h)"
  shows "held_without_timer (snd (run_state (events_teardown null_ok os ctx) tr)) = Some h"
proof -
  obtain m where m: "loop_account tr {#} = Some m"
      "filter_mset (\<lambda>r. r \<noteq> Timer_event) m = {#Ctx_block, Event_base, Event_thread#} + h"
    using assms(2) by (auto simp: held_without_timer_def)
  define t where "t = filter_mset (\<lambda>r. r = Timer_event) m"
  have "m = filter_mset (\<lambda>r. r \<noteq> Timer_event) m + t"
    using multiset_partition [of m "\<lambda>r. r \<noteq> Timer_event"] by (simp add: t_def)
  then have "m = {#Ctx_block, Event_base, Event_thread#} + (h + t)"
    using m(2) by simp
  then obtain ctx' tr' where "run_state (events_teardown null_ok os ctx) tr = (Some (Continue ctx'), tr')"
      "loop_account tr' {#} = Some (h + t)"
    using teardown_account [OF assms(1), of tr "{#}" "h + t" null_ok os] m(1) by auto
  moreover have "filter_mset (\<lambda>r. r \<noteq> Timer_event) h = h"
  proof -
    have "Timer_event \<notin># {#Ctx_block, Event_base, Event_thread#} + h"
      unfolding m(2) [symmetric] by simp
    then show ?thesis by (auto simp: filter_mset_eq_conv)
  qed
  moreover have "filter_mset (\<lambda>r. r \<noteq> Timer_event) t = {#}"
    by (simp add: t_def multiset_eq_iff)
  ultimately show ?thesis by (simp add: held_without_timer_def)
qed

interpretation event_handler: lifecycle
  "run_state (events_setup os)" "\<lambda>ctx tr. snd (run_state (events_teardown null_ok os ctx) tr)"
  held_without_timer "\<lambda>_. {#Ctx_block, Event_base, Event_thread#}" "\<lambda>ctx. \<exists>as. events_ok ctx as"
  for os null_ok
proof
  fix tr tr' h
  assume "run_state (events_setup os) tr = (None, tr')" "held_without_timer tr = Some h"
  then show "held_without_timer tr' = Some h"
    using setup_account [of os tr None tr' "{#}"] by (auto simp: held_without_timer_def)
next
  fix tr tr' ctx h
  assume "run_state (events_setup os) tr = (Some ctx, tr')" "held_without_timer tr = Some h"
  then show "(\<exists>as. events_ok ctx as) \<and> held_without_timer tr' = Some ({#Ctx_block, Event_base, Event_thread#} + h)"
    using setup_account [of os tr "Some ctx" tr' "{#}"] events_rep_init
    by (auto simp: held_without_timer_def events_rep_def)
qed (use teardown_held in blast)


section \<open>Properties\<close>

text \<open>
  C19: The life of the event handler: after a successful \<^verbatim>\<open>events_setup\<close> and any sequence of registrations,
  cancellations and fired events, \<^verbatim>\<open>events_teardown\<close> terminates without a fault, destroys every registered event,
  joins the thread and frees the event base and the context. The event structure of the long running timer
  is the only thing left: neither function ever frees it.
\<close>
theorem events_session_leaves_timer:
  assumes "run_state (events_setup os) tr = (Some ctx, tr')" and "loop_account tr {#} = Some h"
    and "events_step\<^sup>*\<^sup>* ctx s"
  shows "\<exists>s' tr''. run_state (events_teardown null_ok os s) tr' = (Some (Continue s'), tr'')
    \<and> blocks s' = Map.empty \<and> lib s' = Map.empty \<and> loop_account tr'' {#} = Some (add_mset Timer_event h)"
proof -
  have ctx: "ctx = EVENTS_CTX_INIT" "loop_account tr' {#} = Some ({#Ctx_block, Event_base, Timer_event, Event_thread#} + h)"
    using setup_account [OF assms(1,2)] by auto
  obtain as where "events_ok s as"
    using reachable_ids assms(3) ctx(1) by blast
  from teardown_account [OF this, of tr' "{#}" "add_mset Timer_event h" null_ok os]
  show ?thesis
    using ctx(2) events_ok_empty by (auto simp: add_mset_commute)
qed

definition sample_loop_os :: loop_os where
  "sample_loop_os = (\<lambda>tr c. case c of Calloc_ctx \<Rightarrow> 4096 | Event_base_new \<Rightarrow> 8192 | Timer_event_new \<Rightarrow> 12288 | _ \<Rightarrow> 0)"

theorem events_session_leaves_timer_witness:
  "\<exists>tr s' tr''. run_state (events_setup sample_loop_os) [] = (Some EVENTS_CTX_INIT, tr)
    \<and> run_state (events_teardown False sample_loop_os sample_two) tr = (Some (Continue s'), tr'')
    \<and> blocks s' = Map.empty \<and> loop_account tr'' {#} = Some {#Timer_event#}"
proof -
  obtain tr where tr: "run_state (events_setup sample_loop_os) [] = (Some EVENTS_CTX_INIT, tr)"
    by (simp add: events_setup_def sample_loop_os_def)
  show ?thesis
    using tr events_session_leaves_timer [OF tr, of "{#}" sample_two False] sample_reachable by auto
qed

text \<open>
  Apart from that timer event, opening the event handler leaves nothing behind on any path: whatever the
  calls answer, a program that calls \<^verbatim>\<open>events_setup\<close> and, if that succeeds, \<^verbatim>\<open>events_teardown\<close> ends with the memory,
  event bases and threads it had before, and nothing is released twice or used after its release.
\<close>
theorem events_session_balanced:
  assumes "held_without_timer tr = Some h" and "run_state (events_setup os) tr = (r, tr')"
  shows "held_without_timer (case r of None \<Rightarrow> tr'
    | Some ctx \<Rightarrow> snd (run_state (events_teardown null_ok os ctx) tr')) = Some h"
  using event_handler.no_leak [where use = "\<lambda>ctx. ctx", OF assms] by simp

theorem events_session_balanced_witness:
  "held_without_timer (snd (run_state (events_teardown False sample_loop_os EVENTS_CTX_INIT)
     (snd (run_state (events_setup sample_loop_os) [])))) = Some {#}"
proof -
  obtain tr where tr: "run_state (events_setup sample_loop_os) [] = (Some EVENTS_CTX_INIT, tr)"
    by (simp add: events_setup_def sample_loop_os_def)
  show ?thesis
    using events_session_balanced [of "[]" "{#}", OF _ tr, of False] tr
    by (simp add: held_without_timer_def)
qed

end
