(* ===== verification/Program_Session.thy ===== *)
theory Program_Session
  imports Program Event_Usage Event_Loop
begin

text \<open>
  A program together with its event handler: \<open>events_setup\<close>, the registration of \<open>_handle_data\<close> for the socket, the
  run in which \<open>main\<close> works while the event thread calls \<open>_handle_data\<close> through the registry, and
  \<open>events_teardown\<close>. It is stated for any program; \<^verbatim>\<open>hpav-stats\<close> and \<^verbatim>\<open>hpav-discover\<close> are the instances.
  The last section has what every \<open>main\<close> does before and after its own work.
\<close>

section \<open>The reader of the socket\<close>

text \<open>The function \<open>_handle_data\<close> and the address of the application context.\<close>

definition handle_data_fn :: nat where "handle_data_fn = 1"
definition app_ctx_addr :: nat where "app_ctx_addr = 2"

text \<open>
  \<open>main\<close> passes its context and no id pointer, and does not look at the result.
\<close>

definition add_socket_reader :: "bool \<Rightarrow> events_env \<Rightarrow> net_ctx \<Rightarrow> events_ctx \<Rightarrow> events_ctx outcome" where
  "add_socket_reader null_ok env nctx s =
     and_then (events_add_reader null_ok env (sock nctx) (Some handle_data_fn) (Some app_ctx_addr) False s)
       (\<lambda>(s, rc, id). Continue s)"

text \<open>
  \<open>_handle_data\<close> does not use the registry. Calling anything else, or calling it with another descriptor than the
  socket or another pointer than the context, would be undefined.
\<close>

definition handle_data_code :: "net_ctx \<Rightarrow> user_code" where
  "handle_data_code nctx f fd usr s =
    (if f = handle_data_fn \<and> fd = Some (sock nctx) \<and> usr = Some app_ctx_addr then Continue s else Fault)"

text \<open>
  A run of the program with its registry: \<open>work\<close> are the steps of the two threads on what they have to do, and
  \<open>react\<close> is the reaction to a readable socket, which happens when libevent fires an added event whose proxy calls
  \<open>_handle_data\<close>.
\<close>

inductive session_step ::
  "('r \<Rightarrow> 'r \<Rightarrow> bool) \<Rightarrow> ('r \<Rightarrow> 'r \<Rightarrow> bool) \<Rightarrow> net_ctx \<Rightarrow> events_ctx \<times> 'r \<Rightarrow> events_ctx \<times> 'r \<Rightarrow> bool"
  for work react nctx where
  work: "work r r' \<Longrightarrow> session_step work react nctx (s, r) (s, r')"
| fire: "lib s e = Some x \<Longrightarrow> lib_added x \<Longrightarrow>
    fire_event null_ok (handle_data_code nctx) e s = Continue s' \<Longrightarrow> react r r' \<Longrightarrow>
    session_step work react nctx (s, r) (s', r')"

text \<open>All that is registered is \<open>_handle_data\<close> for the socket.\<close>

definition only_reader :: "net_ctx \<Rightarrow> events_ctx \<Rightarrow> bool" where
  "only_reader nctx s \<longleftrightarrow> armed s \<and> (\<exists>as. events_ok s as \<and> (\<forall>a\<in>set as.
     en_proxy (entry_at s a) = Reader_proxy \<and> en_fd (entry_at s a) = sock nctx
     \<and> en_data_cb (entry_at s a) = Some handle_data_fn \<and> en_usr (entry_at s a) = Some app_ctx_addr))"

lemma only_reader_fires:
  assumes "only_reader nctx s" "lib s e = Some x"
  shows "fire_event null_ok (handle_data_code nctx) e s = Continue s"
proof -
  obtain as where as: "armed s" "events_ok s as" "\<forall>a\<in>set as.
     en_proxy (entry_at s a) = Reader_proxy \<and> en_fd (entry_at s a) = sock nctx
     \<and> en_data_cb (entry_at s a) = Some handle_data_fn \<and> en_usr (entry_at s a) = Some app_ctx_addr"
    using assms(1) unfolding only_reader_def by blast
  obtain b where b: "blocks s (lib_arg x) = Some b" "ev b = Some e"
    using events_ok_lib [OF as(2) assms(2)] .
  then have "lib_arg x \<in> set as" using as(2) by (auto simp: events_ok_def)
  then have "lib_proxy x = Reader_proxy" "lib_fd x = sock nctx" "data_cb b = Some handle_data_fn"
      "usr_data b = Some app_ctx_addr"
    using as(3) entry_at_block [OF b assms(2)] by (auto simp: entry_of_def)
  moreover from this(1) have "lib_flags x AND EV_PERSIST \<noteq> 0"
    using as(1) assms(2) by (auto simp: armed_def ran_def)
  ultimately show ?thesis
    using assms(2) b(1) by (simp add: fire_event_def event_reader_proxy_def handle_data_code_def)
qed

lemma add_socket_reader_only:
  assumes "add_socket_reader null_ok env nctx EVENTS_CTX_INIT = Continue s"
  shows "only_reader nctx s"
    and "new_block env \<noteq> None \<Longrightarrow> add_rc env = 0 \<Longrightarrow> \<exists>e x. lib s e = Some x \<and> lib_added x"
    and "events_step\<^sup>*\<^sup>* EVENTS_CTX_INIT s"
proof -
  let ?s = EVENTS_CTX_INIT
  let ?init = "\<lambda>b. b\<lparr>data_cb := Some handle_data_fn, usr_data := Some app_ctx_addr\<rparr>"
  obtain rc out where run: "events_add_reader null_ok env (sock nctx) (Some handle_data_fn) (Some app_ctx_addr) False ?s
      = Continue (s, rc, out)"
    using assms by (auto simp: add_socket_reader_def)
  have fresh: "fresh_env env ?s" "id_cnt ?s \<noteq> - 1"
    by (simp_all add: fresh_env_def EVENTS_CTX_INIT_def)
  show "events_step\<^sup>*\<^sup>* ?s s"
    using events_step.reader [OF fresh run] by blast
  then obtain r where "events_rep s r"
    using event_registry.reachable [OF _ events_rep_init] by blast
  then have armed: "armed s" by (simp add: events_rep_def)
  have ok: "events_ok ?s []" by (simp add: events_ok_empty EVENTS_CTX_INIT_def)
  have "only_reader nctx s \<and> (new_block env \<noteq> None \<longrightarrow> add_rc env = 0 \<longrightarrow> (\<exists>e x. lib s e = Some x))"
  proof (cases "new_block env")
    case None
    then have "s = ?s" using run by (simp add: events_add_reader_eq register_event_def)
    then show ?thesis using None ok armed by (auto simp: only_reader_def)
  next
    case (Some a)
    then obtain e where e: "new_event env = Some e"
      using failed_event_new [of env a ?init] run
      by (cases "new_event env") (auto simp: events_add_reader_eq zero_event_def)
    have none: "blocks ?s a = None" "lib ?s e = None" by (simp_all add: EVENTS_CTX_INIT_def)
    show ?thesis
      using register_ok [where init = ?init and idp = False, OF ok Some e none, of null_ok "sock nctx"
          "EV_READ OR EV_PERSIST" Reader_proxy] run armed
      unfolding only_reader_def
      by (auto simp: events_add_reader_eq zero_event_def entry_of_def EVENTS_CTX_INIT_def split: if_splits)
  qed
  then show "only_reader nctx s"
    and "new_block env \<noteq> None \<Longrightarrow> add_rc env = 0 \<Longrightarrow> \<exists>e x. lib s e = Some x \<and> lib_added x"
    using armed by (auto simp: armed_def ran_def)
qed

text \<open>With that registry, the run of the program is one of its threads alone, and the registry stays as it is.\<close>

lemma session_refines:
  assumes "(session_step work react nctx)\<^sup>*\<^sup>* (s, r0) sr" "only_reader nctx s"
    and "\<And>r r'. work r r' \<Longrightarrow> step r r'" "\<And>r r'. react r r' \<Longrightarrow> step r r'"
  shows "fst sr = s \<and> step\<^sup>*\<^sup>* r0 (snd sr)"
  using assms(1)
proof (induction rule: rtranclp_induct)
  case base
  then show ?case by simp
next
  case (step sr sr')
  from step.hyps(2) show ?case
  proof cases
    case (work r r' s1)
    then show ?thesis using step.IH assms(3) by (auto intro: rtranclp.rtrancl_into_rtrancl)
  next
    case (fire s1 e x null_ok s2 r r')
    then have "s1 = s" "step\<^sup>*\<^sup>* r0 r" using step.IH by simp_all
    then show ?thesis
      using fire only_reader_fires [OF assms(2), of e x null_ok] assms(4) by (auto intro: rtranclp.rtrancl_into_rtrancl)
  qed
qed

text \<open>The whole session, from \<open>events_setup\<close> to \<open>events_teardown\<close>.\<close>

lemma session_ends:
  assumes "run_state (events_setup os) [] = (Some s0, tr)" and "add_socket_reader null_ok env nctx s0 = Continue s"
  shows "only_reader nctx s"
    and "\<exists>c' tr'. run_state (events_teardown null_ok' os s) tr = (Some (Continue c'), tr')
      \<and> loop_account tr' {#} = Some {#Timer_event#}"
proof -
  have s0: "s0 = EVENTS_CTX_INIT" "loop_account tr {#} = Some ({#Ctx_block, Event_base, Timer_event, Event_thread#} + {#})"
    using setup_account [OF assms(1), of "{#}"] by auto
  show "only_reader nctx s"
    using add_socket_reader_only(1) assms(2) s0(1) by blast
  obtain as where "events_ok s as"
    using add_socket_reader_only(3) assms(2) s0(1) reachable_ids by blast
  from teardown_account [OF this, of tr "{#}" "{#Timer_event#}" null_ok' os] s0(2)
  show "\<exists>c' tr'. run_state (events_teardown null_ok' os s) tr = (Some (Continue c'), tr')
      \<and> loop_account tr' {#} = Some {#Timer_event#}"
    by (auto simp: add_mset_commute)
qed



section \<open>The frame of main\<close>

text \<open>\<open>main\<close> starts the event handler, or prints a message and exits with status -1 (\<open>_PANIC\<close>).\<close>

definition open_handler :: "loop_os \<Rightarrow> (events_ctx \<times> loop_trace) outcome" where
  "open_handler los =
    (case run_state (events_setup los) [] of (None, tr) \<Rightarrow> Exit (- 1) | (Some ectx, tr) \<Rightarrow> Continue (ectx, tr))"

text \<open>
  The last two calls of \<open>main\<close>, \<open>events_teardown(ectx)\<close> and \<open>net_destroy(nctx)\<close>. A teardown that does not return is
  a fault as well.
\<close>

definition close_program ::
  "bool \<Rightarrow> net_os \<Rightarrow> loop_os \<Rightarrow> events_ctx \<times> loop_trace \<Rightarrow> net_ctx \<times> net_trace \<Rightarrow> (net_trace \<times> loop_trace) outcome" where
  "close_program null_ok os los = (\<lambda>(ectx, ltr) (nctx, ntr).
     (case run_state (events_teardown null_ok los ectx) ltr of
        (Some (Continue ectx), ltr) \<Rightarrow> Continue (snd (run_state (net_destroy os nctx) ntr), ltr)
      | _ \<Rightarrow> Fault))"

text \<open>
  How a \<open>main\<close> ends after its command line has been accepted. It exits with status -1 when the event handler cannot
  be started or the interface cannot be opened; the message for the latter prints the name, which is undefined
  when the array \<open>name\<close> has no terminator. It is undefined when \<open>reader_fault\<close> says so, and in every other case it
  ends regularly: what it did satisfies \<open>work\<close>, everything of \<^verbatim>\<open>net.c\<close> is released, and of \<^verbatim>\<open>events.c\<close> all but the
  timer's event structure.
\<close>

definition main_ends ::
  "net_os \<Rightarrow> loop_os \<Rightarrow> bool \<Rightarrow> string \<Rightarrow> (net_ctx \<Rightarrow> 'x action list \<Rightarrow> bool)
     \<Rightarrow> ('x action list \<times> net_trace \<times> loop_trace) outcome \<Rightarrow> bool" where
  "main_ends os los reader_fault name work result =
    (case run_state (events_setup los) [] of
       (None, _) \<Rightarrow> result = Exit (- 1)
     | (Some _, _) \<Rightarrow>
        (case run_state (net_create os (bounded_string name) IEEE1901_2010_ETHERTYPE) [] of
           (None, _) \<Rightarrow> result = (if CHR 0x00 \<in> set name then Exit (- 1) else Fault)
         | (Some nctx, _) \<Rightarrow>
             if reader_fault then result = Fault
             else \<exists>acts ntr ltr. result = Continue (acts, ntr, ltr) \<and> work nctx acts
               \<and> net_account ntr {#} = Some {#} \<and> loop_account ltr {#} = Some {#Timer_event#}))"

lemma add_socket_reader_cases:
  shows "new_block env \<noteq> None \<and> new_event env = None \<Longrightarrow> add_socket_reader null_ok env nctx EVENTS_CTX_INIT = Fault"
    and "\<not> (new_block env \<noteq> None \<and> new_event env = None) \<Longrightarrow>
      \<exists>s as. add_socket_reader null_ok env nctx EVENTS_CTX_INIT = Continue s \<and> events_ok s as"
proof -
  let ?s = EVENTS_CTX_INIT
  let ?init = "\<lambda>b. b\<lparr>data_cb := Some handle_data_fn, usr_data := Some app_ctx_addr\<rparr>"
  show "add_socket_reader null_ok env nctx ?s = Fault" if "new_block env \<noteq> None \<and> new_event env = None"
    using that failed_event_new [of env _ ?init]
    by (auto simp: add_socket_reader_def events_add_reader_eq zero_event_def)
  have ok: "events_ok ?s []" by (simp add: events_ok_empty EVENTS_CTX_INIT_def)
  have none: "blocks ?s a = None" "lib ?s e = None" for a e by (simp_all add: EVENTS_CTX_INIT_def)
  show "\<exists>s as. add_socket_reader null_ok env nctx ?s = Continue s \<and> events_ok s as"
    if env: "\<not> (new_block env \<noteq> None \<and> new_event env = None)"
  proof (cases "new_block env")
    case None
    then show ?thesis using ok by (auto simp: add_socket_reader_def events_add_reader_eq register_event_def)
  next
    case (Some a)
    then obtain e where e: "new_event env = Some e" using env by auto
    show ?thesis
      using register_ok [where init = ?init and idp = False, OF ok Some e none, of null_ok "sock nctx"
          "EV_READ OR EV_PERSIST" Reader_proxy]
      by (cases "add_rc env = 0") (auto simp: add_socket_reader_def events_add_reader_eq zero_event_def)
  qed
qed

lemma main_frame:
  assumes "\<And>name. 6 \<le> length (hwaddr os name)"
    and "\<And>nctx. reader_fault \<Longrightarrow> reader nctx EVENTS_CTX_INIT = Fault"
    and "\<And>nctx. \<not> reader_fault \<Longrightarrow> \<exists>s as. reader nctx EVENTS_CTX_INIT = Continue s \<and> events_ok s as"
    and "\<And>nctx. 6 \<le> length (sll_addr (if_cfg nctx)) \<Longrightarrow> \<exists>acts. requests nctx = Continue acts \<and> work nctx acts"
  shows "main_ends os los reader_fault name work
    (and_then (open_handler los) (\<lambda>(ectx, ltr).
     and_then (open_interface os name) (\<lambda>(nctx, ntr).
     and_then (reader nctx ectx) (\<lambda>ectx.
     and_then (requests nctx) (\<lambda>acts.
     and_then (close_program null_ok os los (ectx, ltr) (nctx, ntr)) (\<lambda>(ntr, ltr).
       Continue (acts, ntr, ltr)))))))"
proof (cases "fst (run_state (events_setup los) [])")
  case None
  then show ?thesis
    by (cases "run_state (events_setup los) []") (simp add: main_ends_def open_handler_def)
next
  case (Some s0)
  then obtain ltr where started: "run_state (events_setup los) [] = (Some s0, ltr)"
    by (metis prod.collapse)
  have s0: "s0 = EVENTS_CTX_INIT" "loop_account ltr {#} = Some ({#Ctx_block, Event_base, Timer_event, Event_thread#} + {#})"
    using setup_account [OF started, of "{#}"] by auto
  show ?thesis
  proof (cases "fst (run_state (net_create os (bounded_string name) IEEE1901_2010_ETHERTYPE) [])")
    case None
    then show ?thesis
      using started by (cases "run_state (net_create os (bounded_string name) IEEE1901_2010_ETHERTYPE) []")
        (simp add: main_ends_def open_handler_def open_interface_def c_string_def)
  next
    case (Some nctx)
    then obtain ntr where create: "run_state (net_create os (bounded_string name) IEEE1901_2010_ETHERTYPE) [] = (Some nctx, ntr)"
      by (metis prod.collapse)
    note opened = open_interface_opened [OF assms(1) create]
    show ?thesis
    proof (cases reader_fault)
      case True
      then show ?thesis
        using started create assms(2) by (simp add: main_ends_def open_handler_def open_interface_def s0(1))
    next
      case False
      then obtain s as where s: "reader nctx EVENTS_CTX_INIT = Continue s" "events_ok s as"
        using assms(3) by blast
      obtain acts where acts: "requests nctx = Continue acts" "work nctx acts"
        using assms(4) [OF opened(1)] by blast
      obtain c' ltr' where "run_state (events_teardown null_ok los s) ltr = (Some (Continue c'), ltr')"
          "loop_account ltr' {#} = Some {#Timer_event#}"
        using teardown_account [OF s(2), of ltr "{#}" "{#Timer_event#}" null_ok los] s0(2)
        by (auto simp: add_mset_commute)
      then show ?thesis
        using started create False s(1) acts opened(2)
        by (simp add: main_ends_def open_handler_def open_interface_def close_program_def s0(1))
    qed
  qed
qed


text \<open>With \<open>_handle_data\<close> for the socket as the reader, and for a program that registers nothing.\<close>

lemma main_frame_with_reader:
  assumes "\<And>name. 6 \<le> length (hwaddr os name)"
    and "\<And>nctx. 6 \<le> length (sll_addr (if_cfg nctx)) \<Longrightarrow> \<exists>acts. requests nctx = Continue acts \<and> work nctx acts"
  shows "main_ends os los (new_block env \<noteq> None \<and> new_event env = None) name work
    (and_then (open_handler los) (\<lambda>(ectx, ltr).
     and_then (open_interface os name) (\<lambda>(nctx, ntr).
     and_then (add_socket_reader null_ok env nctx ectx) (\<lambda>ectx.
     and_then (requests nctx) (\<lambda>acts.
     and_then (close_program null_ok os los (ectx, ltr) (nctx, ntr)) (\<lambda>(ntr, ltr).
       Continue (acts, ntr, ltr)))))))"
  by (rule main_frame [where reader = "add_socket_reader null_ok env", OF assms(1) _ _ assms(2)];
      (rule add_socket_reader_cases)?; assumption)

lemma main_frame_without_reader:
  assumes "\<And>name. 6 \<le> length (hwaddr os name)"
    and "\<And>nctx. 6 \<le> length (sll_addr (if_cfg nctx)) \<Longrightarrow> \<exists>acts. requests nctx = Continue acts \<and> work nctx acts"
  shows "main_ends os los False name work
    (and_then (open_handler los) (\<lambda>(ectx, ltr).
     and_then (open_interface os name) (\<lambda>(nctx, ntr).
     and_then (requests nctx) (\<lambda>acts.
     and_then (close_program null_ok os los (ectx, ltr) (nctx, ntr)) (\<lambda>(ntr, ltr).
       Continue (acts, ntr, ltr))))))"
proof -
  have "events_ok EVENTS_CTX_INIT []"
    by (simp add: events_ok_empty EVENTS_CTX_INIT_def)
  then have "\<exists>s as. Continue EVENTS_CTX_INIT = Continue s \<and> events_ok s as"
    by blast
  then show ?thesis
    using main_frame [where reader = "\<lambda>_. Continue" and reader_fault = False, OF assms(1) _ _ assms(2)]
    by simp
qed

end
