(* ===== verification/Hpav_Stats_Progress.thy ===== *)
theory Hpav_Stats_Progress
  imports Hpav_Stats Fair_Runs Program_Session
begin

text \<open>
  Progress of \<^verbatim>\<open>hpav-stats\<close>: \<open>main\<close> is a thread with a queue of actions in the sense of \<^theory_text>\<open>Fair_Runs\<close>, so that it
  gets all its requests sent however the event thread interferes. The last section puts the program together
  with its event handler.
\<close>

section \<open>main as a thread\<close>

definition stats_progress :: "u32 action list \<Rightarrow> stats_run \<Rightarrow> stats_run \<Rightarrow> bool" where
  "stats_progress acts s t \<longleftrightarrow> sent t = sent s @ frames acts"

interpretation stats_main_thread: fair_thread stats_step todo stats_progress
proof unfold_locales
  fix s s' a as
  assume "stats_step s s'" "todo s = a # as"
  then show "todo s' = todo s \<or> todo s' = as"
    by cases auto
next
  fix s s' t
  assume "stats_step s s'" "todo s \<noteq> []" "todo s' = todo s" "stats_progress (todo s) s' t"
  then show "stats_progress (todo s) s t"
    by cases (auto simp: stats_progress_def)
next
  fix s s' a as t
  assume "stats_step s s'" "todo s = a # as" "todo s' = as" "stats_progress as s' t"
  then show "stats_progress (a # as) s t"
    by cases (auto simp: stats_progress_def)
qed (simp add: stats_progress_def)

text \<open>The schedule in which only \<open>main\<close> runs.\<close>

definition main_next :: "stats_run \<Rightarrow> stats_run" where
  "main_next r = (case todo r of
       Send call # acts \<Rightarrow> r\<lparr>todo := acts, sent := sent r @ [wire_bytes call]\<rparr>
     | Usleep us # acts \<Rightarrow> r\<lparr>todo := acts\<rparr>
     | Assign t # acts \<Rightarrow> r\<lparr>todo := acts, app := (app r)\<lparr>link_stats_req_type := t\<rparr>\<rparr>
     | _ \<Rightarrow> r)"

lemma main_next_step: "stats_step r (main_next r) \<or> main_next r = r"
  by (auto simp: main_next_def intro: stats_step.intros split: list.split action.split)

lemma main_next_todo:
  assumes "\<forall>s. Print s \<notin> set (todo r)"
  shows "todo (main_next r) = tl (todo r)"
  using assms by (auto simp: main_next_def split: list.split action.split)

lemma only_main_run: "run_of stats_step (\<lambda>i. (main_next ^^ i) r)"
  using main_next_step by (simp add: run_of_def)

lemma only_main_fair:
  assumes "\<forall>s. Print s \<notin> set (todo r)"
  shows "fair todo (\<lambda>i. (main_next ^^ i) r)"
proof -
  have no_print: "\<forall>s. Print s \<notin> set (todo ((main_next ^^ i) r))" for i
  proof (induction i)
    case (Suc i)
    then show ?case
      using main_next_todo [OF Suc] list.set_sel(2) by (cases "todo ((main_next ^^ i) r)") auto
  qed (use assms in simp)
  have "todo ((main_next ^^ Suc i) r) \<noteq> todo ((main_next ^^ i) r)" if "todo ((main_next ^^ i) r) \<noteq> []" for i
    using that main_next_todo [OF no_print [of i]] by (cases "todo ((main_next ^^ i) r)") auto
  then show ?thesis
    unfolding fair_def by blast
qed


section \<open>Progress\<close>

text \<open>What \<^verbatim>\<open>main\<close> of \<^verbatim>\<open>hpav-stats\<close> puts on the wire, without the values of \<open>link_stats_req_type\<close>.\<close>

lemma frames_sent_with: "frames acts = map snd (sent_with t acts)"
  by (induction t acts rule: sent_with.induct) simp_all

text \<open>
  C9: \<^verbatim>\<open>hpav-stats\<close> gets its work done. In every run in which \<open>main\<close> and the event thread interleave, whatever
  frames arrive in between, \<open>main\<close> comes to its end if it is not put off for ever, and then the frames sent
  are those that the configuration asks for: each once, in their order, and no others.
\<close>
theorem stats_requests_are_sent:
  assumes "wf_stats_cnf cnf" and "6 \<le> length (sll_addr (if_cfg nctx))"
    and "stats_requests wr nctx cnf junk = Some (Continue acts)"
    and "run_of stats_step \<sigma>" and "\<sigma> 0 = stats_start t acts" and "fair todo \<sigma>"
  shows "\<exists>j. todo (\<sigma> j) = [] \<and> sent (\<sigma> j) = map snd (spec_stats_frames nctx cnf t)"
proof -
  have "sent_with t acts = spec_stats_frames nctx cnf t"
    using stats_requests_run [OF assms(1,2), of wr junk t] assms(3) by auto
  moreover obtain j where "todo (\<sigma> j) = []" "stats_progress (todo (\<sigma> 0)) (\<sigma> 0) (\<sigma> j)"
    using stats_main_thread.works_off [OF assms(4,6), of 0] by blast
  ultimately show ?thesis
    by (auto simp: stats_progress_def assms(5) stats_start_def frames_sent_with [of acts t])
qed

definition sample_network_cnf :: stats_cnf where
  "sample_network_cnf = default_stats_cnf\<lparr>if_name := strncpy ''eth0'' 16, req_what := 1\<rparr>"

lemma wf_sample_network_cnf: "wf_stats_cnf sample_network_cnf"
  by (simp add: wf_stats_cnf_def wf_cmd_cnf_def sample_network_cnf_def default_stats_cnf_def IF_NAMESIZE_def
      ETHERNET_BROADCAST_ADDRESS_def stats_constant_defs)

lemma sample_network_requests:
  "\<exists>call. stats_requests (\<lambda>_. 60) sample_nctx sample_network_cnf zero_request = Some (Continue [Send call, Usleep 1000000])"
proof -
  obtain call where "send_action (ieee1901_2010_message_send (\<lambda>_. 60) (sock sample_nctx) (oda sample_network_cnf)
      (sll_addr (if_cfg sample_nctx)) (hpav_ver sample_network_cnf) MM_TYPE_CM_NW_STATS MMOperationTypeRequest None 0)
      = Continue ([Send call] :: u32 action list)"
    using nw_stats_request_eq [OF wf_sample_network_cnf, of sample_nctx] by (auto simp: sample_nctx_def)
  then show ?thesis
    by (simp add: stats_requests_def append_actions_def sample_network_cnf_def default_stats_cnf_def stats_constant_defs)
qed

theorem stats_requests_are_sent_witness:
  "\<exists>\<sigma> j. run_of stats_step \<sigma> \<and> fair todo \<sigma> \<and> todo (\<sigma> j) = []
    \<and> sent (\<sigma> j) = [stats_frame sample_nctx sample_network_cnf 0x6048 []]"
proof -
  obtain call where call: "stats_requests (\<lambda>_. 60) sample_nctx sample_network_cnf zero_request
      = Some (Continue [Send call, Usleep 1000000])"
    using sample_network_requests by blast
  let ?r = "stats_start 0 [Send call, Usleep 1000000]"
  let ?\<sigma> = "\<lambda>i. (main_next ^^ i) ?r"
  have fair: "fair todo ?\<sigma>"
    by (rule only_main_fair) (simp add: stats_start_def)
  then have "\<exists>j. todo (?\<sigma> j) = [] \<and> sent (?\<sigma> j) = map snd (spec_stats_frames sample_nctx sample_network_cnf 0)"
    by (intro stats_requests_are_sent [OF wf_sample_network_cnf _ call only_main_run]) (simp_all add: sample_nctx_def)
  moreover have "map snd (spec_stats_frames sample_nctx sample_network_cnf 0)
      = [stats_frame sample_nctx sample_network_cnf 0x6048 []]"
    by (simp add: spec_stats_frames_def sample_network_cnf_def)
  ultimately show ?thesis
    using only_main_run [of ?r] fair by metis
qed


section \<open>With the event handler\<close>

text \<open>The steps of \<open>main\<close>, and the reaction of the event thread.\<close>

definition stats_work :: "stats_run \<Rightarrow> stats_run \<Rightarrow> bool" where
  "stats_work r r' \<longleftrightarrow> stats_step r r' \<and> length (todo r') < length (todo r)"

definition stats_react ::
  "(nat \<Rightarrow> int) \<Rightarrow> (stats_cb, unit) ieee1901_2010_ctx \<Rightarrow> stats_run \<Rightarrow> stats_run \<Rightarrow> bool" where
  "stats_react clock junk r r' \<longleftrightarrow> (\<exists>received a blocks. stats_on_readable clock junk received (app r) = Continue (a, blocks)
     \<and> r' = r\<lparr>app := a, printed := printed r @ blocks\<rparr>)"

lemma stats_steps_reachable: "stats_step\<^sup>*\<^sup>* r0 r \<Longrightarrow> stats_reachable r0 r"
  by (induction rule: rtranclp_induct) (auto intro: stats_reachable.intros)

text \<open>
  C5: \<^verbatim>\<open>hpav-stats\<close> with its event handler. After \<^verbatim>\<open>events_setup\<close> and the registration of \<^verbatim>\<open>_handle_data\<close>, in whatever
  way \<open>main\<close> and the events of the socket interleave: the run is one of the two threads as modelled above, every
  event that libevent can fire calls \<^verbatim>\<open>_handle_data\<close> with the socket and the context and leaves the registry as it
  is, the reaction to whatever is read has no undefined behaviour, and \<^verbatim>\<open>events_teardown\<close> at the end destroys the
  reader, joins the thread and releases the base and the context.
\<close>
theorem stats_session_safe:
  assumes "run_state (events_setup os) [] = (Some s0, tr)" and "add_socket_reader null_ok env nctx s0 = Continue s"
    and "(session_step stats_work (stats_react clock junk) nctx)\<^sup>*\<^sup>* (s, stats_start t acts) (c, r)"
  shows "stats_reachable (stats_start t acts) r
    \<and> (\<forall>e x. lib c e = Some x \<longrightarrow> fire_event null_ok (handle_data_code nctx) e c = Continue c)
    \<and> (\<forall>received. stats_on_readable clock junk received (app r) \<noteq> Fault)
    \<and> (\<exists>c' tr'. run_state (events_teardown null_ok os c) tr = (Some (Continue c'), tr')
        \<and> loop_account tr' {#} = Some {#Timer_event#})"
proof -
  note ends = session_ends [OF assms(1,2)]
  have "c = s \<and> stats_step\<^sup>*\<^sup>* (stats_start t acts) r"
    using session_refines [OF assms(3) ends(1), of stats_step]
    by (auto simp: stats_work_def stats_react_def intro: stats_step.readable)
  moreover have "stats_on_readable clock junk received (app r) \<noteq> Fault" for received
    using stats_on_readable_effect [of "app r" clock junk received] by (auto simp: ensures_def)
  ultimately show ?thesis
    using ends(2) only_reader_fires [OF ends(1)] stats_steps_reachable by blast
qed

theorem stats_session_safe_witness:
  "\<exists>s tr e x r. add_socket_reader False (sample_env 300) sample_nctx EVENTS_CTX_INIT = Continue s
    \<and> lib s e = Some x \<and> lib_added x \<and> todo r = [Usleep 7] \<and> stats_reachable (stats_start 0 [Usleep 5, Usleep 7]) r
    \<and> fire_event False (handle_data_code sample_nctx) e s = Continue s
    \<and> (\<exists>c' tr'. run_state (events_teardown False sample_loop_os s) tr = (Some (Continue c'), tr')
        \<and> loop_account tr' {#} = Some {#Timer_event#})"
proof -
  let ?step = "session_step stats_work (stats_react (\<lambda>_. 0) zero_ctx) sample_nctx"
  obtain tr where tr: "run_state (events_setup sample_loop_os) [] = (Some EVENTS_CTX_INIT, tr)"
    by (simp add: events_setup_def sample_loop_os_def)
  obtain s where s: "add_socket_reader False (sample_env 300) sample_nctx EVENTS_CTX_INIT = Continue s"
    by (simp add: add_socket_reader_def events_eval)
  obtain e x where e: "lib s e = Some x" "lib_added x"
    using add_socket_reader_only(2) [OF s] by (auto simp: sample_env_def)
  let ?r0 = "stats_start 0 [Usleep 5, Usleep 7]"
  let ?r1 = "?r0\<lparr>todo := [Usleep 7]\<rparr>"
  have "stats_step ?r0 ?r1"
    by (rule main_sleep) (simp add: stats_start_def)
  then have first: "?step (s, ?r0) (s, ?r1)"
    by (intro session_step.work) (simp add: stats_work_def stats_start_def)
  have "stats_on_readable (\<lambda>_. 0) zero_ctx None (app ?r1) = Continue (app ?r1, [])"
    using stats_ctx [of zero_ctx] by (auto simp: stats_on_readable_def handle_data_def)
  then have "stats_react (\<lambda>_. 0) zero_ctx ?r1 ?r1"
    unfolding stats_react_def by (intro exI conjI) (assumption, simp)
  with e have second: "?step (s, ?r1) (s, ?r1)"
    using only_reader_fires [OF add_socket_reader_only(1) [OF s] e(1), of False] by (intro session_step.fire)
  have "?step\<^sup>*\<^sup>* (s, ?r0) (s, ?r1)"
    using first second by (meson rtranclp.rtrancl_refl rtranclp.rtrancl_into_rtrancl)
  from stats_session_safe [OF tr s this] show ?thesis
    using s e by (intro exI [of _ s] exI [of _ tr] exI [of _ e] exI [of _ x] exI [of _ ?r1]) simp
qed

end
