(* ===== verification/Hpav_Discover_Options.thy ===== *)
theory Hpav_Discover_Options
  imports Program
begin

text \<open>
  The command line of \<^verbatim>\<open>bin/hpav-discover.c\<close>: the configuration, the option table and \<open>_parse_opt\<close>.
\<close>

section \<open>The configuration\<close>

record discover_cnf = cmd_cnf +
  discover_networks :: bool
  numeric_output :: bool

definition default_discover_cnf :: discover_cnf where
  "default_discover_cnf = \<lparr>
     if_name = replicate IF_NAMESIZE (CHR 0x00),
     oda = ETHERNET_BROADCAST_ADDRESS,
     hpav_ver = MM_APDU_MMV_1_1,
     discover_networks = True,
     numeric_output = False\<rparr>"


section \<open>The option parser\<close>

definition discover_cmd_options :: "argp_option list" where
  "discover_cmd_options =
    [(''broadcast'', CHR ''b'', None),
     (''localcast'', CHR ''l'', None),
     (''oda'', CHR ''d'', Some ''DST-MAC''),
     (''v1-0'', CHR ''0'', None),
     (''v1-1'', CHR ''1'', None),
     (''no-nwinfo'', CHR ''n'', None),
     (''numeric-output'', CHR ''N'', None)]"

definition discover_option :: "bool \<Rightarrow> char \<Rightarrow> string option \<Rightarrow> discover_cnf \<Rightarrow> discover_cnf outcome" where
  "discover_option mem key arg cnf =
    (if key = CHR ''b'' then Continue (cnf\<lparr>oda := ETHERNET_BROADCAST_ADDRESS\<rparr>)
     else if key = CHR ''l'' then Continue (cnf\<lparr>oda := QUALCOMM_ATHEROS_LOCAL_MANAGEMENT_ADDRESS\<rparr>)
     else if key = CHR ''0'' then Continue (cnf\<lparr>hpav_ver := MM_APDU_MMV_1_0\<rparr>)
     else if key = CHR ''1'' then Continue (cnf\<lparr>hpav_ver := MM_APDU_MMV_1_1\<rparr>)
     else if key = CHR ''d'' then
       (let (rc, mac) = hpav_parse_mac mem (oda cnf) arg
        in if rc \<noteq> EXIT_SUCCESS then argp_usage else Continue (cnf\<lparr>oda := mac\<rparr>))
     else if key = CHR ''n'' then Continue (cnf\<lparr>discover_networks := False\<rparr>)
     else if key = CHR ''N'' then Continue (cnf\<lparr>numeric_output := True\<rparr>)
     else Continue cnf)"

definition discover_parse_opt :: "discover_cnf argp_parser" where
  "discover_parse_opt mem key arg arg_num cnf =
    (case key of Key c \<Rightarrow> discover_option mem c arg cnf
     | ARGP_KEY_ARG \<Rightarrow>
         if arg_num > 0 then argp_usage
         else (case arg of None \<Rightarrow> Fault
           | Some arg \<Rightarrow> Continue (cnf\<lparr>if_name := strncpy arg IF_NAMESIZE\<rparr>))
     | ARGP_KEY_END \<Rightarrow> if arg_num \<noteq> 1 then argp_usage else Continue cnf)"

definition discover_command_line :: "(nat \<Rightarrow> bool) \<Rightarrow> argp_item list \<Rightarrow> discover_cnf outcome" where
  "discover_command_line mem items = argp_parse discover_parse_opt mem 0 items default_discover_cnf"


section \<open>The contract of the parser\<close>

lemma discover_parse_opt_simps [simp]:
  "discover_parse_opt mem (Key c) arg n cnf = discover_option mem c arg cnf"
  "discover_parse_opt mem ARGP_KEY_ARG (Some b) n cnf =
    (if n = 0 then Continue (cnf\<lparr>if_name := strncpy b 16\<rparr>) else Exit EX_USAGE)"
  "discover_parse_opt mem ARGP_KEY_ARG None n cnf = (if n = 0 then Fault else Exit EX_USAGE)"
  "discover_parse_opt mem ARGP_KEY_END arg n cnf = (if n = 1 then Continue cnf else Exit EX_USAGE)"
  by (simp_all add: discover_parse_opt_def argp_usage_def IF_NAMESIZE_def)

lemma discover_option_ensures:
  assumes "wf_cmd_cnf cnf"
  shows "ensures False wf_cmd_cnf (discover_option mem key arg cnf)"
  using assms unfolding discover_option_def Let_def
  by (intro ensures_rules)
    (simp_all add: wf_cmd_cnf_def ETHERNET_BROADCAST_ADDRESS_def QUALCOMM_ATHEROS_LOCAL_MANAGEMENT_ADDRESS_def)

lemma discover_option_if_name:
  "ensures False (\<lambda>cnf'. if_name cnf' = if_name cnf) (discover_option mem key arg cnf)"
  unfolding discover_option_def Let_def by (intro ensures_rules) simp_all

interpretation discover_cmd: argp_client discover_parse_opt discover_cmd_options wf_cmd_cnf if_name
proof (unfold_locales, goal_cases)
  case (1 s ok k a n s')
  show ?case
  proof (cases k)
    case (Key c)
    then show ?thesis
      using 1 ensuresD [OF discover_option_ensures [OF 1(1)]] by simp
  next
    case ARGP_KEY_ARG
    then show ?thesis
      using 1 by (cases a) (auto simp: wf_cmd_cnf_def split: if_splits)
  next
    case ARGP_KEY_END
    then show ?thesis
      using 1 by (simp split: if_splits)
  qed
next
  case (2 s c a ok n)
  then show ?case
    using ensures_not_Fault [OF discover_option_ensures [of s ok c a]] by simp
next
  case (3 ok c a n s s')
  then show ?case
    using ensuresD [OF discover_option_if_name] by simp
qed (auto split: if_splits)


section \<open>Properties\<close>

lemma wf_default_discover_cnf: "wf_cmd_cnf default_discover_cnf"
  by (simp add: wf_cmd_cnf_def default_discover_cnf_def IF_NAMESIZE_def ETHERNET_BROADCAST_ADDRESS_def)

text \<open>What the two flags of the program depend on.\<close>

lemma discover_flags:
  assumes "argp_parse discover_parse_opt mem n items default_discover_cnf = Continue cnf"
  shows "(discover_networks cnf \<longleftrightarrow> (\<forall>a. Opt (CHR ''n'') a \<notin> set items))
    \<and> (numeric_output cnf \<longleftrightarrow> (\<exists>a. Opt (CHR ''N'') a \<in> set items))"
proof -
  let ?Q = "\<lambda>p cnf. (discover_networks cnf \<longleftrightarrow> (\<forall>a. Opt (CHR ''n'') a \<notin> set p))
    \<and> (numeric_output cnf \<longleftrightarrow> (\<exists>a. Opt (CHR ''N'') a \<in> set p))"
  have option: "ensures False (\<lambda>cnf'. (discover_networks cnf' \<longleftrightarrow> discover_networks cnf \<and> key \<noteq> CHR ''n'')
      \<and> (numeric_output cnf' \<longleftrightarrow> numeric_output cnf \<or> key = CHR ''N'')) (discover_option ok key arg cnf)"
    for ok key arg cnf
    unfolding discover_option_def Let_def by (intro ensures_rules) simp_all
  have "\<exists>cnf' ok k. ?Q ([] @ items) cnf' \<and> discover_parse_opt ok ARGP_KEY_END None k cnf' = Continue cnf"
  proof (rule argp_parse_prefix [OF assms])
    show "?Q [] default_discover_cnf" by (simp add: default_discover_cnf_def)
  next
    fix ok c a k p s s'
    assume "?Q p s" "discover_parse_opt ok (Key c) a k s = Continue s'"
    then show "?Q (p @ [Opt c a]) s'"
      using ensuresD [OF option, of ok c a s s'] by auto
  qed (auto split: if_splits)
  then show ?thesis by (auto split: if_splits)
qed

lemma discover_command_line_ensures:
  assumes "list_all (item_ok discover_cmd_options) items"
  shows "ensures False
    (\<lambda>cnf. wf_cmd_cnf cnf \<and> (\<exists>name. interfaces items = [name] \<and> if_name cnf = strncpy name 16)
       \<and> (discover_networks cnf \<longleftrightarrow> (\<forall>a. Opt (CHR ''n'') a \<notin> set items))
       \<and> (numeric_output cnf \<longleftrightarrow> (\<exists>a. Opt (CHR ''N'') a \<in> set items)))
    (discover_command_line mem items)"
  unfolding discover_command_line_def
  using discover_cmd.parse_defined [OF wf_default_discover_cnf assms, of mem 0]
    discover_cmd.parse_inv [OF wf_default_discover_cnf, of mem 0 items]
    discover_cmd.parse_interface [of mem items default_discover_cnf]
    discover_flags [of mem 0 items]
  by (cases "argp_parse discover_parse_opt mem 0 items default_discover_cnf")
    (auto simp: ensures_def)

text \<open>
  Parsing the command line of \<^verbatim>\<open>hpav-discover\<close> has no undefined behaviour, and an accepted command line
  names exactly one interface and yields a well-formed configuration whose flags are those of its options:
  network infos are requested unless \<open>-n\<close> is given, and numbers are shown exactly when \<open>-N\<close> is.
\<close>
theorem discover_command_line_ok:
  assumes "list_all (item_ok discover_cmd_options) items"
  shows "ensures False
    (\<lambda>cnf. wf_cmd_cnf cnf \<and> (\<exists>name. interfaces items = [name] \<and> if_name cnf = strncpy name 16)
       \<and> (discover_networks cnf \<longleftrightarrow> (\<forall>a. Opt (CHR ''n'') a \<notin> set items))
       \<and> (numeric_output cnf \<longleftrightarrow> (\<exists>a. Opt (CHR ''N'') a \<in> set items)))
    (discover_command_line mem items)"
  by (rule discover_command_line_ensures [OF assms])

definition sample_discover_items :: "argp_item list" where
  "sample_discover_items = [Opt (CHR ''N'') None, Opt (CHR ''l'') None, Arg ''eth0'']"

definition sample_discover_cnf :: discover_cnf where
  "sample_discover_cnf = default_discover_cnf\<lparr>if_name := strncpy ''eth0'' 16,
     oda := [0x00, 0xb0, 0x52, 0x00, 0x00, 0x01], numeric_output := True\<rparr>"

lemma sample_discover_command:
  "discover_command_line (\<lambda>_. True) sample_discover_items = Continue sample_discover_cnf"
  by (simp add: discover_command_line_def sample_discover_items_def sample_discover_cnf_def
      discover_option_def default_discover_cnf_def IF_NAMESIZE_def QUALCOMM_ATHEROS_LOCAL_MANAGEMENT_ADDRESS_def)

theorem discover_command_line_ok_witness:
  "wf_cmd_cnf sample_discover_cnf \<and> discover_networks sample_discover_cnf \<and> numeric_output sample_discover_cnf"
  using discover_command_line_ok [of sample_discover_items "\<lambda>_. True"]
  unfolding sample_discover_command
  by (simp add: ensures_def sample_discover_items_def discover_cmd_options_def)

end
