(* ===== verification/Hpav_Discover.thy ===== *)
theory Hpav_Discover
  imports Hpav_Discover_Options
begin

text \<open>
  \<^verbatim>\<open>bin/hpav-discover.c\<close> behind the command line: \<open>main\<close> sends one discover list request; the callbacks, which run
  in the event thread, print the stations and networks and request the network infos of each station. The
  last section lets the two threads interleave.
\<close>

section \<open>Names of field values\<close>

definition ieee1901_2010_same_network_string :: "u8 \<Rightarrow> string" where
  "ieee1901_2010_same_network_string type =
    (if type = 0x00 then ''no'' else if type = 0x01 then ''yes'' else ''reserved'')"

definition ieee1901_2010_station_role_string :: "u8 \<Rightarrow> string" where
  "ieee1901_2010_station_role_string type =
    (if type = 0x00 then ''station''
     else if type = 0x01 then ''proxy BBS manager''
     else if type = 0x02 then ''basic service set manager''
     else ''reserved'')"

definition ieee1901_2010_network_type_string :: "u8 \<Rightarrow> string" where
  "ieee1901_2010_network_type_string type =
    (if type = 0x00 then ''in home'' else if type = 0x01 then ''access network'' else ''reserved'')"


section \<open>The callbacks\<close>

text \<open>The static counters of the two callbacks.\<close>

record discover_app =
  station_cnt :: u64
  nwinfo_cnt :: u64

datatype discover_cb = Station_info_cb | Nwinfo_cb

definition station_info_callback ::
  "(io_op \<Rightarrow> int) \<Rightarrow> net_ctx \<Rightarrow> discover_cnf \<Rightarrow> bytes \<Rightarrow> station_information \<Rightarrow> unit option \<Rightarrow> discover_app
     \<Rightarrow> (discover_app \<times> unit action list) outcome" where
  "station_info_callback wr nctx cnf osa sta_info usr app =
    (case usr of None \<Rightarrow> Continue (app, [])
     | Some _ \<Rightarrow>
         let ls = [head_line ''discovered-station_'' (station_cnt app),
               address_line ''osa'' osa,
               address_line ''mac'' (sta_mac_addr sta_info),
               hex_line ''tei'' (sta_tei sta_info),
               hex_line ''snid'' (sta_snid sta_info),
               (if numeric_output cnf then hex_line ''same-network'' (sta_same_network sta_info)
                else text_line ''same-network''
                  (ieee1901_2010_same_network_string (sta_same_network sta_info)))];
             app = app\<lparr>station_cnt := station_cnt app + 1\<rparr>
         in and_then
           (if discover_networks cnf
            then send_action (ieee1901_2010_message_send wr (sock nctx) osa (sll_addr (if_cfg nctx)) (hpav_ver cnf)
              MM_TYPE_CM_NW_INFO MMOperationTypeRequest None 0)
            else Continue [])
           (\<lambda>sends. Continue (app, map Print ls @ sends)))"

text \<open>\<open>_nwinfo\<close> does not check its user data before it reads \<open>ctx->conf\<close>.\<close>

definition nwinfo_callback ::
  "discover_cnf \<Rightarrow> bytes \<Rightarrow> nwinfo \<Rightarrow> unit option \<Rightarrow> discover_app
     \<Rightarrow> (discover_app \<times> unit action list) outcome" where
  "nwinfo_callback cnf osa nwinfo usr app =
    (case usr of None \<Rightarrow> Fault
     | Some _ \<Rightarrow>
         Continue (app\<lparr>nwinfo_cnt := nwinfo_cnt app + 1\<rparr>, map Print
           ([head_line ''nwinfo_'' (nwinfo_cnt app),
             address_line ''osa'' osa,
             address_line ''bm-mac'' (nwi_bm_mac nwinfo),
             hex_line ''tei'' (nwi_tei nwinfo),
             address_line ''nid'' (nwi_nid nwinfo),
             hex_line ''snid'' (nwi_snid nwinfo)]
            @ (if numeric_output cnf
               then [hex_line ''access'' (nwi_access nwinfo), hex_line ''role'' (nwi_station_role nwinfo)]
               else [text_line ''access'' (ieee1901_2010_network_type_string (nwi_access nwinfo)),
                 text_line ''role'' (ieee1901_2010_station_role_string (nwi_station_role nwinfo))]))))"

text \<open>
  An invocation by \<open>ieee1901_2010_handle_message\<close>; a function called with the arguments of another kind of
  callback is undefined.
\<close>

fun discover_call ::
  "(io_op \<Rightarrow> int) \<Rightarrow> net_ctx \<Rightarrow> discover_cnf \<Rightarrow> (discover_cb, unit) cb_call \<Rightarrow> discover_app
     \<Rightarrow> (discover_app \<times> unit action list) outcome" where
  "discover_call wr nctx cnf (Station_information_call Station_info_cb osa r usr) app =
     station_info_callback wr nctx cnf osa r usr app"
| "discover_call wr nctx cnf (Nwinfo_call Nwinfo_cb osa r usr) app = nwinfo_callback cnf osa r usr app"
| "discover_call wr nctx cnf _ app = Fault"

text \<open>The registrations of \<open>main\<close>; \<open>junk\<close> is the context before \<open>ieee1901_2010_init\<close>.\<close>

definition discover_ieee_ctx ::
  "(discover_cb, unit) ieee1901_2010_ctx \<Rightarrow> (discover_cb, unit) ieee1901_2010_ctx option" where
  "discover_ieee_ctx junk =
    (let ctx = fst (ieee1901_2010_init (Some junk));
         ctx = fst (ieee1901_2010_register_cc_discover_list_confirm_station_information_callback ctx
           (Some Station_info_cb) (Some ()));
         ctx = fst (ieee1901_2010_register_cm_nw_info_confirm_nwinfo_callback ctx (Some Nwinfo_cb) (Some ()))
     in ctx)"

text \<open>The event thread handles one readable event of the socket.\<close>

definition discover_on_readable ::
  "(io_op \<Rightarrow> int) \<Rightarrow> net_ctx \<Rightarrow> discover_cnf \<Rightarrow> (discover_cb, unit) ieee1901_2010_ctx \<Rightarrow> bytes option
     \<Rightarrow> discover_app \<Rightarrow> (discover_app \<times> unit action list) outcome" where
  "discover_on_readable wr nctx cnf junk received app =
     and_then (defined (discover_ieee_ctx junk)) (\<lambda>ctx.
     and_then (handle_data (Some ctx) received) (\<lambda>calls. run_calls (\<lambda>_. discover_call wr nctx cnf) calls app))"


section \<open>main\<close>

definition discover_requests ::
  "(io_op \<Rightarrow> int) \<Rightarrow> net_ctx \<Rightarrow> discover_cnf \<Rightarrow> unit action list outcome" where
  "discover_requests wr nctx cnf =
     and_then (send_action (ieee1901_2010_message_send wr (sock nctx) (oda cnf) (sll_addr (if_cfg nctx))
         (hpav_ver cnf) MM_TYPE_CC_DISCOVER_LIST MMOperationTypeRequest None 0))
       (\<lambda>sends. Continue (sends @ [Usleep 250000]))"


section \<open>What a frame triggers\<close>

text \<open>
  The headings of the blocks with a label; they are counted when their numbers follow from the value of the
  counter before, in 64 bits, and the counter is set to the next number.
\<close>

definition headings :: "string \<Rightarrow> string list \<Rightarrow> string list" where
  "headings lab ls = filter (\<lambda>l. take (length lab) l = lab) ls"

definition counted :: "string \<Rightarrow> u64 \<Rightarrow> string list \<Rightarrow> u64 \<Rightarrow> bool" where
  "counted lab n ls n' \<longleftrightarrow>
     headings lab ls = map (\<lambda>k. head_line lab (n + of_nat k)) [0..<length (headings lab ls)]
     \<and> n' = n + of_nat (length (headings lab ls))"

lemma headings_append [simp]: "headings lab (xs @ ys) = headings lab xs @ headings lab ys"
  by (simp add: headings_def)

lemma counted_Nil [simp]: "counted lab n [] n"
  by (simp add: counted_def headings_def)

lemma counted_append:
  assumes "counted lab n xs m" "counted lab m ys k"
  shows "counted lab n (xs @ ys) k"
proof -
  define a b where "a = length (headings lab xs)" and "b = length (headings lab ys)"
  have xs: "headings lab xs = map (\<lambda>i. head_line lab (n + of_nat i)) [0..<a]" "m = n + of_nat a"
    and ys: "headings lab ys = map (\<lambda>i. head_line lab (m + of_nat i)) [0..<b]" "k = m + of_nat b"
    using assms unfolding counted_def a_def b_def by blast+
  have "map (\<lambda>i. head_line lab (m + of_nat i)) [0..<b] = map (\<lambda>i. head_line lab (n + of_nat i)) [a..<a + b]"
    by (rule nth_equalityI) (simp_all add: xs(2) add.assoc)
  then have "headings lab (xs @ ys) = map (\<lambda>i. head_line lab (n + of_nat i)) [0..<a + b]"
    by (simp add: xs(1) ys(1) upt_add_eq_append [of 0 a b])
  then show ?thesis
    by (simp add: counted_def xs(2) ys(2) add.assoc flip: a_def b_def)
qed

definition nwinfo_request :: "net_ctx \<Rightarrow> discover_cnf \<Rightarrow> bytes \<Rightarrow> bytes" where
  "nwinfo_request nctx cnf osa = frame_of_message osa (take 6 (sll_addr (if_cfg nctx))) (hpav_ver cnf) 0x6038 []"

lemma send_nwinfo_request:
  assumes "length osa = 6" "6 \<le> length (sll_addr (if_cfg nctx))"
  shows "\<exists>call. send_action (ieee1901_2010_message_send wr (sock nctx) osa (sll_addr (if_cfg nctx)) (hpav_ver cnf)
      MM_TYPE_CM_NW_INFO MMOperationTypeRequest None 0) = Continue [Send call]
    \<and> wire_bytes call = nwinfo_request nctx cnf osa"
  using assms by (simp add: send_without_payload nwinfo_request_def MM_TYPE_CM_NW_INFO_def MMOperationTypeRequest_def)

definition discover_effect ::
  "net_ctx \<Rightarrow> discover_cnf \<Rightarrow> discover_app \<Rightarrow> discover_app \<times> unit action list \<Rightarrow> bool" where
  "discover_effect nctx cnf a r \<longleftrightarrow>
     counted ''discovered-station_'' (station_cnt a) (printed_lines (snd r)) (station_cnt (fst r))
     \<and> counted ''nwinfo_'' (nwinfo_cnt a) (printed_lines (snd r)) (nwinfo_cnt (fst r))
     \<and> length (frames (snd r)) = (if discover_networks cnf
          then length (headings ''discovered-station_'' (printed_lines (snd r))) else 0)
     \<and> list_all (\<lambda>f. \<exists>osa. length osa = 6 \<and> f = nwinfo_request nctx cnf osa) (frames (snd r))"

definition discover_call_ok :: "net_ctx \<Rightarrow> (discover_cb, unit) cb_call \<Rightarrow> bool" where
  "discover_call_ok nctx c \<longleftrightarrow> 6 \<le> length (sll_addr (if_cfg nctx)) \<and> (case c of
       Station_information_call f osa r usr \<Rightarrow> f = Station_info_cb \<and> usr = Some () \<and> length osa = 6
     | Nwinfo_call f osa r usr \<Rightarrow> f = Nwinfo_cb \<and> usr = Some ()
     | _ \<Rightarrow> False)"

lemmas line_defs = headings_def head_line_def address_line_def hex_line_def text_line_def

lemma station_info_effect:
  assumes "length osa = 6" "6 \<le> length (sll_addr (if_cfg nctx))"
  shows "\<exists>app' acts. station_info_callback wr nctx cnf osa r (Some usr) app = Continue (app', acts)
    \<and> discover_effect nctx cnf app (app', acts)
    \<and> frames acts = (if discover_networks cnf then [nwinfo_request nctx cnf osa] else [])"
proof -
  obtain call :: io_op where call: "send_action (ieee1901_2010_message_send wr (sock nctx) osa (sll_addr (if_cfg nctx))
      (hpav_ver cnf) MM_TYPE_CM_NW_INFO MMOperationTypeRequest None 0) = Continue ([Send call] :: unit action list)"
      "wire_bytes call = nwinfo_request nctx cnf osa"
    using send_nwinfo_request [OF assms] by blast
  let ?ls = "[head_line ''discovered-station_'' (station_cnt app), address_line ''osa'' osa,
      address_line ''mac'' (sta_mac_addr r), hex_line ''tei'' (sta_tei r), hex_line ''snid'' (sta_snid r),
      if numeric_output cnf then hex_line ''same-network'' (sta_same_network r)
      else text_line ''same-network'' (ieee1901_2010_same_network_string (sta_same_network r))]"
  have heads: "headings ''discovered-station_'' ?ls = [head_line ''discovered-station_'' (station_cnt app)]"
      "headings ''nwinfo_'' ?ls = []"
    by (simp_all add: line_defs)
  have counted: "counted ''discovered-station_'' (station_cnt app) ?ls (station_cnt app + 1)"
      "counted ''nwinfo_'' (nwinfo_cnt app) ?ls (nwinfo_cnt app)"
    by (simp_all add: counted_def heads)
  show ?thesis
  proof (cases "discover_networks cnf")
    case True
    have "station_info_callback wr nctx cnf osa r (Some usr) app =
        Continue (app\<lparr>station_cnt := station_cnt app + 1\<rparr>, map Print ?ls @ [Send call])"
      using True by (simp add: station_info_callback_def call Let_def)
    then show ?thesis
      using True call(2) counted heads assms(1)
      by (intro exI conjI) (assumption, auto simp: discover_effect_def simp del: list.map)
  next
    case False
    have "station_info_callback wr nctx cnf osa r (Some usr) app =
        Continue (app\<lparr>station_cnt := station_cnt app + 1\<rparr>, map Print ?ls)"
      using False by (simp add: station_info_callback_def Let_def)
    then show ?thesis
      using False counted heads
      by (intro exI conjI) (assumption, auto simp: discover_effect_def simp del: list.map)
  qed
qed

lemma nwinfo_effect:
  "\<exists>app' acts. nwinfo_callback cnf osa r (Some usr) app = Continue (app', acts)
    \<and> discover_effect nctx cnf app (app', acts) \<and> frames acts = []"
proof -
  let ?ls = "[head_line ''nwinfo_'' (nwinfo_cnt app), address_line ''osa'' osa,
      address_line ''bm-mac'' (nwi_bm_mac r), hex_line ''tei'' (nwi_tei r), address_line ''nid'' (nwi_nid r),
      hex_line ''snid'' (nwi_snid r)]
    @ (if numeric_output cnf then [hex_line ''access'' (nwi_access r), hex_line ''role'' (nwi_station_role r)]
       else [text_line ''access'' (ieee1901_2010_network_type_string (nwi_access r)),
         text_line ''role'' (ieee1901_2010_station_role_string (nwi_station_role r))])"
  have heads: "headings ''nwinfo_'' ?ls = [head_line ''nwinfo_'' (nwinfo_cnt app)]"
      "headings ''discovered-station_'' ?ls = []"
    by (simp_all add: line_defs)
  have "nwinfo_callback cnf osa r (Some usr) app = Continue (app\<lparr>nwinfo_cnt := nwinfo_cnt app + 1\<rparr>, map Print ?ls)"
    by (simp only: nwinfo_callback_def option.case)
  moreover have "counted ''nwinfo_'' (nwinfo_cnt app) ?ls (nwinfo_cnt app + 1)"
      "counted ''discovered-station_'' (station_cnt app) ?ls (station_cnt app)"
    by (simp_all only: counted_def heads) simp_all
  ultimately show ?thesis
    using heads by (intro exI conjI) (assumption, simp_all only: discover_effect_def map_Print, simp_all)
qed

lemma discover_effect_idle: "discover_effect nctx cnf a (a, [])"
  by (simp add: discover_effect_def headings_def)

lemma discover_effect_sequel:
  "discover_effect nctx cnf a (b, xs) \<Longrightarrow> discover_effect nctx cnf b (c, ys) \<Longrightarrow> discover_effect nctx cnf a (c, xs @ ys)"
  by (auto simp: discover_effect_def intro: counted_append)

lemma discover_call_effect:
  assumes "discover_call_ok nctx c"
  shows "ensures False (discover_effect nctx cnf a) (discover_call wr nctx cnf c a)"
proof (cases c)
  case (Station_information_call f osa r usr)
  then show ?thesis
    using assms station_info_effect [of osa nctx wr cnf r "()" a] by (auto simp: discover_call_ok_def ensures_def)
next
  case (Nwinfo_call f osa r usr)
  then show ?thesis
    using assms nwinfo_effect [of cnf osa r "()" a nctx] by (auto simp: discover_call_ok_def ensures_def)
qed (use assms in \<open>simp_all add: discover_call_ok_def\<close>)

interpretation discover_callbacks: callbacks "\<lambda>_. discover_call wr nctx cnf" "discover_call_ok nctx" "discover_effect nctx cnf"
  for wr nctx cnf
  by unfold_locales (auto intro: discover_effect_idle discover_effect_sequel discover_call_effect)

lemma discover_ctx:
  "\<exists>ctx. discover_ieee_ctx junk = Some ctx
    \<and> cc_discover_list_confirm_station_information_cb ctx = Some Station_info_cb
    \<and> cc_discover_list_confirm_station_information_cb_data ctx = Some ()
    \<and> cc_discover_list_confirm_network_information_cb ctx = None
    \<and> cm_nw_info_confirm_nwinfo_cb ctx = Some Nwinfo_cb \<and> cm_nw_info_confirm_nwinfo_cb_data ctx = Some ()
    \<and> cm_nw_stats_confirm_stats_cb ctx = None \<and> cm_link_stats_confirm_stats_cb ctx = None"
  by (simp add: discover_ieee_ctx_def ieee1901_2010_init_def register_defs zero_ctx_def Let_def)

lemma registered_discover_call:
  assumes "discover_ieee_ctx junk = Some ctx" "call_registered ctx osa c" "length osa = 6"
    "6 \<le> length (sll_addr (if_cfg nctx))"
  shows "discover_call_ok nctx c"
  using assms discover_ctx [of junk] by (cases c) (auto simp: discover_call_ok_def)

lemma discover_on_readable_effect:
  assumes "6 \<le> length (sll_addr (if_cfg nctx))"
  shows "ensures False (discover_effect nctx cnf a) (discover_on_readable wr nctx cnf junk received a)"
proof -
  obtain ctx where ctx: "discover_ieee_ctx junk = Some ctx"
    using discover_ctx by blast
  have "ensures False (discover_effect nctx cnf a)
      (and_then (handle_data (Some ctx) received) (\<lambda>calls. run_calls (\<lambda>_. discover_call wr nctx cnf) calls a))"
  proof (rule ensures_and_then [OF handle_data_ensures], rule discover_callbacks.run_calls_effect)
    fix calls
    assume "\<exists>osa. length osa = 6 \<and> (\<forall>c\<in>set calls. call_registered ctx osa c)
      \<and> (\<forall>osa' f h p n d. Link_stats_call f osa' h p n d \<in> set calls \<longrightarrow> length p \<le> 1479)"
    then show "\<forall>c\<in>set calls. discover_call_ok nctx c"
      using registered_discover_call [OF ctx _ _ assms] by blast
  qed
  then show ?thesis
    by (simp add: discover_on_readable_def ctx)
qed


section \<open>Reactions\<close>

lemma run_station_calls:
  assumes "length osa = 6" "6 \<le> length (sll_addr (if_cfg nctx))"
  shows "\<exists>app' acts. run_calls (\<lambda>_. discover_call wr nctx cnf)
      (map (\<lambda>r. Station_information_call Station_info_cb osa r (Some ())) rs) app = Continue (app', acts)
    \<and> frames acts = (if discover_networks cnf then replicate (length rs) (nwinfo_request nctx cnf osa) else [])"
proof (induction rs arbitrary: app)
  case Nil
  then show ?case by simp
next
  case (Cons r rs)
  obtain app1 acts1 where first: "station_info_callback wr nctx cnf osa r (Some ()) app = Continue (app1, acts1)"
      "frames acts1 = (if discover_networks cnf then [nwinfo_request nctx cnf osa] else [])"
    using station_info_effect [OF assms] by blast
  obtain app2 acts2 where rest: "run_calls (\<lambda>_. discover_call wr nctx cnf)
      (map (\<lambda>r. Station_information_call Station_info_cb osa r (Some ())) rs) app1 = Continue (app2, acts2)"
      "frames acts2 = (if discover_networks cnf then replicate (length rs) (nwinfo_request nctx cnf osa) else [])"
    using Cons.IH by blast
  then show ?case
    using first by simp
qed

lemma run_nwinfo_calls:
  "\<exists>app' acts. run_calls (\<lambda>_. discover_call wr nctx cnf)
      (map (\<lambda>r. Nwinfo_call Nwinfo_cb osa r (Some ())) rs) app = Continue (app', acts) \<and> frames acts = []"
proof (induction rs arbitrary: app)
  case Nil
  then show ?case by simp
next
  case (Cons r rs)
  obtain app1 acts1 where first: "nwinfo_callback cnf osa r (Some ()) app = Continue (app1, acts1)" "frames acts1 = []"
    using nwinfo_effect by blast
  then show ?case
    using Cons.IH [of app1] by auto
qed

text \<open>The stations of a message, when it is a discover list.\<close>

definition discovered :: "bytes option \<Rightarrow> station_information list" where
  "discovered received =
    (case Option.bind received received_message of None \<Rightarrow> []
     | Some msg \<Rightarrow> if frame_accepted msg \<and> frame_mmtype msg = 0x0015 then body_stations (frame_asdu msg) else [])"

lemma discover_reaction:
  assumes "6 \<le> length (sll_addr (if_cfg nctx))"
  shows "\<exists>app' acts. discover_on_readable wr nctx cnf junk received app = Continue (app', acts)
    \<and> frames acts = (if discover_networks cnf
        then replicate (length (discovered received)) (nwinfo_request nctx cnf (frame_osa (take 1500 (the received))))
        else [])"
proof -
  obtain ctx where ctx: "discover_ieee_ctx junk = Some ctx"
    "cc_discover_list_confirm_station_information_cb ctx = Some Station_info_cb"
    "cc_discover_list_confirm_station_information_cb_data ctx = Some ()"
    "cc_discover_list_confirm_network_information_cb ctx = None"
    "cm_nw_info_confirm_nwinfo_cb ctx = Some Nwinfo_cb" "cm_nw_info_confirm_nwinfo_cb_data ctx = Some ()"
    "cm_nw_stats_confirm_stats_cb ctx = None" "cm_link_stats_confirm_stats_cb ctx = None"
    using discover_ctx by blast
  show ?thesis
  proof (cases "Option.bind received received_message")
    case None
    then show ?thesis
      by (simp add: discover_on_readable_def ctx(1) handle_data_eq discovered_def)
  next
    case (Some msg)
    then have msg: "60 \<le> length msg" "msg = take 1500 (the received)"
      by (auto simp: received_message_def split: bind_splits if_splits)
    have len: "2 \<le> length (frame_asdu msg)" "length (frame_osa msg) = 6"
      using msg(1) by (simp_all add: frame_asdu_def frame_osa_def sizeof_MM_APDU_Standard_Header_def)
    then have asdu: "frame_asdu msg \<noteq> []" by auto
    let ?calls = "fst (spec_handle_message ctx msg)"
    have calls: "?calls = (if frame_accepted msg \<and> frame_mmtype msg = 0x0015
          then map (\<lambda>r. Station_information_call Station_info_cb (frame_osa msg) r (Some ())) (body_stations (frame_asdu msg))
        else if frame_accepted msg \<and> frame_mmtype msg = 0x6039
          then map (\<lambda>r. Nwinfo_call Nwinfo_cb (frame_osa msg) r (Some ())) (body_nwinfos (frame_asdu msg))
        else [])"
      using len(1) asdu by (simp add: spec_handle_message_def spec_discover_list_def spec_nw_info_def calls_of_def ctx Let_def)
    have run: "discover_on_readable wr nctx cnf junk received app
        = run_calls (\<lambda>_. discover_call wr nctx cnf) ?calls app"
      by (simp add: discover_on_readable_def ctx(1) handle_data_eq Some)
    show ?thesis
      using run_station_calls [OF len(2) assms, of wr cnf "body_stations (frame_asdu msg)" app]
        run_nwinfo_calls [of wr nctx cnf "frame_osa msg" "body_nwinfos (frame_asdu msg)" app]
      unfolding run calls by (auto simp: discovered_def Some simp flip: msg(2))
  qed
qed

text \<open>
  C8: What \<^verbatim>\<open>hpav-discover\<close> does with a frame. Whatever arrives, the event thread handles it without undefined
  behaviour; it sends something only in reply to a discover list, unless \<open>-n\<close> is given, and then exactly one
  network info request to the frame's sender for each complete station of the list.
\<close>
theorem discover_answers_stations:
  assumes "6 \<le> length (sll_addr (if_cfg nctx))"
  shows "\<exists>app' acts. discover_on_readable wr nctx cnf junk received app = Continue (app', acts)
    \<and> frames acts = (if discover_networks cnf
        then replicate (length (discovered received)) (nwinfo_request nctx cnf (frame_osa (take 1500 (the received))))
        else [])"
  by (rule discover_reaction [OF assms])

definition sample_list_frame :: bytes where
  "sample_list_frame = frame_of_message [2, 0, 0, 0, 0, 1] [7, 8, 9, 10, 11, 12] 1 0x0015
     (discover_list_body [sample_station, sample_station] [])"

lemma sample_discovered: "discovered (Some sample_list_frame) = [sample_station, sample_station]"
proof -
  have "wf_station_information sample_station"
    unfolding sample_station_def by (rule sta.wf_dec) (simp add: sizeof_station_information_def)
  moreover from this have "length sample_list_frame = 60"
    by (simp add: sample_list_frame_def length_frame_of_message discover_list_body_def length_concat_records sta.length_enc
        sizeof_station_information_def)
  ultimately show ?thesis
    using sent_records(3) [of "[sample_station, sample_station]"]
    by (simp add: discovered_def received_message_def)
      (simp add: sample_list_frame_def sent_frame discover_list_body_def)
qed

theorem discover_answers_stations_witness:
  "\<exists>app' acts. discover_on_readable (\<lambda>_. 60) sample_nctx default_discover_cnf zero_ctx (Some sample_list_frame)
      \<lparr>station_cnt = 0, nwinfo_cnt = 0\<rparr> = Continue (app', acts)
    \<and> frames acts = replicate 2 (nwinfo_request sample_nctx default_discover_cnf (frame_osa (take 1500 sample_list_frame)))"
  using discover_answers_stations [of sample_nctx "\<lambda>_. 60" default_discover_cnf zero_ctx "Some sample_list_frame"
      "\<lparr>station_cnt = 0, nwinfo_cnt = 0\<rparr>"]
  by (simp add: sample_nctx_def sample_discovered default_discover_cnf_def numeral_2_eq_2)

section \<open>Main thread and event thread\<close>

text \<open>
  \<open>todo\<close> are the actions of \<open>main\<close> and \<open>reacting\<close> those of the event thread that are still to come, \<open>sent\<close> and
  \<open>printed\<close> the frames and lines so far. The event thread takes the next frame when it has finished with the
  one before.
\<close>

record discover_run =
  todo :: "unit action list"
  reacting :: "unit action list"
  app :: discover_app
  sent :: "bytes list"
  printed :: "string list"

inductive discover_step :: "net_ctx \<Rightarrow> discover_cnf \<Rightarrow> discover_run \<Rightarrow> discover_run \<Rightarrow> bool" for nctx cnf where
  main_send: "todo r = Send call # acts \<Longrightarrow>
    discover_step nctx cnf r (r\<lparr>todo := acts, sent := sent r @ [wire_bytes call]\<rparr>)"
| main_sleep: "todo r = Usleep us # acts \<Longrightarrow> discover_step nctx cnf r (r\<lparr>todo := acts\<rparr>)"
| react_send: "reacting r = Send call # acts \<Longrightarrow>
    discover_step nctx cnf r (r\<lparr>reacting := acts, sent := sent r @ [wire_bytes call]\<rparr>)"
| react_print: "reacting r = Print s # acts \<Longrightarrow>
    discover_step nctx cnf r (r\<lparr>reacting := acts, printed := printed r @ [s]\<rparr>)"
| readable: "reacting r = [] \<Longrightarrow> discover_on_readable wr nctx cnf junk received (app r) = Continue (a, acts) \<Longrightarrow>
    discover_step nctx cnf r (r\<lparr>app := a, reacting := acts\<rparr>)"

definition discover_start :: "unit action list \<Rightarrow> discover_run" where
  "discover_start acts = \<lparr>todo = acts, reacting = [], app = \<lparr>station_cnt = 0, nwinfo_cnt = 0\<rparr>, sent = [], printed = []\<rparr>"

text \<open>
  The lines printed or about to be printed are counted from 0, and the network info requests sent or about to
  be sent are as many as the stations.
\<close>

definition discover_inv :: "net_ctx \<Rightarrow> discover_cnf \<Rightarrow> bytes list \<Rightarrow> discover_run \<Rightarrow> bool" where
  "discover_inv nctx cnf main_frames r \<longleftrightarrow>
     (let ls = printed r @ printed_lines (reacting r)
      in counted ''discovered-station_'' 0 ls (station_cnt (app r)) \<and> counted ''nwinfo_'' 0 ls (nwinfo_cnt (app r))
        \<and> length (sent r) + length (frames (todo r)) + length (frames (reacting r)) = length main_frames
            + (if discover_networks cnf then length (headings ''discovered-station_'' ls) else 0)
        \<and> list_all (\<lambda>f. f \<in> set main_frames \<or> (\<exists>osa. length osa = 6 \<and> f = nwinfo_request nctx cnf osa))
            (sent r @ frames (todo r) @ frames (reacting r)))"

lemma discover_inv_step:
  assumes "discover_step nctx cnf r r'" "discover_inv nctx cnf ms r" "6 \<le> length (sll_addr (if_cfg nctx))"
  shows "discover_inv nctx cnf ms r'"
  using assms(1)
proof cases
  case (readable wr junk received a acts)
  have eff: "discover_effect nctx cnf (app r) (a, acts)"
    using ensuresD [OF discover_on_readable_effect [OF assms(3)] readable(3)] .
  have "counted lab 0 (printed r @ printed_lines acts) n'"
    if "counted lab 0 (printed r) n" "counted lab n (printed_lines acts) n'" for lab n n'
    using that by (rule counted_append)
  then show ?thesis
    using eff assms(2) readable(1,2) unfolding discover_inv_def discover_effect_def Let_def
    by (auto simp: list_all_iff)
qed (use assms(2) in \<open>simp_all add: discover_inv_def Let_def\<close>)

text \<open>
  C15: An invariant of \<^verbatim>\<open>hpav-discover\<close> over every interleaving of \<open>main\<close> with the event thread and every sequence
  of received frames: the stations and the networks are each numbered 0, 1, 2, ... in the order they are
  printed; each frame sent is the discover list request of \<open>main\<close> or a network info request; and when the
  event thread is idle, one network info request has been sent for each printed station, or none with \<open>-n\<close>.
\<close>
theorem discover_run_invariant:
  assumes "discover_requests wr nctx cnf = Continue acts" and "6 \<le> length (sll_addr (if_cfg nctx))"
    and "(discover_step nctx cnf)\<^sup>*\<^sup>* (discover_start acts) r"
  shows "counted ''discovered-station_'' 0 (printed r @ printed_lines (reacting r)) (station_cnt (app r))
    \<and> counted ''nwinfo_'' 0 (printed r @ printed_lines (reacting r)) (nwinfo_cnt (app r))
    \<and> list_all (\<lambda>f. f \<in> set (frames acts) \<or> (\<exists>osa. length osa = 6 \<and> f = nwinfo_request nctx cnf osa)) (sent r)
    \<and> length (sent r) + length (frames (todo r)) + length (frames (reacting r)) = length (frames acts)
      + (if discover_networks cnf
         then length (headings ''discovered-station_'' (printed r @ printed_lines (reacting r))) else 0)"
proof -
  have "discover_inv nctx cnf (frames acts) r"
    using assms(3)
  proof (induction rule: rtranclp_induct)
    case base
    show ?case
      by (simp add: discover_inv_def discover_start_def headings_def list_all_iff)
  next
    case (step r r')
    then show ?case
      using discover_inv_step assms(2) by blast
  qed
  then show ?thesis
    by (simp add: discover_inv_def Let_def)
qed

lemma discover_requests_eq:
  assumes "length (oda cnf) = 6" "6 \<le> length (sll_addr (if_cfg nctx))"
  shows "discover_requests wr nctx cnf = Continue [Send (Write_op (sock nctx)
      (frame_of_message (oda cnf) (take 6 (sll_addr (if_cfg nctx))) (hpav_ver cnf) 0x0014 [])), Usleep 250000]"
  using assms by (simp add: discover_requests_def send_without_payload MM_TYPE_CC_DISCOVER_LIST_def
      MMOperationTypeRequest_def)

theorem discover_run_invariant_witness:
  "\<exists>acts r. discover_requests (\<lambda>_. 60) sample_nctx default_discover_cnf = Continue acts
    \<and> (discover_step sample_nctx default_discover_cnf)\<^sup>*\<^sup>* (discover_start acts) r
    \<and> frames (reacting r) = replicate 2 (nwinfo_request sample_nctx default_discover_cnf [7, 8, 9, 10, 11, 12])
    \<and> length (headings ''discovered-station_'' (printed r @ printed_lines (reacting r))) = 2"
proof -
  let ?run = "(discover_step sample_nctx default_discover_cnf)\<^sup>*\<^sup>*"
  obtain call where acts: "discover_requests (\<lambda>_. 60) sample_nctx default_discover_cnf = Continue [Send call, Usleep 250000]"
    using discover_requests_eq [of default_discover_cnf sample_nctx "\<lambda>_. 60"]
    by (auto simp: default_discover_cnf_def sample_nctx_def ETHERNET_BROADCAST_ADDRESS_def)
  obtain app' acts' where react: "discover_on_readable (\<lambda>_. 60) sample_nctx default_discover_cnf zero_ctx
      (Some sample_list_frame) \<lparr>station_cnt = 0, nwinfo_cnt = 0\<rparr> = Continue (app', acts')"
      "frames acts' = replicate 2 (nwinfo_request sample_nctx default_discover_cnf (frame_osa (take 1500 sample_list_frame)))"
    using discover_reaction [of sample_nctx "\<lambda>_. 60" default_discover_cnf zero_ctx "Some sample_list_frame"
        "\<lparr>station_cnt = 0, nwinfo_cnt = 0\<rparr>"]
    by (auto simp: sample_nctx_def sample_discovered default_discover_cnf_def numeral_2_eq_2)
  have osa: "frame_osa (take 1500 sample_list_frame) = [7, 8, 9, 10, 11, 12]"
    by (simp add: sample_list_frame_def frame_osa_def frame_of_message_bytes)
  let ?init = "discover_start [Send call, Usleep 250000]"
  let ?r = "?init\<lparr>app := app', reacting := acts'\<rparr>"
  have "discover_step sample_nctx default_discover_cnf ?init ?r"
    using discover_step.readable [of ?init "\<lambda>_. 60" sample_nctx default_discover_cnf zero_ctx
        "Some sample_list_frame" app' acts'] react(1)
    by (simp add: discover_start_def)
  then have "?run ?init ?r" by blast
  from discover_run_invariant [OF acts _ this] have
    "length (headings ''discovered-station_'' (printed ?r @ printed_lines (reacting ?r))) = 2"
    by (simp add: sample_nctx_def discover_start_def react default_discover_cnf_def)
  then show ?thesis
    using acts \<open>?run ?init ?r\<close> react osa by (intro exI [of _ "[Send call, Usleep 250000]"] exI [of _ ?r]) simp
qed

end
