(* ===== verification/Hpav_Discover_Progress.thy ===== *)
theory Hpav_Discover_Progress
  imports Hpav_Discover Fair_Runs Program_Session
begin

text \<open>
  Progress of \<^verbatim>\<open>hpav-discover\<close>: \<open>main\<close> and the event thread are threads with queues of actions in the sense of
  \<^theory_text>\<open>Fair_Runs\<close>. Neither can keep the other from sending what it has to send. The last section puts
  the program together with its event handler.
\<close>

section \<open>The event thread only sends and prints\<close>

definition io_action :: "'x action \<Rightarrow> bool" where
  "io_action a \<longleftrightarrow> (case a of Send call \<Rightarrow> True | Print s \<Rightarrow> True | _ \<Rightarrow> False)"

lemma io_action_simps [simp]:
  "io_action (Send call)" "io_action (Print s)" "\<not> io_action (Usleep us)" "\<not> io_action (Assign x)"
  by (simp_all add: io_action_def)

lemma list_all_Print [simp]: "list_all io_action (map Print ls)"
  by (induction ls) simp_all

interpretation discover_io: callbacks "\<lambda>_. discover_call wr nctx cnf" "discover_call_ok nctx" "\<lambda>_ r. list_all io_action (snd r)"
  for wr nctx cnf
proof unfold_locales
  fix c k s
  assume ok: "discover_call_ok nctx c"
  show "ensures False (\<lambda>r. list_all io_action (snd r)) (discover_call wr nctx cnf c s)"
  proof (cases c)
    case (Station_information_call f osa r usr)
    then show ?thesis
      using ok by (auto simp: discover_call_ok_def station_info_callback_def send_without_payload ensures_def Let_def
          simp del: list.map)
  next
    case (Nwinfo_call f osa r usr)
    then show ?thesis
      using ok by (auto simp: discover_call_ok_def nwinfo_callback_def ensures_def simp del: list.map)
  qed (use ok in \<open>simp_all add: discover_call_ok_def\<close>)
qed simp_all

lemma discover_on_readable_io:
  assumes "6 \<le> length (sll_addr (if_cfg nctx))"
    and "discover_on_readable wr nctx cnf junk received a = Continue (a', acts)"
  shows "list_all io_action acts"
proof -
  obtain ctx where ctx: "discover_ieee_ctx junk = Some ctx"
    using discover_ctx by blast
  have "ensures False (\<lambda>r. list_all io_action (snd r))
      (and_then (handle_data (Some ctx) received) (\<lambda>calls. run_calls (\<lambda>_. discover_call wr nctx cnf) calls a))"
  proof (rule ensures_and_then [OF handle_data_ensures], rule discover_io.run_calls_effect)
    fix calls
    assume "\<exists>osa. length osa = 6 \<and> (\<forall>c\<in>set calls. call_registered ctx osa c)
      \<and> (\<forall>osa' f h p n d. Link_stats_call f osa' h p n d \<in> set calls \<longrightarrow> length p \<le> 1479)"
    then show "\<forall>c\<in>set calls. discover_call_ok nctx c"
      using registered_discover_call [OF ctx _ _ assms(1)] by blast
  qed
  moreover have "and_then (handle_data (Some ctx) received) (\<lambda>calls. run_calls (\<lambda>_. discover_call wr nctx cnf) calls a)
      = Continue (a', acts)"
    using assms(2) by (simp only: discover_on_readable_def ctx) simp
  ultimately show ?thesis by (simp add: ensures_def)
qed


section \<open>The two threads\<close>

text \<open>Both threads send, only the event thread prints.\<close>

definition sends_among :: "unit action list \<Rightarrow> discover_run \<Rightarrow> discover_run \<Rightarrow> bool" where
  "sends_among acts s t \<longleftrightarrow> (\<exists>fs. sent t = sent s @ fs \<and> subseq (frames acts) fs)"

definition discover_progress :: "unit action list \<Rightarrow> discover_run \<Rightarrow> discover_run \<Rightarrow> bool" where
  "discover_progress acts s t \<longleftrightarrow> sends_among acts s t \<and> printed t = printed s @ printed_lines acts"

lemma sends_among_idle: "sends_among [] s s"
  by (simp add: sends_among_def)

lemma sends_among_other:
  "sends_among acts s' t \<Longrightarrow> sent s' = sent s @ fs \<Longrightarrow> sends_among acts s t"
  by (auto simp: sends_among_def intro: list_emb_append2)

lemma sends_among_own:
  "sends_among acts s' t \<Longrightarrow> sent s' = sent s @ frames [a] \<Longrightarrow> sends_among (a # acts) s t"
  by (cases a) (auto simp: sends_among_def)

interpretation discover_main_thread: fair_thread "discover_step nctx cnf" todo sends_among
  for nctx cnf
proof unfold_locales
  fix s s' a as
  assume "discover_step nctx cnf s s'" "todo s = a # as"
  then show "todo s' = todo s \<or> todo s' = as"
    by cases auto
next
  fix s s' t
  assume "discover_step nctx cnf s s'" "todo s \<noteq> []" "todo s' = todo s" "sends_among (todo s) s' t"
  then show "sends_among (todo s) s t"
    by cases (auto intro: sends_among_other)
next
  fix s s' a as t
  assume "discover_step nctx cnf s s'" "todo s = a # as" "todo s' = as" "sends_among as s' t"
  then show "sends_among (a # as) s t"
    by cases (auto intro: sends_among_own)
qed (rule sends_among_idle)

interpretation discover_event_thread: fair_thread "discover_step nctx cnf" reacting discover_progress
  for nctx cnf
proof unfold_locales
  fix s s' a as
  assume "discover_step nctx cnf s s'" "reacting s = a # as"
  then show "reacting s' = reacting s \<or> reacting s' = as"
    by cases auto
next
  fix s s' t
  assume "discover_step nctx cnf s s'" "reacting s \<noteq> []" "reacting s' = reacting s"
    "discover_progress (reacting s) s' t"
  then show "discover_progress (reacting s) s t"
    by cases (auto simp: discover_progress_def intro: sends_among_other)
next
  fix s s' a as t
  assume "discover_step nctx cnf s s'" "reacting s = a # as" "reacting s' = as" "discover_progress as s' t"
  then show "discover_progress (a # as) s t"
    by cases (auto simp: discover_progress_def intro: sends_among_own)
qed (simp add: discover_progress_def sends_among_idle)


section \<open>Progress\<close>

text \<open>The request of \<open>main\<close> goes out as well, whatever the event thread sends.\<close>

lemma discover_request_is_sent:
  assumes "run_of (discover_step nctx cnf) \<sigma>" "fair todo \<sigma>" "\<sigma> 0 = discover_start acts"
  shows "\<exists>j. todo (\<sigma> j) = [] \<and> subseq (frames acts) (sent (\<sigma> j))"
  using discover_main_thread.works_off [OF assms(1,2), of 0] assms(3)
  by (auto simp: sends_among_def discover_start_def)

text \<open>
  C10: \<^verbatim>\<open>hpav-discover\<close> gets its reactions done. In every run in which \<open>main\<close> and the event thread interleave,
  once the event thread has read a frame it comes to the end of its reaction if it is not put off for ever; by
  then it has printed its lines, in order and with no others in between, and has sent a network info request to
  the frame's sender for each complete station of a discover list, whatever \<open>main\<close> has sent meanwhile.
\<close>
theorem discover_reactions_are_completed:
  assumes "6 \<le> length (sll_addr (if_cfg nctx))"
    and "run_of (discover_step nctx cnf) \<sigma>" and "fair reacting \<sigma>"
    and "discover_on_readable wr nctx cnf junk received (app (\<sigma> i)) = Continue (a, acts)"
    and "reacting (\<sigma> i) = []" and "\<sigma> (Suc i) = (\<sigma> i)\<lparr>app := a, reacting := acts\<rparr>"
  shows "\<exists>j>i. reacting (\<sigma> j) = [] \<and> printed (\<sigma> j) = printed (\<sigma> i) @ printed_lines acts
    \<and> (\<exists>fs. sent (\<sigma> j) = sent (\<sigma> i) @ fs
        \<and> (discover_networks cnf \<longrightarrow> subseq (replicate (length (discovered received))
             (nwinfo_request nctx cnf (frame_osa (take 1500 (the received))))) fs))"
proof -
  let ?requests = "if discover_networks cnf
    then replicate (length (discovered received)) (nwinfo_request nctx cnf (frame_osa (take 1500 (the received)))) else []"
  obtain j where "Suc i \<le> j" "reacting (\<sigma> j) = []" "discover_progress acts (\<sigma> (Suc i)) (\<sigma> j)"
    using discover_event_thread.works_off [OF assms(2,3), of "Suc i"] assms(6) by auto
  moreover have "frames acts = ?requests"
    using discover_reaction [OF assms(1), of wr cnf junk received "app (\<sigma> i)"] assms(4) by auto
  ultimately obtain fs where "i < j" "reacting (\<sigma> j) = []" "printed (\<sigma> j) = printed (\<sigma> i) @ printed_lines acts"
      "sent (\<sigma> j) = sent (\<sigma> i) @ fs" "subseq (frames acts) fs" "frames acts = ?requests"
    using assms(6) by (auto simp: discover_progress_def sends_among_def Suc_le_eq)
  then show ?thesis
    by (intro exI [of _ j] conjI exI [of _ fs] impI) simp_all
qed

text \<open>The schedule in which only the event thread runs.\<close>

definition event_next :: "discover_run \<Rightarrow> discover_run" where
  "event_next r = (case reacting r of
       Send call # acts \<Rightarrow> r\<lparr>reacting := acts, sent := sent r @ [wire_bytes call]\<rparr>
     | Print s # acts \<Rightarrow> r\<lparr>reacting := acts, printed := printed r @ [s]\<rparr>
     | _ \<Rightarrow> r)"

lemma event_next_step: "discover_step nctx cnf r (event_next r) \<or> event_next r = r"
  by (auto simp: event_next_def intro: discover_step.intros split: list.split action.split)

lemma event_next_reacting: "list_all io_action (reacting r) \<Longrightarrow> reacting (event_next r) = tl (reacting r)"
  by (auto simp: event_next_def split: list.split action.split)

lemma event_next_iterated:
  assumes "list_all io_action (reacting r)"
  shows "reacting ((event_next ^^ i) r) = drop i (reacting r)"
proof (induction i)
  case (Suc i)
  have "list_all io_action (drop i (reacting r))"
    using assms set_drop_subset [of i "reacting r"] by (auto simp: list_all_iff)
  then show ?case
    using Suc event_next_reacting [of "(event_next ^^ i) r"] by (simp add: drop_Suc tl_drop)
qed simp

theorem discover_reactions_are_completed_witness:
  "\<exists>\<sigma> j. run_of (discover_step sample_nctx default_discover_cnf) \<sigma> \<and> fair reacting \<sigma>
    \<and> \<sigma> 0 = discover_start [] \<and> reacting (\<sigma> j) = []
    \<and> subseq (replicate 2 (nwinfo_request sample_nctx default_discover_cnf [7, 8, 9, 10, 11, 12])) (sent (\<sigma> j))"
proof -
  let ?step = "discover_step sample_nctx default_discover_cnf"
  have sll: "6 \<le> length (sll_addr (if_cfg sample_nctx))" by (simp add: sample_nctx_def)
  let ?app = "\<lparr>station_cnt = 0, nwinfo_cnt = 0\<rparr>"
  obtain a acts where react: "discover_on_readable (\<lambda>_. 60) sample_nctx default_discover_cnf zero_ctx
      (Some sample_list_frame) ?app = Continue (a, acts)"
    using discover_reaction [OF sll] by blast
  have io: "list_all io_action acts" by (rule discover_on_readable_io [OF sll react])
  let ?start = "discover_start []"
  let ?first = "?start\<lparr>app := a, reacting := acts\<rparr>"
  let ?\<sigma> = "\<lambda>i. case i of 0 \<Rightarrow> ?start | Suc k \<Rightarrow> (event_next ^^ k) ?first"
  have start: "reacting ?start = []" "app ?start = ?app" "sent ?start = []"
    by (simp_all add: discover_start_def)
  have "?step ?start ?first"
    using react start by (intro discover_step.readable) simp_all
  then have run: "run_of ?step ?\<sigma>"
    using event_next_step by (auto simp: run_of_def split: nat.split)
  have later: "reacting (?\<sigma> (Suc k)) = drop k acts" for k
    using event_next_iterated [of ?first k] io by simp
  have "reacting (?\<sigma> (Suc i)) \<noteq> reacting (?\<sigma> i)" if "reacting (?\<sigma> i) \<noteq> []" for i
  proof (cases i)
    case 0
    then show ?thesis using that start(1) by simp
  next
    case (Suc k)
    then have "length (drop (Suc k) acts) \<noteq> length (drop k acts)"
      using that later [of k] by simp
    then show ?thesis
      using later [of "Suc k"] later [of k] Suc by metis
  qed
  then have fair: "fair reacting ?\<sigma>" unfolding fair_def by blast
  have "frame_osa (take 1500 sample_list_frame) = [7, 8, 9, 10, 11, 12]"
    by (simp add: sample_list_frame_def frame_osa_def frame_of_message_bytes)
  with discover_reactions_are_completed [OF sll run fair, of "\<lambda>_. 60" zero_ctx "Some sample_list_frame" 0 a acts] react start
  obtain j where "reacting (?\<sigma> j) = []"
      "subseq (replicate 2 (nwinfo_request sample_nctx default_discover_cnf [7, 8, 9, 10, 11, 12])) (sent (?\<sigma> j))"
    by (auto simp: sample_discovered default_discover_cnf_def numeral_2_eq_2)
  then show ?thesis using run fair by (intro exI [of _ ?\<sigma>] exI [of _ j]) simp
qed


section \<open>With the event handler\<close>

text \<open>
  The steps of \<open>main\<close> and of the event thread inside a reaction, and the start of a reaction, which is when the
  event thread is back in libevent's loop.
\<close>

definition discover_work :: "net_ctx \<Rightarrow> discover_cnf \<Rightarrow> discover_run \<Rightarrow> discover_run \<Rightarrow> bool" where
  "discover_work nctx cnf r r' \<longleftrightarrow> discover_step nctx cnf r r'
     \<and> length (todo r') + length (reacting r') < length (todo r) + length (reacting r)"

definition discover_react ::
  "(io_op \<Rightarrow> int) \<Rightarrow> net_ctx \<Rightarrow> discover_cnf \<Rightarrow> (discover_cb, unit) ieee1901_2010_ctx \<Rightarrow> discover_run \<Rightarrow> discover_run \<Rightarrow> bool" where
  "discover_react wr nctx cnf junk r r' \<longleftrightarrow> reacting r = []
     \<and> (\<exists>received a acts. discover_on_readable wr nctx cnf junk received (app r) = Continue (a, acts)
         \<and> r' = r\<lparr>app := a, reacting := acts\<rparr>)"

text \<open>
  C27: \<^verbatim>\<open>hpav-discover\<close> with its event handler: the same for \<^verbatim>\<open>hpav-discover\<close>. The run is one of the two threads, so
  that the invariant of the printed and sent numbers holds in it; every event that libevent can fire calls
  \<^verbatim>\<open>_handle_data\<close> with the socket and the context; whatever is read, the reaction is defined; and
  \<^verbatim>\<open>events_teardown\<close> releases everything but the timer.
\<close>
theorem discover_session_safe:
  assumes "run_state (events_setup os) [] = (Some s0, tr)" and "add_socket_reader null_ok env nctx s0 = Continue s"
    and "6 \<le> length (sll_addr (if_cfg nctx))"
    and "(session_step (discover_work nctx cnf) (discover_react wr nctx cnf junk) nctx)\<^sup>*\<^sup>* (s, discover_start acts) (c, r)"
  shows "(discover_step nctx cnf)\<^sup>*\<^sup>* (discover_start acts) r
    \<and> (\<forall>e x. lib c e = Some x \<longrightarrow> fire_event null_ok (handle_data_code nctx) e c = Continue c)
    \<and> (\<forall>received. \<exists>a acts'. discover_on_readable wr nctx cnf junk received (app r) = Continue (a, acts')
        \<and> list_all io_action acts')
    \<and> (\<exists>c' tr'. run_state (events_teardown null_ok os c) tr = (Some (Continue c'), tr')
        \<and> loop_account tr' {#} = Some {#Timer_event#})"
proof -
  note ends = session_ends [OF assms(1,2)]
  have "c = s \<and> (discover_step nctx cnf)\<^sup>*\<^sup>* (discover_start acts) r"
    using session_refines [OF assms(4) ends(1), of "discover_step nctx cnf"]
    by (auto simp: discover_work_def discover_react_def intro: discover_step.readable)
  moreover have "\<exists>a acts'. discover_on_readable wr nctx cnf junk received (app r) = Continue (a, acts')
      \<and> list_all io_action acts'" for received
    using discover_reaction [OF assms(3)] discover_on_readable_io [OF assms(3)] by blast
  ultimately show ?thesis
    using ends(2) only_reader_fires [OF ends(1)] by blast
qed

theorem discover_session_safe_witness:
  "\<exists>s tr e x r. add_socket_reader False (sample_env 300) sample_nctx EVENTS_CTX_INIT = Continue s
    \<and> lib s e = Some x \<and> lib_added x
    \<and> frames (reacting r) = replicate 2 (nwinfo_request sample_nctx default_discover_cnf [7, 8, 9, 10, 11, 12])
    \<and> (discover_step sample_nctx default_discover_cnf)\<^sup>*\<^sup>* (discover_start []) r
    \<and> fire_event False (handle_data_code sample_nctx) e s = Continue s
    \<and> (\<exists>c' tr'. run_state (events_teardown False sample_loop_os s) tr = (Some (Continue c'), tr')
        \<and> loop_account tr' {#} = Some {#Timer_event#})"
proof -
  let ?cnf = default_discover_cnf
  let ?step = "session_step (discover_work sample_nctx ?cnf) (discover_react (\<lambda>_. 60) sample_nctx ?cnf zero_ctx) sample_nctx"
  have sll: "6 \<le> length (sll_addr (if_cfg sample_nctx))" by (simp add: sample_nctx_def)
  obtain tr where tr: "run_state (events_setup sample_loop_os) [] = (Some EVENTS_CTX_INIT, tr)"
    by (simp add: events_setup_def sample_loop_os_def)
  obtain s where s: "add_socket_reader False (sample_env 300) sample_nctx EVENTS_CTX_INIT = Continue s"
    by (simp add: add_socket_reader_def events_eval)
  obtain e x where e: "lib s e = Some x" "lib_added x"
    using add_socket_reader_only(2) [OF s] by (auto simp: sample_env_def)
  let ?r0 = "discover_start []"
  obtain a acts where react: "discover_on_readable (\<lambda>_. 60) sample_nctx ?cnf zero_ctx (Some sample_list_frame) (app ?r0)
      = Continue (a, acts)"
      "frames acts = replicate 2 (nwinfo_request sample_nctx ?cnf (frame_osa (take 1500 sample_list_frame)))"
    using discover_reaction [OF sll, of "\<lambda>_. 60" ?cnf zero_ctx "Some sample_list_frame" "app ?r0"]
    by (auto simp: sample_discovered default_discover_cnf_def numeral_2_eq_2)
  have osa: "frame_osa (take 1500 sample_list_frame) = [7, 8, 9, 10, 11, 12]"
    by (simp add: sample_list_frame_def frame_osa_def frame_of_message_bytes)
  let ?r1 = "?r0\<lparr>app := a, reacting := acts\<rparr>"
  have "discover_react (\<lambda>_. 60) sample_nctx ?cnf zero_ctx ?r0 ?r1"
    using react(1) unfolding discover_react_def by (simp add: discover_start_def) blast
  then have "?step (s, ?r0) (s, ?r1)"
    using e only_reader_fires [OF add_socket_reader_only(1) [OF s] e(1), of False] by (intro session_step.fire)
  then have "?step\<^sup>*\<^sup>* (s, ?r0) (s, ?r1)" by blast
  from discover_session_safe [OF tr s sll this] show ?thesis
    using s e react(2) osa by (intro exI [of _ s] exI [of _ tr] exI [of _ e] exI [of _ x] exI [of _ ?r1]) simp
qed

end
