(* ===== verification/Loop_Mm_Types.thy ===== *)
theory Loop_Mm_Types
  imports Program
begin

text \<open>
  \<^verbatim>\<open>bin/loop-mm-types.c\<close>: the command line with its counters of the wanted operations, and the two nested loops
  of \<open>main\<close> that send every message type of the table with every wanted operation.
\<close>

section \<open>The command line\<close>

record loop_cnf = cmd_cnf +
  msg_type_cnt :: "u32 list"
  show_tx_info :: bool

definition default_loop_cnf :: loop_cnf where
  "default_loop_cnf = \<lparr>
     if_name = replicate IF_NAMESIZE (CHR 0x00),
     oda = ETHERNET_BROADCAST_ADDRESS,
     hpav_ver = MM_APDU_MMV_1_1,
     msg_type_cnt = (replicate (unat MMOperationType_EOF) 0)[unat MMOperationTypeRequest := 1],
     show_tx_info = False\<rparr>"

definition loop_cmd_options :: "argp_option list" where
  "loop_cmd_options =
    [(''broadcast'', CHR ''b'', None),
     (''localcast'', CHR ''l'', None),
     (''oda'', CHR ''d'', Some ''DST-MAC''),
     (''v1-0'', CHR ''0'', None),
     (''v1-1'', CHR ''1'', None),
     (''request'', CHR ''r'', None),
     (''response'', CHR ''R'', None),
     (''indication'', CHR ''i'', None),
     (''confirm'', CHR ''c'', None),
     (''verbose-send'', CHR ''v'', None)]"

definition add_cnt :: "u16 \<Rightarrow> u32 \<Rightarrow> u32 list \<Rightarrow> u32 list" where
  "add_cnt oper n cnt = cnt[unat oper := cnt ! unat oper + n]"

text \<open>The options \<open>-R\<close>, \<open>-i\<close> and \<open>-c\<close> first drop the requests if the counter still has its initial value 1.\<close>

definition drop_default :: "u32 list \<Rightarrow> u32 list" where
  "drop_default cnt =
    (if cnt ! unat MMOperationTypeRequest = 1 then cnt[unat MMOperationTypeRequest := 0] else cnt)"

definition loop_option :: "bool \<Rightarrow> char \<Rightarrow> string option \<Rightarrow> loop_cnf \<Rightarrow> loop_cnf outcome" where
  "loop_option mem key arg cnf =
    (let cnt = msg_type_cnt cnf in
     if key = CHR ''b'' then Continue (cnf\<lparr>oda := ETHERNET_BROADCAST_ADDRESS\<rparr>)
     else if key = CHR ''l'' then Continue (cnf\<lparr>oda := QUALCOMM_ATHEROS_LOCAL_MANAGEMENT_ADDRESS\<rparr>)
     else if key = CHR ''0'' then Continue (cnf\<lparr>hpav_ver := MM_APDU_MMV_1_0\<rparr>)
     else if key = CHR ''1'' then Continue (cnf\<lparr>hpav_ver := MM_APDU_MMV_1_1\<rparr>)
     else if key = CHR ''d'' then
       (let (rc, mac) = hpav_parse_mac mem (oda cnf) arg
        in if rc \<noteq> EXIT_SUCCESS then argp_usage else Continue (cnf\<lparr>oda := mac\<rparr>))
     else if key = CHR ''r'' then Continue (cnf\<lparr>msg_type_cnt := add_cnt MMOperationTypeRequest 2 cnt\<rparr>)
     else if key = CHR ''R'' then
       Continue (cnf\<lparr>msg_type_cnt := add_cnt MMOperationTypeResponse 1 (drop_default cnt)\<rparr>)
     else if key = CHR ''i'' then
       Continue (cnf\<lparr>msg_type_cnt := add_cnt MMOperationTypeIndication 1 (drop_default cnt)\<rparr>)
     else if key = CHR ''c'' then
       Continue (cnf\<lparr>msg_type_cnt := add_cnt MMOperationTypeConfirm 1 (drop_default cnt)\<rparr>)
     else if key = CHR ''v'' then Continue (cnf\<lparr>show_tx_info := True\<rparr>)
     else Continue cnf)"

definition loop_parse_opt :: "loop_cnf argp_parser" where
  "loop_parse_opt mem key arg arg_num cnf =
    (case key of Key c \<Rightarrow> loop_option mem c arg cnf
     | ARGP_KEY_ARG \<Rightarrow>
         if arg_num > 0 then argp_usage
         else (case arg of None \<Rightarrow> Fault
           | Some arg \<Rightarrow> Continue (cnf\<lparr>if_name := strncpy arg IF_NAMESIZE\<rparr>))
     | ARGP_KEY_END \<Rightarrow> if arg_num \<noteq> 1 then argp_usage else Continue cnf)"

definition loop_command_line :: "(nat \<Rightarrow> bool) \<Rightarrow> argp_item list \<Rightarrow> loop_cnf outcome" where
  "loop_command_line mem items = argp_parse loop_parse_opt mem 0 items default_loop_cnf"


section \<open>main\<close>

text \<open>\<open>for (i = 0; i < n; i++)\<close> with a body that does not change \<open>i\<close>: the indices still to come are \<open>is\<close>.\<close>

fun for_each :: "('i \<Rightarrow> 'x action list outcome) \<Rightarrow> 'i list \<Rightarrow> 'x action list outcome" where
  "for_each body [] = Continue []"
| "for_each body (i # is) =
     and_then (body i) (\<lambda>acts. and_then (for_each body is) (\<lambda>acts'. Continue (acts @ acts')))"

definition loop_oper ::
  "(io_op \<Rightarrow> int) \<Rightarrow> net_ctx \<Rightarrow> loop_cnf \<Rightarrow> MMType \<Rightarrow> nat \<Rightarrow> unit action list outcome" where
  "loop_oper wr nctx cnf t oper =
    (if mm_ops t AND push_bit oper 1 \<noteq> 0 \<and> msg_type_cnt cnf ! oper > 0 then
       and_then (if show_tx_info cnf
           then and_then (defined (hpav_mm_operation_type_name_get (of_nat oper)))
             (\<lambda>name. Continue [Print (CHR 0x09 # name)])
           else Continue [])
         (\<lambda>shown. and_then (send_action (ieee1901_2010_message_send wr (sock nctx) (oda cnf)
             (sll_addr (if_cfg nctx)) (hpav_ver cnf) (type_base t) (of_nat oper) None 0))
         (\<lambda>sends. Continue (shown @ sends @ [Usleep 100000])))
     else Continue [])"

definition loop_requests ::
  "(io_op \<Rightarrow> int) \<Rightarrow> net_ctx \<Rightarrow> loop_cnf \<Rightarrow> unit action list outcome" where
  "loop_requests wr nctx cnf =
     for_each (\<lambda>i.
       and_then (for_each (loop_oper wr nctx cnf (MMTypes ! i)) [0..<unat MMOperationType_EOF]) (\<lambda>acts.
         Continue ((if show_tx_info cnf then [Print (mm_name (MMTypes ! i))] else []) @ acts)))
       [0..<MM_TYPE_COUNT]"


section \<open>The contract of the parser\<close>

lemma loop_parse_opt_simps [simp]:
  "loop_parse_opt mem (Key c) arg n cnf = loop_option mem c arg cnf"
  "loop_parse_opt mem ARGP_KEY_ARG (Some b) n cnf =
    (if n = 0 then Continue (cnf\<lparr>if_name := strncpy b 16\<rparr>) else Exit EX_USAGE)"
  "loop_parse_opt mem ARGP_KEY_ARG None n cnf = (if n = 0 then Fault else Exit EX_USAGE)"
  "loop_parse_opt mem ARGP_KEY_END arg n cnf = (if n = 1 then Continue cnf else Exit EX_USAGE)"
  by (simp_all add: loop_parse_opt_def argp_usage_def IF_NAMESIZE_def)

definition wf_loop_cnf :: "loop_cnf \<Rightarrow> bool" where
  "wf_loop_cnf cnf \<longleftrightarrow> wf_cmd_cnf cnf \<and> length (msg_type_cnt cnf) = 4"

lemma length_counters [simp]:
  "length (add_cnt oper n cnt) = length cnt" "length (drop_default cnt) = length cnt"
  by (simp_all add: add_cnt_def drop_default_def)

lemma loop_option_ensures:
  assumes "wf_loop_cnf cnf"
  shows "ensures False wf_loop_cnf (loop_option mem key arg cnf)"
  using assms unfolding loop_option_def Let_def
  by (intro ensures_rules)
    (simp_all add: wf_loop_cnf_def wf_cmd_cnf_def ETHERNET_BROADCAST_ADDRESS_def QUALCOMM_ATHEROS_LOCAL_MANAGEMENT_ADDRESS_def)

lemma loop_option_if_name:
  "ensures False (\<lambda>cnf'. if_name cnf' = if_name cnf) (loop_option mem key arg cnf)"
  unfolding loop_option_def Let_def by (intro ensures_rules) simp_all

interpretation loop_cmd: argp_client loop_parse_opt loop_cmd_options wf_loop_cnf if_name
proof (unfold_locales, goal_cases)
  case (1 s ok k a n s')
  show ?case
  proof (cases k)
    case (Key c)
    then show ?thesis
      using 1 ensuresD [OF loop_option_ensures [OF 1(1)]] by simp
  next
    case ARGP_KEY_ARG
    then show ?thesis
      using 1 by (cases a) (auto simp: wf_loop_cnf_def wf_cmd_cnf_def split: if_splits)
  next
    case ARGP_KEY_END
    then show ?thesis
      using 1 by (simp split: if_splits)
  qed
next
  case (2 s c a ok n)
  then show ?case
    using ensures_not_Fault [OF loop_option_ensures [of s ok c a]] by simp
next
  case (3 ok c a n s s')
  then show ?case
    using ensuresD [OF loop_option_if_name] by simp
qed (auto split: if_splits)


section \<open>Which operations are selected\<close>

text \<open>
  The operations, as numbers, that the options select: requests when \<open>-r\<close> is given or none of the other
  three is, the others when their option is.
\<close>

definition others_given :: "argp_item list \<Rightarrow> bool" where
  "others_given items \<longleftrightarrow> 0 < occurrences (CHR ''c'') items + occurrences (CHR ''i'') items + occurrences (CHR ''R'') items"

definition selected_opers :: "argp_item list \<Rightarrow> nat list" where
  "selected_opers items =
     (if 0 < occurrences (CHR ''r'') items \<or> \<not> others_given items then [0] else [])
     @ (if 0 < occurrences (CHR ''c'') items then [1] else [])
     @ (if 0 < occurrences (CHR ''i'') items then [2] else [])
     @ (if 0 < occurrences (CHR ''R'') items then [3] else [])"

definition counters_ok :: "argp_item list \<Rightarrow> u32 list \<Rightarrow> bool" where
  "counters_ok p cnt \<longleftrightarrow> (\<exists>extra. cnt =
     [of_nat (2 * occurrences (CHR ''r'') p + extra), of_nat (occurrences (CHR ''c'') p),
      of_nat (occurrences (CHR ''i'') p), of_nat (occurrences (CHR ''R'') p)]
     \<and> (extra = 0 \<and> others_given p \<or> extra = 1 \<and> (0 < occurrences (CHR ''r'') p \<or> \<not> others_given p)))"

lemma of_nat_u32_eq: "m < 2 ^ 32 \<Longrightarrow> n < 2 ^ 32 \<Longrightarrow> (of_nat m :: u32) = of_nat n \<longleftrightarrow> m = n"
  by (simp add: word_unat_eq_iff unat_of_nat take_bit_nat_eq_self)

definition next_counters :: "char \<Rightarrow> u32 list \<Rightarrow> u32 list" where
  "next_counters c cnt =
    (if c = CHR ''r'' then add_cnt MMOperationTypeRequest 2 cnt
     else if c = CHR ''R'' then add_cnt MMOperationTypeResponse 1 (drop_default cnt)
     else if c = CHR ''i'' then add_cnt MMOperationTypeIndication 1 (drop_default cnt)
     else if c = CHR ''c'' then add_cnt MMOperationTypeConfirm 1 (drop_default cnt)
     else cnt)"

lemma loop_option_counters:
  "ensures False (\<lambda>cnf'. msg_type_cnt cnf' = next_counters c (msg_type_cnt cnf)) (loop_option ok c a cnf)"
  unfolding loop_option_def next_counters_def Let_def by (intro ensures_rules) simp_all

lemma counters_option:
  assumes "counters_ok p cnt" "length p < 2 ^ 30"
  shows "counters_ok (p @ [Opt c a]) (next_counters c cnt)"
proof -
  let ?r = "occurrences (CHR ''r'') p"
  obtain extra where cnt: "cnt = [of_nat (2 * ?r + extra), of_nat (occurrences (CHR ''c'') p),
      of_nat (occurrences (CHR ''i'') p), of_nat (occurrences (CHR ''R'') p)]"
     and extra: "extra = 0 \<and> others_given p \<or> extra = 1 \<and> (0 < ?r \<or> \<not> others_given p)"
    using assms(1) unfolding counters_ok_def by blast
  have one: "(of_nat (2 * ?r + extra) :: u32) = 1 \<longleftrightarrow> ?r = 0 \<and> extra = 1"
    using of_nat_u32_eq [of "2 * ?r + extra" 1] occurrences_le [of "CHR ''r''" p] assms(2) extra
    by auto
  define extra' where "extra' = (if ?r = 0 then 0 else extra)"
  have drop: "drop_default cnt = [of_nat (2 * ?r + extra'), of_nat (occurrences (CHR ''c'') p),
      of_nat (occurrences (CHR ''i'') p), of_nat (occurrences (CHR ''R'') p)]"
    using one extra by (auto simp: drop_default_def cnt extra'_def mm_operation_defs simp del: of_nat_add of_nat_mult)
  have extra': "extra' = 0 \<or> extra' = 1 \<and> 0 < ?r"
    using extra by (auto simp: extra'_def)
  have other: "counters_ok (p @ [Opt c a]) (next_counters c cnt)" if "c = CHR ''R'' \<or> c = CHR ''i'' \<or> c = CHR ''c''"
    unfolding counters_ok_def next_counters_def drop
    using that extra' by (intro exI [of _ extra']) (auto simp: add_cnt_def mm_operation_defs others_given_def)
  have request: "counters_ok (p @ [Opt c a]) (next_counters c cnt)" if "c = CHR ''r''"
    unfolding counters_ok_def next_counters_def cnt
    using that extra by (intro exI [of _ extra]) (auto simp: add_cnt_def mm_operation_defs others_given_def)
  have "counters_ok (p @ [Opt c a]) (next_counters c cnt)" if "c \<notin> {CHR ''r'', CHR ''R'', CHR ''i'', CHR ''c''}"
    unfolding counters_ok_def next_counters_def cnt
    using that extra by (intro exI [of _ extra]) (auto simp: others_given_def)
  with other request show ?thesis by blast
qed

lemma counters_argument: "counters_ok (p @ [Arg b]) cnt \<longleftrightarrow> counters_ok p cnt"
  by (simp add: counters_ok_def others_given_def)

lemma counters_selected:
  assumes "counters_ok p cnt" "length p < 2 ^ 30"
  shows "filter (\<lambda>oper. 0 < cnt ! oper) [0..<4] = selected_opers p"
proof -
  let ?r = "occurrences (CHR ''r'') p"
  obtain extra where cnt: "cnt = [of_nat (2 * ?r + extra), of_nat (occurrences (CHR ''c'') p),
      of_nat (occurrences (CHR ''i'') p), of_nat (occurrences (CHR ''R'') p)]"
     and extra: "extra = 0 \<and> others_given p \<or> extra = 1 \<and> (0 < ?r \<or> \<not> others_given p)"
    using assms(1) unfolding counters_ok_def by blast
  have pos: "0 < (of_nat n :: u32) \<longleftrightarrow> 0 < n" if "n < 2 ^ 32" for n
    using of_nat_u32_eq [of n 0] that by (auto simp: word_gt_0)
  have "2 * ?r + extra < 2 ^ 32" "occurrences k p < 2 ^ 32" for k
    using occurrences_le [of "CHR ''r''" p] occurrences_le [of k p] assms(2) extra by auto
  then have "map (\<lambda>oper. 0 < cnt ! oper) [0, 1, 2, 3] = [0 < 2 * ?r + extra, 0 < occurrences (CHR ''c'') p,
      0 < occurrences (CHR ''i'') p, 0 < occurrences (CHR ''R'') p]"
    by (simp add: cnt pos del: of_nat_add of_nat_mult)
  moreover have "[0..<4] = [0, 1, 2, 3 :: nat]" by (simp add: upt_rec)
  moreover have "0 < 2 * ?r + extra \<longleftrightarrow> 0 < ?r \<or> \<not> others_given p"
    using extra by auto
  ultimately show ?thesis
    by (auto simp: selected_opers_def)
qed

section \<open>What is sent\<close>

lemma for_each_runs:
  "(\<And>i. i \<in> set is \<Longrightarrow> body i = Continue (acts i)) \<Longrightarrow> for_each body is = Continue (concat (map acts is))"
  by (induction "is") auto

definition loop_frame :: "net_ctx \<Rightarrow> loop_cnf \<Rightarrow> MMType \<Rightarrow> nat \<Rightarrow> bytes" where
  "loop_frame nctx cnf t oper =
     frame_of_message (oda cnf) (take 6 (sll_addr (if_cfg nctx))) (hpav_ver cnf) (type_base t OR of_nat oper) []"

definition wanted :: "loop_cnf \<Rightarrow> MMType \<Rightarrow> nat list" where
  "wanted cnf t = filter (\<lambda>oper. bit (mm_ops t) oper) (filter (\<lambda>oper. 0 < msg_type_cnt cnf ! oper) [0..<4])"

definition oper_actions :: "net_ctx \<Rightarrow> loop_cnf \<Rightarrow> MMType \<Rightarrow> nat \<Rightarrow> unit action list" where
  "oper_actions nctx cnf t oper =
     (if show_tx_info cnf then [Print (CHR 0x09 # MMOperationTypeNames ! oper)] else [])
     @ [Send (Write_op (sock nctx) (loop_frame nctx cnf t oper)), Usleep 100000]"

lemma loop_oper_runs:
  assumes "wf_loop_cnf cnf" "6 \<le> length (sll_addr (if_cfg nctx))" "oper < 4"
  shows "loop_oper wr nctx cnf t oper =
    Continue (if bit (mm_ops t) oper \<and> 0 < msg_type_cnt cnf ! oper then oper_actions nctx cnf t oper else [])"
proof -
  have oper: "oper \<in> {0, 1, 2, 3}" using assms(3) by auto
  have "mm_ops t AND push_bit oper 1 \<noteq> 0 \<longleftrightarrow> bit (mm_ops t) oper"
    using assms(3) by (auto simp: and_exp_eq_0_iff_not_bit push_bit_of_1)
  moreover have "hpav_mm_operation_type_name_get (of_nat oper) = Some (MMOperationTypeNames ! oper)"
    using oper by (auto simp: hpav_mm_operation_type_name_get_def mm_operation_defs word_le_nat_alt)
  ultimately show ?thesis
    using assms by (simp add: loop_oper_def send_without_payload wf_loop_cnf_def wf_cmd_cnf_def oper_actions_def
        loop_frame_def)
qed

lemma loop_requests_runs:
  assumes "wf_loop_cnf cnf" "6 \<le> length (sll_addr (if_cfg nctx))"
  shows "loop_requests wr nctx cnf = Continue (concat (map (\<lambda>t.
      (if show_tx_info cnf then [Print (mm_name t)] else []) @ concat (map (oper_actions nctx cnf t) (wanted cnf t))) MMTypes))"
proof -
  have four: "unat MMOperationType_EOF = 4"
    by (simp add: mm_operation_defs)
  have concat_filter: "concat (map (\<lambda>x. if P x then f x else []) xs) = concat (map f (filter P xs))" for P f and xs :: "nat list"
    by (induction xs) auto
  have inner: "for_each (loop_oper wr nctx cnf t) [0..<4] = Continue (concat (map (oper_actions nctx cnf t) (wanted cnf t)))" for t
    using for_each_runs [of "[0..<4]" "loop_oper wr nctx cnf t"
        "\<lambda>oper. if bit (mm_ops t) oper \<and> 0 < msg_type_cnt cnf ! oper then oper_actions nctx cnf t oper else []"]
    by (simp add: loop_oper_runs [OF assms] concat_filter wanted_def conj_commute)
  let ?F = "\<lambda>t. (if show_tx_info cnf then [Print (mm_name t)] else [])
      @ concat (map (oper_actions nctx cnf t) (wanted cnf t))"
  have by_index: "map (\<lambda>i. ?F (MMTypes ! i)) [0..<length MMTypes] = map ?F MMTypes"
    by (rule nth_equalityI) simp_all
  show ?thesis
    unfolding loop_requests_def four inner MM_TYPE_COUNT_def
    by (subst for_each_runs [where acts = "\<lambda>i. ?F (MMTypes ! i)"]) (simp_all only: and_then.simps by_index)
qed

text \<open>A frame has 60 bytes and the message type of its table row, with the operation in the lowest two bits.\<close>

lemma loop_frame_in_table:
  assumes "wf_loop_cnf cnf" "6 \<le> length (sll_addr (if_cfg nctx))" "t \<in> set MMTypes" "oper < 4"
  shows "length (loop_frame nctx cnf t oper) = 60 \<and> frame_mmtype (loop_frame nctx cnf t oper) AND 0xfffc = type_base t"
proof -
  have "list_all (\<lambda>base. list_all (\<lambda>oper. (base OR of_nat oper) AND 0xfffc = base) [0, 1, 2, 3]) (map type_base MMTypes)"
    unfolding MMTypes_bases by simp
  moreover have "oper \<in> set [0, 1, 2, 3]" using assms(4) by auto
  ultimately have "(type_base t OR of_nat oper) AND 0xfffc = type_base t"
    using assms(3) by (auto simp: list_all_iff)
  then show ?thesis
    using assms(1,2) by (simp add: loop_frame_def length_frame_of_message sent_frame(2) wf_loop_cnf_def wf_cmd_cnf_def)
qed

lemma selected_opers_range: "oper \<in> set (selected_opers items) \<Longrightarrow> oper < 4"
  by (auto simp: selected_opers_def split: if_splits)

section \<open>Properties\<close>

lemma wf_default_loop_cnf: "wf_loop_cnf default_loop_cnf"
  by (simp add: wf_loop_cnf_def wf_cmd_cnf_def default_loop_cnf_def IF_NAMESIZE_def ETHERNET_BROADCAST_ADDRESS_def
      mm_operation_defs)

lemma default_counters: "msg_type_cnt default_loop_cnf = [1, 0, 0, 0]"
  by (simp add: default_loop_cnf_def mm_operation_defs) (simp add: eval_nat_numeral)

lemma selected_counters:
  assumes "loop_command_line mem items = Continue cnf" "length items < 2 ^ 30"
  shows "filter (\<lambda>oper. 0 < msg_type_cnt cnf ! oper) [0..<4] = selected_opers items"
proof -
  let ?Q = "\<lambda>p cnf. counters_ok p (msg_type_cnt cnf)"
  have "\<exists>cnf' ok k. ?Q ([] @ items) cnf' \<and> loop_parse_opt ok ARGP_KEY_END None k cnf' = Continue cnf"
  proof (rule argp_parse_prefix [OF assms(1) [unfolded loop_command_line_def]])
    show "?Q [] default_loop_cnf"
      by (simp add: counters_ok_def default_counters others_given_def)
  next
    fix ok c a k p s s'
    assume "?Q p s" "length p < length [] + length items" "loop_parse_opt ok (Key c) a k s = Continue s'"
    then show "?Q (p @ [Opt c a]) s'"
      using counters_option [of p "msg_type_cnt s" c a] ensuresD [OF loop_option_counters, of ok c a s s'] assms(2)
      by simp
  next
    fix ok a k p s s'
    assume "?Q p s" "loop_parse_opt ok ARGP_KEY_ARG (Some a) k s = Continue s'"
    then show "?Q (p @ [Arg a]) s'"
      by (auto simp: counters_argument split: if_splits)
  qed
  then show ?thesis
    using counters_selected [of items "msg_type_cnt cnf"] assms(2) by (auto split: if_splits)
qed

lemma loop_requests_selected:
  assumes "loop_command_line mem items = Continue cnf" and "length items < 2 ^ 30"
    and "6 \<le> length (sll_addr (if_cfg nctx))"
  shows "\<exists>acts. loop_requests wr nctx cnf = Continue acts
    \<and> frames acts = concat (map (\<lambda>t. map (loop_frame nctx cnf t)
        (filter (\<lambda>oper. bit (mm_ops t) oper) (selected_opers items))) MMTypes)
    \<and> length (filter (\<lambda>a. a = Usleep 100000) acts) = length (frames acts)"
proof -
  have wf: "wf_loop_cnf cnf"
    using loop_cmd.parse_inv [OF wf_default_loop_cnf] assms(1) by (simp add: loop_command_line_def)
  have wanted: "wanted cnf t = filter (\<lambda>oper. bit (mm_ops t) oper) (selected_opers items)" for t
    by (simp add: wanted_def selected_counters [OF assms(1,2)])
  have inner: "frames (concat (map (oper_actions nctx cnf t) os)) = map (loop_frame nctx cnf t) os
      \<and> length (filter (\<lambda>a. a = Usleep 100000) (concat (map (oper_actions nctx cnf t) os))) = length os" for t os
    by (induction os) (auto simp: oper_actions_def)
  have "frames (concat (map (\<lambda>t. (if show_tx_info cnf then [Print (mm_name t)] else [])
        @ concat (map (oper_actions nctx cnf t) (f t))) ts)) = concat (map (\<lambda>t. map (loop_frame nctx cnf t) (f t)) ts)
      \<and> length (filter (\<lambda>a. a = Usleep 100000) (concat (map (\<lambda>t. (if show_tx_info cnf then [Print (mm_name t)] else [])
        @ concat (map (oper_actions nctx cnf t) (f t))) ts))) = length (concat (map f ts))" for f ts
    by (induction ts) (auto simp: inner)
  note this [of "wanted cnf" MMTypes]
  then show ?thesis
    by (simp add: loop_requests_runs [OF wf assms(3)] wanted length_concat comp_def)
qed

text \<open>
  C14: \<^verbatim>\<open>loop-mm-types\<close> from the command line to the wire. If its command line is accepted, \<open>main\<close> terminates and
  sends, for each message type of the table in order, one frame without payload for each operation that the
  table lists for the type and the options select: requests when \<open>-r\<close> is given or neither \<open>-R\<close> nor \<open>-i\<close> nor
  \<open>-c\<close>, in whatever order, and the others when their option is. Nothing else is sent; each frame is followed by
  a pause. The counters cannot overflow for a command line of less than \<open>2\<^sup>30\<close> items.
\<close>
theorem loop_sends_selected:
  assumes "loop_command_line mem items = Continue cnf" and "length items < 2 ^ 30"
    and "6 \<le> length (sll_addr (if_cfg nctx))"
  shows "\<exists>acts. loop_requests wr nctx cnf = Continue acts
    \<and> frames acts = concat (map (\<lambda>t. map (loop_frame nctx cnf t)
        (filter (\<lambda>oper. bit (mm_ops t) oper) (selected_opers items))) MMTypes)
    \<and> length (filter (\<lambda>a. a = Usleep 100000) acts) = length (frames acts)"
  by (rule loop_requests_selected [OF assms])

definition sample_loop_items :: "argp_item list" where
  "sample_loop_items = [Opt (CHR ''R'') None, Opt (CHR ''v'') None, Arg ''eth0'']"

theorem loop_sends_selected_witness:
  "\<exists>cnf acts. loop_command_line (\<lambda>_. True) sample_loop_items = Continue cnf
    \<and> loop_requests (\<lambda>_. 60) sample_nctx cnf = Continue acts \<and> selected_opers sample_loop_items = [3]
    \<and> frames acts = concat (map (\<lambda>t. map (loop_frame sample_nctx cnf t) (filter (\<lambda>oper. bit (mm_ops t) oper) [3])) MMTypes)"
proof -
  have opers: "selected_opers sample_loop_items = [3]"
    by (simp add: selected_opers_def others_given_def sample_loop_items_def occurrences_def)
  obtain cnf where cnf: "loop_command_line (\<lambda>_. True) sample_loop_items = Continue cnf"
    by (simp add: loop_command_line_def sample_loop_items_def loop_option_def)
  have "length sample_loop_items < 2 ^ 30" "6 \<le> length (sll_addr (if_cfg sample_nctx))"
    by (simp_all add: sample_loop_items_def sample_nctx_def)
  from loop_sends_selected [OF cnf this, of "\<lambda>_. 60"] show ?thesis
    unfolding opers using cnf by blast
qed

end
