(* ===== verification/Mains.thy ===== *)
theory Mains
  imports Hpav_Stats_Progress Hpav_Discover_Progress Loop_Mm_Types
begin

text \<open>
  The \<open>main\<close> functions of the three programs, from the command line to the exit: the actions, the calls of
  \<^verbatim>\<open>net.c\<close> and those of \<^verbatim>\<open>events.c\<close> for exit status 0, or another exit. \<open>os\<close>, \<open>los\<close> and \<open>env\<close> are the answers of the
  kernel, of libevent and of the allocations during the registration of the reader; \<open>junk_ctx\<close> and \<open>junk_req\<close>
  are the contents of variables that are not initialised. While \<open>main\<close> works through its requests the event thread
  may run; it leaves the registry as it is (\<^theory_text>\<open>Hpav_Stats_Progress\<close>, \<^theory_text>\<open>Hpav_Discover_Progress\<close>), so that
  \<open>events_teardown\<close> finds what the registration has left.
\<close>

definition stats_main ::
  "bool \<Rightarrow> (nat \<Rightarrow> bool) \<Rightarrow> net_os \<Rightarrow> loop_os \<Rightarrow> events_env \<Rightarrow> (io_op \<Rightarrow> int)
     \<Rightarrow> (stats_cb, unit) ieee1901_2010_ctx \<Rightarrow> link_stats_request \<Rightarrow> argp_item list
     \<Rightarrow> (u32 action list \<times> net_trace \<times> loop_trace) outcome" where
  "stats_main null_ok mem os los env wr junk_ctx junk_req items =
     and_then (stats_command_line mem items) (\<lambda>cnf.
     and_then (open_handler los) (\<lambda>(ectx, ltr).
     and_then (open_interface os (if_name cnf)) (\<lambda>(nctx, ntr).
     and_then (defined (stats_ieee_ctx junk_ctx)) (\<lambda>ctx.
     and_then (add_socket_reader null_ok env nctx ectx) (\<lambda>ectx.
     and_then (case stats_requests wr nctx cnf junk_req of None \<Rightarrow> Fault | Some m \<Rightarrow> m) (\<lambda>acts.
     and_then (close_program null_ok os los (ectx, ltr) (nctx, ntr)) (\<lambda>(ntr, ltr).
       Continue (acts, ntr, ltr))))))))"

definition discover_main ::
  "bool \<Rightarrow> (nat \<Rightarrow> bool) \<Rightarrow> net_os \<Rightarrow> loop_os \<Rightarrow> events_env \<Rightarrow> (io_op \<Rightarrow> int)
     \<Rightarrow> (discover_cb, unit) ieee1901_2010_ctx \<Rightarrow> argp_item list
     \<Rightarrow> (unit action list \<times> net_trace \<times> loop_trace) outcome" where
  "discover_main null_ok mem os los env wr junk_ctx items =
     and_then (discover_command_line mem items) (\<lambda>cnf.
     and_then (open_handler los) (\<lambda>(ectx, ltr).
     and_then (open_interface os (if_name cnf)) (\<lambda>(nctx, ntr).
     and_then (defined (discover_ieee_ctx junk_ctx)) (\<lambda>ctx.
     and_then (add_socket_reader null_ok env nctx ectx) (\<lambda>ectx.
     and_then (discover_requests wr nctx cnf) (\<lambda>acts.
     and_then (close_program null_ok os los (ectx, ltr) (nctx, ntr)) (\<lambda>(ntr, ltr).
       Continue (acts, ntr, ltr))))))))"

text \<open>\<^verbatim>\<open>loop-mm-types\<close> registers nothing.\<close>

definition loop_main ::
  "bool \<Rightarrow> (nat \<Rightarrow> bool) \<Rightarrow> net_os \<Rightarrow> loop_os \<Rightarrow> (io_op \<Rightarrow> int) \<Rightarrow> argp_item list
     \<Rightarrow> (unit action list \<times> net_trace \<times> loop_trace) outcome" where
  "loop_main null_ok mem os los wr items =
     and_then (loop_command_line mem items) (\<lambda>cnf.
     and_then (open_handler los) (\<lambda>(ectx, ltr).
     and_then (open_interface os (if_name cnf)) (\<lambda>(nctx, ntr).
     and_then (loop_requests wr nctx cnf) (\<lambda>acts.
     and_then (close_program null_ok os los (ectx, ltr) (nctx, ntr)) (\<lambda>(ntr, ltr).
       Continue (acts, ntr, ltr))))))"

end
