(* ===== verification/Event_Thread.thy ===== *)
theory Event_Thread
  imports Event_Loop
begin

text \<open>
  The event thread of \<^verbatim>\<open>src/events.c\<close>: \<open>_event_thread\<close> runs libevent's loop, which comes back as soon as no event is
  pending. A persistent timer is there to prevent that; the theory shows when it does.
\<close>

section \<open>The thread\<close>

definition no_exit_timer_flags :: u16 where
  "no_exit_timer_flags = EV_TIMEOUT OR EV_PERSIST"

text \<open>
  Whether the timer is pending, whether \<open>event_base_loopbreak\<close> has been called, and whether the thread has ended.
\<close>

record handler =
  ctx :: events_ctx
  timer_pending :: bool
  loop_broken :: bool
  thread_ended :: bool

definition any_pending :: "handler \<Rightarrow> bool" where
  "any_pending h \<longleftrightarrow> timer_pending h \<or> (\<exists>x\<in>ran (lib (ctx h)). lib_added x)"

text \<open>\<open>_nop\<close>, the callback of the timer. libevent removes an event without \<open>EV_PERSIST\<close> before it calls it.\<close>

definition nop :: "handler \<Rightarrow> handler" where
  "nop h = h"

definition timer_fires :: "handler \<Rightarrow> handler" where
  "timer_fires h = nop (h\<lparr>timer_pending := no_exit_timer_flags AND EV_PERSIST \<noteq> 0\<rparr>)"

text \<open>
  \<open>_event_thread\<close> ends when \<open>event_base_loop\<close> returns. libevent is not part of the program: \<open>loop_returns broken
  pending\<close> says whether the loop may return when it is or is not broken and an event is or is not pending.
\<close>

definition event_thread :: "(bool \<Rightarrow> bool \<Rightarrow> bool) \<Rightarrow> handler \<Rightarrow> handler option" where
  "event_thread loop_returns h =
    (if loop_returns (loop_broken h) (any_pending h) then Some (h\<lparr>thread_ended := True\<rparr>) else None)"

text \<open>
  What can happen to a handler between \<open>events_setup\<close> and the end of \<open>events_teardown\<close>: an operation on the registry
  or the firing of one of its events, the timer, the end of the thread, and the call of \<open>event_base_loopbreak\<close>.
\<close>

inductive handler_step :: "(bool \<Rightarrow> bool \<Rightarrow> bool) \<Rightarrow> handler \<Rightarrow> handler \<Rightarrow> bool" for loop_returns where
  registry: "events_step (ctx h) s \<Longrightarrow> handler_step loop_returns h (h\<lparr>ctx := s\<rparr>)"
| timer: "timer_pending h \<Longrightarrow> \<not> thread_ended h \<Longrightarrow> handler_step loop_returns h (timer_fires h)"
| thread: "\<not> thread_ended h \<Longrightarrow> event_thread loop_returns h = Some h' \<Longrightarrow> handler_step loop_returns h h'"
| loopbreak: "handler_step loop_returns h (h\<lparr>loop_broken := True\<rparr>)"

text \<open>The handler after \<open>events_setup\<close>: the timer is pending if \<open>event_add\<close> has answered 0.\<close>

definition handler_start :: "loop_trace \<Rightarrow> events_ctx \<Rightarrow> handler" where
  "handler_start tr s = \<lparr>ctx = s, timer_pending = ((Timer_event_add, 0) \<in> set tr), loop_broken = False, thread_ended = False\<rparr>"


section \<open>When the thread ends\<close>

lemma timer_stays:
  assumes "(handler_step loop_returns)\<^sup>*\<^sup>* h h'" "timer_pending h" "thread_ended h \<longrightarrow> loop_broken h"
    and "\<And>b p. loop_returns b p \<longleftrightarrow> b \<or> \<not> p"
  shows "timer_pending h' \<and> (thread_ended h' \<longrightarrow> loop_broken h')"
  using assms(1)
proof (induction rule: rtranclp_induct)
  case base
  then show ?case using assms(2,3) by blast
next
  case (step h1 h2)
  have "no_exit_timer_flags AND EV_PERSIST \<noteq> 0"
    by (simp add: no_exit_timer_flags_def EV_TIMEOUT_def EV_PERSIST_def)
  with step.hyps(2) step.IH show ?case
    by cases (auto simp: timer_fires_def nop_def event_thread_def assms(4) any_pending_def split: if_splits)
qed

lemma setup_timer:
  assumes "run_state (events_setup os) [] = (Some s, tr)"
  shows "s = EVENTS_CTX_INIT" "\<exists>rc. \<forall>rc'. (Timer_event_add, rc') \<in> set tr \<longleftrightarrow> rc' = rc"
  using assms by (auto simp: events_setup_def split: if_splits)

text \<open>
  C21: The event thread lives as long as the handler, provided that its timer could be started. libevent's loop
  returns when it is broken or no event is pending (its documented behaviour). Then, whatever is registered,
  cancelled and fired, the thread ends before \<open>events_teardown\<close> breaks the loop if and only if \<open>event_add\<close> has
  failed for the timer in \<open>events_setup\<close>, which does not look at that result and reports success.
\<close>
theorem event_thread_needs_its_timer:
  assumes "run_state (events_setup os) [] = (Some s, tr)"
    and "\<And>b p. loop_returns b p \<longleftrightarrow> b \<or> \<not> p"
  shows "(\<exists>h. (handler_step loop_returns)\<^sup>*\<^sup>* (handler_start tr s) h \<and> thread_ended h \<and> \<not> loop_broken h)
    \<longleftrightarrow> (\<exists>rc. (Timer_event_add, rc) \<in> set tr \<and> rc \<noteq> 0)"
proof -
  obtain rc where rc: "\<And>rc'. (Timer_event_add, rc') \<in> set tr \<longleftrightarrow> rc' = rc"
    using setup_timer(2) [OF assms(1)] by blast
  show ?thesis
  proof (cases "rc = 0")
    case True
    then have "timer_pending (handler_start tr s)" "\<not> thread_ended (handler_start tr s)"
      by (simp_all add: handler_start_def rc)
    then show ?thesis
      using timer_stays [OF _ _ _ assms(2), of "handler_start tr s"] rc True by blast
  next
    case False
    let ?h = "handler_start tr s"
    have "\<not> any_pending ?h"
      using False setup_timer(1) [OF assms(1)] by (simp add: any_pending_def handler_start_def rc EVENTS_CTX_INIT_def)
    then have "event_thread loop_returns ?h = Some (?h\<lparr>thread_ended := True\<rparr>)"
      by (simp add: event_thread_def assms(2))
    then have "handler_step loop_returns ?h (?h\<lparr>thread_ended := True\<rparr>)"
      by (intro handler_step.thread) (simp_all add: handler_start_def)
    then have "(handler_step loop_returns)\<^sup>*\<^sup>* ?h (?h\<lparr>thread_ended := True\<rparr>)" by blast
    then have "\<exists>h. (handler_step loop_returns)\<^sup>*\<^sup>* ?h h \<and> thread_ended h \<and> \<not> loop_broken h"
      by (intro exI [of _ "?h\<lparr>thread_ended := True\<rparr>"]) (simp add: handler_start_def)
    then show ?thesis using rc False by blast
  qed
qed

theorem event_thread_needs_its_timer_witness:
  "\<exists>tr tr'. run_state (events_setup sample_loop_os) [] = (Some EVENTS_CTX_INIT, tr)
    \<and> \<not> (\<exists>h. (handler_step (\<lambda>b p. b \<or> \<not> p))\<^sup>*\<^sup>* (handler_start tr EVENTS_CTX_INIT) h \<and> thread_ended h \<and> \<not> loop_broken h)
    \<and> run_state (events_setup (\<lambda>tr c. if c = Timer_event_add then -1 else sample_loop_os tr c)) [] = (Some EVENTS_CTX_INIT, tr')
    \<and> (\<exists>h. (handler_step (\<lambda>b p. b \<or> \<not> p))\<^sup>*\<^sup>* (handler_start tr' EVENTS_CTX_INIT) h \<and> thread_ended h \<and> \<not> loop_broken h)"
proof -
  let ?os = "\<lambda>tr c. if c = Timer_event_add then -1 else sample_loop_os tr c"
  obtain tr where tr: "run_state (events_setup sample_loop_os) [] = (Some EVENTS_CTX_INIT, tr)"
      "\<forall>rc. (Timer_event_add, rc) \<in> set tr \<longrightarrow> rc = 0"
    by (simp add: events_setup_def sample_loop_os_def)
  obtain tr' where tr': "run_state (events_setup ?os) [] = (Some EVENTS_CTX_INIT, tr')" "(Timer_event_add, -1) \<in> set tr'"
    by (simp add: events_setup_def sample_loop_os_def)
  have "\<not> (\<exists>rc. (Timer_event_add, rc) \<in> set tr \<and> rc \<noteq> 0)" using tr(2) by blast
  note alive = this [folded event_thread_needs_its_timer [OF tr(1), of "\<lambda>b p. b \<or> \<not> p", OF refl]]
  have "\<exists>rc. (Timer_event_add, rc) \<in> set tr' \<and> rc \<noteq> 0" using tr'(2) by (intro exI [of _ "-1"]) simp
  note ended = this [folded event_thread_needs_its_timer [OF tr'(1), of "\<lambda>b p. b \<or> \<not> p", OF refl]]
  show ?thesis
    by (rule exI [of _ tr], rule exI [of _ tr'], intro conjI tr(1) alive tr'(1) ended)
qed

end
