(* ===== verification/Base_Tests.thy ===== *)
theory Base_Tests
  imports Helper
begin

text \<open>
  \<^verbatim>\<open>test/base-tests.c\<close>: the unit test of the regular expression for MAC addresses. The test uses a pattern of its
  own, which also accepts dashes; the property states how it relates to what \<^verbatim>\<open>hpav_parse_mac\<close> accepts.
\<close>

section \<open>The test\<close>

text \<open>\<open>^([0-9A-Fa-f]{2}[:-]{1}){5}[0-9A-Fa-f]{2}$\<close>\<close>

definition test_pattern :: ere where
  "test_pattern = Concat (Repeat (Concat (Repeat ere_hex 2)
     (Repeat (Bracket [(CHR '':'', CHR '':''), (CHR ''-'', CHR ''-'')]) 1)) 5) (Repeat ere_hex 2)"

text \<open>\<open>regexec\<close> returns 0 for a match and 1 otherwise.\<close>

definition test_regexec :: "string \<Rightarrow> int" where
  "test_regexec s = (if regexec_anchored test_pattern s then 0 else 1)"

definition test_gnu_regex :: bool where
  "test_gnu_regex \<longleftrightarrow>
     list_all (\<lambda>s. test_regexec s = 0)
       [''00:00:00:00:00:00'', ''01:0a:02:03:ff:32'', ''ba:d0:be:ef:0b:ad'', ''00:00:00:00:00:00'',
        ''00:00:00:00:00:00'']
     \<and> list_all (\<lambda>s. test_regexec s \<noteq> 0)
       [''00:00:00:00:00:00:00'', ''00:00:00:00:00'', ''00:00:00:00#00:00'', ''00:00:00:0000:00'',
        ''000:00:00:00:00:00'', ''ffff00:00:00:00:00:00'', ''00:00:0x:00:00:00'', ''00:00::00:00:00'']"


section \<open>Dashes for colons\<close>

definition colons :: "string \<Rightarrow> string" where
  "colons s = map (\<lambda>c. if c = CHR ''-'' then CHR '':'' else c) s"

lemma colons_simps [simp]:
  "colons [] = []" "colons (c # s) = (if c = CHR ''-'' then CHR '':'' else c) # colons s"
  by (simp_all add: colons_def)

lemma hex_digit_colons [simp]: "is_hex_digit (if c = CHR ''-'' then CHR '':'' else c) = is_hex_digit c"
  using hex_digit_not_char by auto

definition dash_group :: ere where
  "dash_group = Concat (Repeat ere_hex 2) (Repeat (Bracket [(CHR '':'', CHR '':''), (CHR ''-'', CHR ''-'')]) 1)"

definition dash_pattern :: "nat \<Rightarrow> ere" where
  "dash_pattern n = Concat (Repeat dash_group n) (Repeat ere_hex 2)"

lemma test_pattern_eq: "test_pattern = dash_pattern 5"
  by (simp add: test_pattern_def dash_pattern_def dash_group_def)

lemma dash_group_match:
  "ere_match dash_group s =
    (case s of h # l # c # s' \<Rightarrow>
       if is_hex_digit h \<and> is_hex_digit l \<and> (c = CHR '':'' \<or> c = CHR ''-'') then [s'] else [] | _ \<Rightarrow> [])"
  by (auto simp: dash_group_def ere_hex2_match in_range_single ere_match_repeat_Suc split: list.splits)

lemma dash_pattern_match:
  "regexec_anchored (dash_pattern n) s \<longleftrightarrow> spelled n (colons s) \<noteq> None"
proof (induction n arbitrary: s)
  case 0
  then show ?case
    by (auto simp: regexec_anchored_def dash_pattern_def ere_hex2_match colons_def split: list.splits)
next
  case (Suc n)
  have hex: "\<not> is_hex_digit (CHR '':'')" "\<not> is_hex_digit (CHR ''-'')"
    using hex_digit_not_char by blast+
  have "regexec_anchored (dash_pattern (Suc n)) s \<longleftrightarrow>
    (\<exists>s'. s' \<in> set (ere_match dash_group s) \<and> regexec_anchored (dash_pattern n) s')"
    by (auto simp: regexec_anchored_def dash_pattern_def ere_match_repeat_Suc)
  also have "\<dots> \<longleftrightarrow> spelled (Suc n) (colons s) \<noteq> None"
    using hex by (cases s rule: list.exhaust; cases "tl s"; cases "tl (tl s)")
      (auto simp: dash_group_match Suc)
  finally show ?case .
qed

lemma spelled_no_dash: "spelled n s \<noteq> None \<Longrightarrow> CHR ''-'' \<notin> set s"
proof (induction n arbitrary: s)
  case 0
  then show ?case
    using hex_digit_not_char by (auto split: list.splits if_splits)
next
  case (Suc n)
  then show ?case
    using hex_digit_not_char by (fastforce split: list.splits if_splits)
qed

lemma colons_id: "CHR ''-'' \<notin> set s \<Longrightarrow> colons s = s"
  by (induction s) auto


lemma spelled_5: "spelled 5 = spelled (Suc (Suc (Suc (Suc (Suc 0)))))"
  by (simp add: eval_nat_numeral)


section \<open>Properties\<close>

text \<open>
  C40: The unit test of the repository succeeds, and its pattern is the one of \<^verbatim>\<open>hpav_parse_mac\<close> but for the dash:
  the function accepts a text exactly when the tested pattern does and the text has no dash, and the tested
  pattern accepts exactly the texts that the function accepts once their dashes are turned into colons.
\<close>
theorem tested_pattern_equivalent:
  assumes "length dst = 6"
  shows "test_gnu_regex
    \<and> (fst (hpav_parse_mac True dst (Some s)) = EXIT_SUCCESS \<longleftrightarrow> test_regexec s = 0 \<and> CHR ''-'' \<notin> set s)
    \<and> (test_regexec s = 0 \<longleftrightarrow> fst (hpav_parse_mac True dst (Some (colons s))) = EXIT_SUCCESS)"
proof -
  have accepts: "fst (hpav_parse_mac True dst (Some t)) = EXIT_SUCCESS \<longleftrightarrow> spelled 5 t \<noteq> None" for t
    using mac.parse_text [of dst t] assms by (auto simp: exit_code_defs split: option.splits)
  have test: "test_regexec t = 0 \<longleftrightarrow> spelled 5 (colons t) \<noteq> None" for t
    by (simp add: test_regexec_def test_pattern_eq dash_pattern_match)
  have "test_gnu_regex"
    by (simp add: test_gnu_regex_def test spelled_5 is_hex_digit_def in_range_def)
  moreover have "spelled 5 s \<noteq> None \<longleftrightarrow> spelled 5 (colons s) \<noteq> None \<and> CHR ''-'' \<notin> set s"
    using spelled_no_dash [of 5 s] colons_id [of s] by auto
  ultimately show ?thesis
    unfolding accepts test by blast
qed

theorem tested_pattern_equivalent_witness:
  "test_regexec ''00-b0-52-00-00-01'' = 0
    \<and> fst (hpav_parse_mac True [0, 0, 0, 0, 0, 0] (Some ''00-b0-52-00-00-01'')) \<noteq> EXIT_SUCCESS"
proof -
  have "fst (hpav_parse_mac True [0, 0, 0, 0, 0, 0] (Some ''00:b0:52:00:00:01'')) = EXIT_SUCCESS"
    by (simp add: mac.parse_text eval_nat_numeral is_hex_digit_def in_range_def exit_code_defs)
  then show ?thesis
    using tested_pattern_equivalent [of "[0, 0, 0, 0, 0, 0]" "''00-b0-52-00-00-01''"] by simp
qed

end
