(* ===== verification/Spec2Isabelle.thy ===== *)
theory Spec2Isabelle
  imports Hpav_Stats_Replies Mains Event_Thread Base_Tests
begin

text \<open>
  Verification of hpav-link-stats, three command line programs that talk to power line adapters (HomePlug AV,
  IEEE 1901-2010) over a raw Ethernet socket. All paths are relative to \<^verbatim>\<open>src/\<close> of the repository.

  \<^bold>\<open>The program.\<close> Each program has the same shape. \<^verbatim>\<open>main\<close> lets argp read the command line into a configuration
  (\<^verbatim>\<open>_parse_opt\<close>, which uses \<^verbatim>\<open>src/helper.c\<close> for addresses), starts the event handler (\<^verbatim>\<open>src/events.c\<close>, a thread
  that runs libevent's loop and calls registered functions back), opens the interface (\<^verbatim>\<open>src/net.c\<close>), registers
  its callbacks with the message layer (\<^verbatim>\<open>src/ieee1901-2010.c\<close>), adds a reader for the socket and sends its
  requests. Whenever the socket is readable, the event thread reads one frame and hands it to
  \<^verbatim>\<open>ieee1901_2010_handle_message\<close>, which checks and takes it apart and calls the program's callbacks; these print,
  count and, in \<^verbatim>\<open>hpav-discover\<close>, send further requests. \<^verbatim>\<open>main\<close> waits and tears everything down.

  \<^bold>\<open>The theories.\<close>

  \<^item> \<open>C_Prelude\<close>: integers at their C width, buffers with checked reads, the three ways a computation can end
    (\<^term>\<open>Continue\<close>, \<^term>\<open>Exit\<close>, \<^term>\<open>Fault\<close>; \<^term>\<open>Fault\<close> and \<^term>\<open>None\<close> stand for undefined behaviour) and \<^term>\<open>ensures\<close>, the
    judgement that a computation does not fault and its result has a property.
  \<^item> \<open>Interfaces\<close>: the contracts that components share. \<open>lifecycle\<close> (what a constructor acquires its destructor
    releases) is interpreted by \<open>Net\<close> and \<open>Event_Loop\<close>, \<open>simulation\<close> by \<open>Event_Registry\<close>. \<open>Fair_Runs\<close> has infinite
    runs and \<open>fair_thread\<close>, a thread that works off a queue of actions; the threads of the programs are
    its interpretations. Further locales stand with the component that relies on them: \<open>wire_layout\<close> (record and bytes determine each other), \<open>address_parser\<close>,
    \<open>argp_client\<close> (what a program promises about its \<^verbatim>\<open>_parse_opt\<close>) and \<open>callbacks\<close> (about its callbacks).
  \<^item> \<open>Mm_Types\<close>, \<open>Wire_Structs\<close>: \<^verbatim>\<open>include/ieee1901-2010.h\<close> and the part of \<^verbatim>\<open>include/homeplug-av-ext.h\<close> that the programs
    use. Every packed struct is a record, with a decoder and an encoder that are inverse to each other.
  \<^item> \<open>Ieee_Handler\<close>: the receiving half of \<^verbatim>\<open>src/ieee1901-2010.c\<close> with the offsets, the wrapping remaining size and the
    \<^verbatim>\<open>uint8_t\<close> counters of the code. \<open>Ieee_Spec\<close> states on whole frames what it promises and proves that the code
    refines it. \<open>Ieee_Send\<close> is the sending half, \<open>Ieee_Exchange\<close> shows that what one side sends the other receives.
  \<^item> \<open>C_Text\<close>: regular expressions, \<open>sscanf\<close>, \<open>strtoul\<close> and \<open>printf\<close> conversions as far as the programs use them;
    \<open>Helper\<close>: \<^verbatim>\<open>src/helper.c\<close>; \<open>Base_Tests\<close>: \<^verbatim>\<open>test/base-tests.c\<close>.
  \<^item> \<open>Net\<close>: \<^verbatim>\<open>src/net.c\<close>. The functions ask an arbitrary kernel, whose answers may depend on all earlier calls, and
    record what they asked; resources are accounted for on that record.
  \<^item> \<open>Event_List\<close>, \<open>Events\<close>, \<open>Event_Registry\<close>, \<open>Event_Usage\<close>, \<open>Event_Loop\<close>, \<open>Event_Thread\<close>: \<^verbatim>\<open>src/events.c\<close>. The list of events is modelled
    as the linked blocks in memory that the \<open>LIST_*\<close> macros edit; the registry, a list of entries, is what they
    refine. The mutex and libevent's event structures are part of the state.
  \<^item> \<open>Argp\<close>, \<open>Program\<close>: what the programs share; a run of \<^verbatim>\<open>main\<close> yields its actions (frames, sleeps, lines, assignments
    of shared variables), the reaction to a frame yields the callbacks' effects. \<open>Program_Session\<close> puts a program
    together with its event handler, from \<^verbatim>\<open>events_setup\<close> to \<^verbatim>\<open>events_teardown\<close>.
  \<^item> \<open>Hpav_Stats_Options\<close>, \<open>Hpav_Stats\<close>, \<open>Hpav_Stats_Replies\<close>, \<open>Hpav_Stats_Progress\<close>: \<^verbatim>\<open>bin/hpav-stats.c\<close>; \<open>Hpav_Discover_Options\<close>,
    \<open>Hpav_Discover\<close>, \<open>Hpav_Discover_Progress\<close>: \<^verbatim>\<open>bin/hpav-discover.c\<close>; \<open>Loop_Mm_Types\<close>: \<^verbatim>\<open>bin/loop-mm-types.c\<close>. Each has the options, the configuration, \<^verbatim>\<open>main\<close> and
    the callbacks; for the first two a step relation interleaves \<^verbatim>\<open>main\<close> with the event thread.
  \<^item> \<open>Mains\<close>: \<^verbatim>\<open>main\<close> of the three programs as a whole. This theory shows what they do from their command line to
    their exit.

  C functions keep their names; a leading underscore is dropped, and the functions that exist in several
  programs have the program as a prefix (\<open>stats_parse_opt\<close>, \<open>discover_parse_opt\<close>, \<open>loop_parse_opt\<close>).

  \<^bold>\<open>What is shown.\<close>

  \<^item> Receiving: for every frame, however malformed, the handler reads only inside the buffer, and it runs
    exactly the callbacks that the specification names, with the decoded structs, the registered user data and
    the specified return code. Decoding inverts encoding for every message.
  \<^item> Sending: the layout, the padding to 60 bytes and the return codes of \<^verbatim>\<open>ieee1901_2010_message_send\<close>.
  \<^item> Helper functions: which texts are accepted, that they are converted to the right bytes, that printing and
    parsing are inverse, and that the destination of a rejected text is left alone.
  \<^item> Events: in every reachable state the links are consistent, every event structure belongs to one block
    and the ids are distinct; cancelling finds exactly the entry with its id and terminates; registered
    functions are called with their data. Where the code is wrong (the arguments of a single shot, the cleanup
    after a failed \<open>event_new\<close>, cancelling in two threads, a single shot that cancels itself, the timer that is not freed and whose start is not checked) this is a theorem too.
  \<^item> Resources: \<^verbatim>\<open>net.c\<close> releases on every path what it acquired; \<^verbatim>\<open>events.c\<close> all but the timer event.
  \<^item> Programs: every command line is either rejected or gives a well-formed configuration. From there \<^verbatim>\<open>main\<close> exits
    early or sends the frames that this configuration asks for, in order, and releases what it holds; the
    two ways in which it can be undefined are part of the statement. Further, a reply is printed with its values under the right number; in
    every interleaving the counters agree with the printed lines. With a fair schedule each thread comes to the
    end of what it has to send and print. In every session libevent can only call \<^verbatim>\<open>_handle_data\<close>, with the
    socket and the context it was registered with, until the teardown.

  \<^bold>\<open>Bounds.\<close> No definition has fuel. Most loops of the code are recursion on what they consume. Three could run
  forever and are partial functions: the search along the links, the loop that destroys all events (both
  return, because the links of every reachable state form a finite chain) and the loop over the link
  identifiers (it returns, because its counter has 16 bits and its limit is at most 255). A received
  length is below \<open>2 ^ 31\<close>, where the \<open>int\<close> arithmetic of the code does not wrap; the programs read at most 1500
  bytes. Interface names may have any length; \<open>strncpy\<close> leaves one of 16 or more characters without terminator,
  and what follows from that is part of the theorems on \<^verbatim>\<open>main\<close>.
  Event ids are 64-bit and are assumed not to wrap; the counter is read and advanced in one step, although two
  threads that register at the same time would race on it. The host is little-endian with 32-bit \<open>int\<close>.

  \<^bold>\<open>Not modelled.\<close> libevent, the kernel, the thread library and argp are outside the repository: their answers are
  arguments of the definitions, their timing and the text of argp's messages have no model. argp is taken from
  the point where it has found the options and arguments of the command line. The programs do not look at the
  result of \<^verbatim>\<open>events_add_reader\<close>; a refused registration only means that no reply is printed (one for which
  \<open>event_new\<close> fails is a fault, see \<open>Event_Registry\<close>, and with it \<^verbatim>\<open>main\<close>). In the step relation of \<open>Event_Registry\<close>
  the registered functions leave the registry alone, as \<^verbatim>\<open>_handle_data\<close> does; functions that register or cancel
  events are the subject of theorems in \<open>Event_Usage\<close>. The data race on the shared variable
  \<^verbatim>\<open>link_stats_req_type\<close> is modelled as interleaving of whole assignments. \<^verbatim>\<open>bin/hpav_stats.py\<close>, a script around
  \<^verbatim>\<open>hpav-stats\<close>, the cmocka runner and the build files contain no logic of the programs.
\<close>

section \<open>The programs from start to end\<close>

lemma program_ends:
  assumes "ensures False P cmd"
    and "\<And>cnf. P cnf \<Longrightarrow> main_ends os los reader_fault (if_name cnf) (work cnf) (rest cnf)"
  shows "case cmd of
      Fault \<Rightarrow> False
    | Exit code \<Rightarrow> and_then cmd rest = Exit code
    | Continue cnf \<Rightarrow> P cnf \<and> main_ends os los reader_fault (if_name cnf) (work cnf) (and_then cmd rest)"
  using assms by (cases cmd) (auto simp: ensures_def)

lemma sample_opened:
  "\<exists>nctx tr. run_state (net_create sample_os (bounded_string (strncpy ''eth0'' 16)) IEEE1901_2010_ETHERTYPE) [] = (Some nctx, tr)"
  "\<exists>ectx tr. run_state (events_setup sample_loop_os) [] = (Some ectx, tr)"
  by (simp_all add: sample_net_simps bounded_string_def events_setup_def sample_loop_os_def)





text \<open>
  C28: \<^verbatim>\<open>loop-mm-types\<close> from its start to its end, in the same way, but without a reader: with the configuration of
  its command line and the interface it names, \<^verbatim>\<open>main\<close> sends exactly the frames that its options (less than
  \<open>2\<^sup>30\<close>) select, all of them of 60 bytes and with a message type of the table, and releases what was acquired.
  It is undefined exactly when the event handler has been started and an interface whose name has no
  terminator in its array (16 characters or more) cannot be opened.
\<close>
theorem loop_main_safe:
  assumes "list_all (item_ok loop_cmd_options) items" and "length items < 2 ^ 30"
    and "\<And>name. 6 \<le> length (hwaddr os name)"
  shows "case loop_command_line mem items of
      Fault \<Rightarrow> False
    | Exit code \<Rightarrow> loop_main null_ok mem os los wr items = Exit code
    | Continue cnf \<Rightarrow>
        (wf_loop_cnf cnf \<and> (\<exists>name. interfaces items = [name] \<and> if_name cnf = strncpy name 16))
        \<and> main_ends os los False (if_name cnf)
          (\<lambda>nctx acts. frames acts = concat (map (\<lambda>t. map (loop_frame nctx cnf t)
              (filter (\<lambda>oper. bit (mm_ops t) oper) (selected_opers items))) MMTypes)
            \<and> list_all (\<lambda>f. length f = 60 \<and> frame_mmtype f AND 0xfffc \<in> type_base ` set MMTypes) (frames acts))
          (loop_main null_ok mem os los wr items)"
proof -
  let ?cmd = "loop_command_line mem items"
  let ?P = "\<lambda>cnf. wf_loop_cnf cnf \<and> (\<exists>name. interfaces items = [name] \<and> if_name cnf = strncpy name 16)"
  have cmd: "ensures False (\<lambda>cnf. ?P cnf \<and> ?cmd = Continue cnf) ?cmd"
    using loop_cmd.parse_defined [OF wf_default_loop_cnf assms(1), of mem 0]
      loop_cmd.parse_inv [OF wf_default_loop_cnf, of mem 0 items]
      loop_cmd.parse_interface [of mem items default_loop_cnf]
    by (auto simp: loop_command_line_def ensures_def split: outcome.splits)
  have requests: "\<exists>acts. loop_requests wr nctx cnf = Continue acts
      \<and> frames acts = concat (map (\<lambda>t. map (loop_frame nctx cnf t)
          (filter (\<lambda>oper. bit (mm_ops t) oper) (selected_opers items))) MMTypes)
      \<and> list_all (\<lambda>f. length f = 60 \<and> frame_mmtype f AND 0xfffc \<in> type_base ` set MMTypes) (frames acts)"
    if cnf: "?P cnf \<and> ?cmd = Continue cnf" and addr: "6 \<le> length (sll_addr (if_cfg nctx))" for cnf nctx
  proof -
    obtain acts where acts: "loop_requests wr nctx cnf = Continue acts"
        "frames acts = concat (map (\<lambda>t. map (loop_frame nctx cnf t)
          (filter (\<lambda>oper. bit (mm_ops t) oper) (selected_opers items))) MMTypes)"
      using loop_requests_selected [OF _ assms(2) addr] cnf by blast
    then show ?thesis
      using loop_frame_in_table [OF _ addr] selected_opers_range cnf
      by (fastforce simp: list_all_iff)
  qed
  have "case ?cmd of Fault \<Rightarrow> False | Exit code \<Rightarrow> loop_main null_ok mem os los wr items = Exit code
    | Continue cnf \<Rightarrow> (?P cnf \<and> ?cmd = Continue cnf)
        \<and> main_ends os los False (if_name cnf)
          (\<lambda>nctx acts. frames acts = concat (map (\<lambda>t. map (loop_frame nctx cnf t)
              (filter (\<lambda>oper. bit (mm_ops t) oper) (selected_opers items))) MMTypes)
            \<and> list_all (\<lambda>f. length f = 60 \<and> frame_mmtype f AND 0xfffc \<in> type_base ` set MMTypes) (frames acts))
          (loop_main null_ok mem os los wr items)"
    unfolding loop_main_def
    by (rule program_ends [OF cmd], rule main_frame_without_reader [OF assms(3)], erule (1) requests)
  then show ?thesis
    by (cases ?cmd) simp_all
qed

theorem loop_main_safe_witness:
  "\<exists>cnf nctx acts ntr ltr. loop_main False (\<lambda>_. True) sample_os sample_loop_os (\<lambda>_. 60) sample_loop_items = Continue (acts, ntr, ltr)
    \<and> frames acts = concat (map (\<lambda>t. map (loop_frame nctx cnf t) (filter (\<lambda>oper. bit (mm_ops t) oper) [3])) MMTypes)
    \<and> net_account ntr {#} = Some {#} \<and> loop_account ltr {#} = Some {#Timer_event#}
    \<and> loop_main False (\<lambda>_. True) sample_os sample_loop_os (\<lambda>_. 60) [Arg ''eth9-interface-16''] = Fault"
proof -
  have items: "list_all (item_ok loop_cmd_options) sample_loop_items" "length sample_loop_items < 2 ^ 30"
      "list_all (item_ok loop_cmd_options) [Arg ''eth9-interface-16'']" "length [Arg ''eth9-interface-16''] < 2 ^ 30"
    by (simp_all add: sample_loop_items_def loop_cmd_options_def)
  have os: "6 \<le> length (hwaddr sample_os name)" for name
    by (simp add: sample_os_def)
  have opers: "selected_opers sample_loop_items = [3]"
    by (simp add: selected_opers_def others_given_def sample_loop_items_def occurrences_def)
  obtain cnf where cnf: "loop_command_line (\<lambda>_. True) sample_loop_items = Continue cnf" "if_name cnf = strncpy ''eth0'' 16"
    by (simp add: loop_command_line_def sample_loop_items_def loop_option_def)
  obtain long where long: "loop_command_line (\<lambda>_. True) [Arg ''eth9-interface-16''] = Continue long"
      "if_name long = ''eth9-interface-1''"
    by (simp add: loop_command_line_def strncpy_def)
  obtain nctx tr ectx tr' where opened: "run_state (net_create sample_os (bounded_string (strncpy ''eth0'' 16))
      IEEE1901_2010_ETHERTYPE) [] = (Some nctx, tr)" "run_state (events_setup sample_loop_os) [] = (Some ectx, tr')"
    using sample_opened by blast
  obtain tr'' where fails: "run_state (net_create sample_os (bounded_string ''eth9-interface-1'') IEEE1901_2010_ETHERTYPE) []
      = (None, tr'')"
    by (simp add: sample_net_simps bounded_string_def)
  have "loop_main False (\<lambda>_. True) sample_os sample_loop_os (\<lambda>_. 60) [Arg ''eth9-interface-16''] = Fault"
    using loop_main_safe [where null_ok = False and mem = "\<lambda>_. True" and los = sample_loop_os and wr = "\<lambda>_. 60",
        OF items(3,4) os]
    by (simp add: long main_ends_def opened(2) fails)
  moreover have "\<exists>acts ntr ltr. loop_main False (\<lambda>_. True) sample_os sample_loop_os (\<lambda>_. 60) sample_loop_items
      = Continue (acts, ntr, ltr)
    \<and> frames acts = concat (map (\<lambda>t. map (loop_frame nctx cnf t) (filter (\<lambda>oper. bit (mm_ops t) oper) [3])) MMTypes)
    \<and> net_account ntr {#} = Some {#} \<and> loop_account ltr {#} = Some {#Timer_event#}"
    using loop_main_safe [where null_ok = False and mem = "\<lambda>_. True" and los = sample_loop_os and wr = "\<lambda>_. 60",
        OF items(1,2) os]
    unfolding opers cnf(1) outcome.case main_ends_def cnf(2) opened by auto
  ultimately show ?thesis by blast
qed

end
